(* ===== verification/Prelude.thy ===== *)
theory Prelude
  imports Complex_Main "HOL-Library.Char_ord" "HOL-Library.List_Lexorder"
    "HOL-Library.Product_Lexorder"
begin

text \<open>
  Shared ground of the development: the result type of fallible Go code, the error values of the
  stores, decimal numerals as \<^verbatim>\<open>fmt.Sprintf\<close> prints them, enum tables as \<^verbatim>\<open>protoc\<close> generates
  them, and the list lemmas the components use.

  A Go function that returns \<^verbatim>\<open>(T, error)\<close> is a value of type \<open>err + 't\<close> (\<open>Inl\<close> is the error).
  The collections \<open>res_iff\<close> (when does a fallible computation succeed), \<open>frame\<close> (what an
  operation leaves alone) and \<open>keeps_intro\<close> (invariants of composed operations) carry the proofs.
\<close>

named_theorems res_iff
named_theorems frame
named_theorems keeps_intro

section \<open>Errors\<close>

datatype err =
    ErrNotFound
  | ErrForbidden
  | ErrInflight
  | ErrAlreadyExists
  | ErrFailedPrecondition
  | AuthErr string
  | DbErr string

datatype code =
    Unavailable | InvalidArgument | NotFound | AlreadyExists | FailedPrecondition
  | Aborted | Unauthenticated | PermissionDenied | Internal

datatype status = StatusError code

section \<open>Fallible computations\<close>

definition rb :: "'e + 'a \<Rightarrow> ('a \<Rightarrow> 'e + 'b) \<Rightarrow> 'e + 'b" where
  "rb m k = (case m of Inl e \<Rightarrow> Inl e | Inr x \<Rightarrow> k x)"

lemma rb_simps [simp]: "rb (Inl e) k = Inl e" "rb (Inr x) k = k x"
  by (simp_all add: rb_def)

lemma rb_Inr [res_iff]: "rb m k = Inr y \<longleftrightarrow> (\<exists>x. m = Inr x \<and> k x = Inr y)"
  by (cases m) auto

lemma rb_Inl [res_iff]: "rb m k = Inl e \<longleftrightarrow> m = Inl e \<or> (\<exists>x. m = Inr x \<and> k x = Inl e)"
  by (cases m) auto

definition of_opt :: "'e \<Rightarrow> 'a option \<Rightarrow> 'e + 'a" where
  "of_opt e o' = (case o' of None \<Rightarrow> Inl e | Some x \<Rightarrow> Inr x)"

lemma of_opt_simps [simp]: "of_opt e None = Inl e" "of_opt e (Some x) = Inr x"
  by (simp_all add: of_opt_def)

lemma of_opt_Inr [res_iff]: "of_opt e o' = Inr x \<longleftrightarrow> o' = Some x"
  by (cases o') auto

lemma of_opt_Inl [res_iff]: "of_opt e o' = Inl e' \<longleftrightarrow> o' = None \<and> e' = e"
  by (cases o') auto

text \<open>The error-propagating loop \<^verbatim>\<open>for _, x := range xs { y, err := f(x); if err != nil { return err }; ... }\<close>.\<close>

fun res_map :: "('a \<Rightarrow> 'e + 'b) \<Rightarrow> 'a list \<Rightarrow> 'e + 'b list" where
  "res_map f [] = Inr []"
| "res_map f (x # xs) = rb (f x) (\<lambda>y. rb (res_map f xs) (\<lambda>ys. Inr (y # ys)))"

lemma res_map_Inr [res_iff]:
  "res_map f xs = Inr ys \<longleftrightarrow> list_all2 (\<lambda>x y. f x = Inr y) xs ys"
  by (induction xs arbitrary: ys) (auto simp: res_iff list_all2_Cons1)

lemma res_map_total: "(\<And>x. x \<in> set xs \<Longrightarrow> f x = Inr (g x)) \<Longrightarrow> res_map f xs = Inr (map g xs)"
  by (induction xs) auto

lemma res_map_append:
  "res_map f xs = Inr ys \<Longrightarrow> res_map f xs' = Inr ys' \<Longrightarrow> res_map f (xs @ xs') = Inr (ys @ ys')"
  by (induction xs arbitrary: ys) (auto simp: rb_Inr)

section \<open>Decimal numerals\<close>

definition digit_char :: "nat \<Rightarrow> char" where
  "digit_char d = char_of (48 + d)"

fun nat_str :: "nat \<Rightarrow> string" where
  "nat_str n = (if n < 10 then [digit_char n] else nat_str (n div 10) @ [digit_char (n mod 10)])"

declare nat_str.simps [simp del]

definition int_str :: "int \<Rightarrow> string" where
  "int_str i = (if i < 0 then CHR ''-'' # nat_str (nat (- i)) else nat_str (nat i))"

lemma nat_str_nonempty [simp]: "nat_str n \<noteq> []"
  by (subst nat_str.simps) simp

section \<open>Enum tables\<close>

text \<open>
  \<^verbatim>\<open>protoc-gen-go\<close> gives every enum a table \<^verbatim>\<open>X_name : map[int32]string\<close>, its inverse
  \<^verbatim>\<open>X_value\<close>, and a method \<^verbatim>\<open>String()\<close> that falls back to the decimal numeral for a number
  outside the table. Proto3 enums are open: any \<^verbatim>\<open>int32\<close> may arrive on the wire.
\<close>

type_synonym enum_table = "(int \<times> string) list"

definition enum_String :: "enum_table \<Rightarrow> int \<Rightarrow> string" where
  "enum_String tbl n = (case map_of tbl n of Some s \<Rightarrow> s | None \<Rightarrow> int_str n)"

definition enum_value :: "enum_table \<Rightarrow> string \<Rightarrow> int option" where
  "enum_value tbl s = map_of (map (\<lambda>(n, t). (t, n)) tbl) s"

locale enum =
  fixes tbl :: enum_table
  assumes distinct_numbers: "distinct (map fst tbl)"
    and distinct_names: "distinct (map snd tbl)"
begin

lemma value_String: "(n, s) \<in> set tbl \<Longrightarrow> enum_value tbl (enum_String tbl n) = Some n"
proof -
  assume mem: "(n, s) \<in> set tbl"
  have "map_of tbl n = Some s"
    using mem distinct_numbers by simp
  moreover have "distinct (map fst (map (\<lambda>(n, t). (t, n)) tbl))"
    using distinct_names by (simp add: comp_def case_prod_beta)
  moreover have "(s, n) \<in> set (map (\<lambda>(n, t). (t, n)) tbl)"
    using mem by force
  ultimately show ?thesis
    by (simp add: enum_String_def enum_value_def del: map_map)
qed

lemma String_value: "enum_value tbl s = Some n \<Longrightarrow> enum_String tbl n = s"
proof -
  assume "enum_value tbl s = Some n"
  then have "(s, n) \<in> set (map (\<lambda>(n, t). (t, n)) tbl)"
    unfolding enum_value_def by (rule map_of_SomeD)
  then have "(n, s) \<in> set tbl"
    by auto
  with distinct_numbers have "map_of tbl n = Some s"
    by simp
  then show ?thesis
    by (simp add: enum_String_def)
qed

end

section \<open>Lists\<close>

lemma find_Some_iff': "find P xs = Some x \<Longrightarrow> x \<in> set xs \<and> P x"
  by (auto simp: find_Some_iff)

lemma find_None_filter: "find P xs = None \<longleftrightarrow> filter P xs = []"
  by (induction xs) auto

lemma find_filter: "find P xs = (case filter P xs of [] \<Rightarrow> None | x # _ \<Rightarrow> Some x)"
  by (induction xs) auto

lemma find_in_set: "x \<in> set xs \<Longrightarrow> P x \<Longrightarrow> \<exists>y. find P xs = Some y"
  by (induction xs) auto

lemma list_ex_key: "list_ex (\<lambda>x. f x = k) xs \<longleftrightarrow> k \<in> f ` set xs"
  by (auto simp: list_ex_iff)

lemma not_isl: "\<not> isl x \<longleftrightarrow> (\<exists>y. x = Inr y)"
  by (cases x) auto

lemma map_upd_key:
  "(\<And>x. f (g x) = f x) \<Longrightarrow> map f (map (\<lambda>x. if P x then g x else x) xs) = map f xs"
  by (induction xs) auto

text \<open>Unique keys: at most one element of a list with distinct keys carries a given key.\<close>

lemma distinct_key_unique:
  "distinct (map f xs) \<Longrightarrow> x \<in> set xs \<Longrightarrow> y \<in> set xs \<Longrightarrow> f x = f y \<Longrightarrow> x = y"
  by (induction xs) (auto simp: image_iff)

lemma filter_key_single:
  assumes "distinct (map f xs)" and "x \<in> set xs"
  shows "filter (\<lambda>y. f y = f x) xs = [x]"
  using assms
proof (induction xs)
  case Nil
  then show ?case by simp
next
  case (Cons a xs)
  show ?case
  proof (cases "a = x")
    case True
    with Cons.prems have "filter (\<lambda>y. f y = f x) xs = []"
      by (force simp: filter_empty_conv image_iff)
    with True show ?thesis by simp
  next
    case False
    with Cons show ?thesis by (auto simp: image_iff)
  qed
qed

lemma set_take_drop_subset: "set (take n (drop m xs)) \<subseteq> set xs"
  by (meson order_trans set_drop_subset set_take_subset)

end
