(* ===== verification/Jsonb.thy ===== *)
theory Jsonb
  imports Prelude
begin

text \<open>
  JSON values and the PostgreSQL \<^verbatim>\<open>jsonb\<close> operators that the SQL of the stores uses:
  \<^verbatim>\<open>->\<close> (\<open>jget\<close>), \<^verbatim>\<open>->>\<close> (\<open>jget_text\<close>), \<^verbatim>\<open>||\<close> (\<open>jconcat\<close>), \<^verbatim>\<open>@>\<close> (\<open>jcontains\<close>),
  \<^verbatim>\<open>jsonb_set\<close> with a one-element path (\<open>jset\<close>) and \<^verbatim>\<open>jsonb_build_object\<close> (a literal \<open>JObj\<close>).
  An object is an association list; only lookups (\<open>map_of\<close>) give it meaning, since \<^verbatim>\<open>jsonb\<close>
  does not keep key order.
\<close>

datatype json =
    JNull
  | JBool bool
  | JNum rat
  | JStr string
  | JArr "json list"
  | JObj "(string \<times> json) list"

fun jscalar :: "json \<Rightarrow> bool" where
  "jscalar (JArr _) = False"
| "jscalar (JObj _) = False"
| "jscalar _ = True"

fun jget :: "json \<Rightarrow> string \<Rightarrow> json option" where
  "jget (JObj kvs) k = map_of kvs k"
| "jget _ k = None"

text \<open>\<^verbatim>\<open>j ->> k\<close>: SQL NULL for a missing key and for a JSON null; \<open>txt\<close> prints a non-string value.\<close>

definition jget_text :: "(json \<Rightarrow> string) \<Rightarrow> json \<Rightarrow> string \<Rightarrow> string option" where
  "jget_text txt j k =
     (case jget j k of
        None \<Rightarrow> None
      | Some JNull \<Rightarrow> None
      | Some (JStr s) \<Rightarrow> Some s
      | Some v \<Rightarrow> Some (txt v))"

definition obj_merge :: "(string \<times> json) list \<Rightarrow> (string \<times> json) list \<Rightarrow> (string \<times> json) list" where
  "obj_merge a b = filter (\<lambda>kv. fst kv \<notin> set (map fst b)) a @ b"

fun as_array :: "json \<Rightarrow> json list" where
  "as_array (JArr xs) = xs"
| "as_array j = [j]"

fun jconcat :: "json \<Rightarrow> json \<Rightarrow> json" where
  "jconcat (JObj a) (JObj b) = JObj (obj_merge a b)"
| "jconcat a b = JArr (as_array a @ as_array b)"

text \<open>\<^verbatim>\<open>jsonb_set(target, '{k}', v)\<close> with \<^verbatim>\<open>create_missing\<close>: an error unless the target is an object.\<close>

fun jset :: "json \<Rightarrow> string \<Rightarrow> json \<Rightarrow> string + json" where
  "jset (JObj kvs) k v = Inr (JObj (obj_merge kvs [(k, v)]))"
| "jset (JArr _) k v = Inl ''path element is not an integer''"
| "jset _ k v = Inl ''cannot set path in scalar''"

lemma size_snd_obj': "kv \<in> set b \<Longrightarrow> size (snd kv) < size (JObj b)"
  by (induction b) (auto simp: less_Suc_eq)

lemma size_arr: "y \<in> set b \<Longrightarrow> size y < size (JArr b)"
  by (induction b) (auto simp: less_Suc_eq)

text \<open>
  Containment below the top level: values of the same shape, objects key by key, arrays element by
  element (a scalar element must occur, a container element must be contained in some element).
\<close>

function (sequential) jdeep :: "json \<Rightarrow> json \<Rightarrow> bool" where
  "jdeep (JObj a) (JObj b) =
     (\<forall>kv \<in> set b. case map_of a (fst kv) of None \<Rightarrow> False | Some v \<Rightarrow> jdeep v (snd kv))"
| "jdeep (JArr a) (JArr b) =
     (\<forall>y \<in> set b. \<exists>x \<in> set a. if jscalar y then x = y else jdeep x y)"
| "jdeep a b = (jscalar a \<and> jscalar b \<and> a = b)"
  by pat_completeness auto

termination jdeep
  by (relation "measure (\<lambda>(a, b). size b)") (use size_snd_obj' size_arr in auto)

text \<open>\<^verbatim>\<open>l @> r\<close>: at the top level an array also contains each of its scalar elements.\<close>

definition jcontains :: "json \<Rightarrow> json \<Rightarrow> bool" where
  "jcontains l r = (case l of JArr xs \<Rightarrow> (if jscalar r then r \<in> set xs else jdeep l r) | _ \<Rightarrow> jdeep l r)"

definition empty_obj :: json where
  "empty_obj = JObj []"

section \<open>Lemmas\<close>

lemma map_of_obj_merge [simp]:
  "map_of (obj_merge a b) k = (case map_of b k of Some v \<Rightarrow> Some v | None \<Rightarrow> map_of a k)"
proof -
  have drop: "map_of (filter (\<lambda>kv. fst kv \<notin> set (map fst b)) a) k =
        (if k \<in> set (map fst b) then None else map_of a k)"
    by (induction a) (force simp: image_iff)+
  show ?thesis
  proof (cases "map_of b k")
    case None
    then have "k \<notin> set (map fst b)"
      by (simp add: map_of_eq_None_iff)
    with drop None show ?thesis
      by (simp add: obj_merge_def map_add_def split: option.splits)
  next
    case (Some v)
    then have "k \<in> set (map fst b)"
      by (force dest: map_of_SomeD)
    with drop Some show ?thesis
      by (simp add: obj_merge_def map_add_def)
  qed
qed

lemma jget_jconcat [simp]:
  "jget (jconcat (JObj a) (JObj b)) k = (case map_of b k of Some v \<Rightarrow> Some v | None \<Rightarrow> map_of a k)"
  by simp

lemma jconcat_empty_right [simp]: "jconcat (JObj a) empty_obj = JObj a"
  by (simp add: empty_obj_def obj_merge_def)

lemma jset_get: "jset j k v = Inr j' \<Longrightarrow> jget j' k' = (if k' = k then Some v else jget j k')"
  by (cases j) auto

lemma jcontains_pair [simp]:
  "jcontains (JObj a) (JObj [(k, v)]) = (case map_of a k of None \<Rightarrow> False | Some x \<Rightarrow> jdeep x v)"
  by (auto simp: jcontains_def split: option.splits)

section \<open>External functions\<close>

text \<open>
  What the program calls and this development does not define: the text-to-\<^verbatim>\<open>uuid\<close> and
  text-to-\<^verbatim>\<open>jsonb\<close> casts of PostgreSQL, the \<^verbatim>\<open>jsonb\<close>-to-text conversion behind \<^verbatim>\<open>->>\<close>,
  \<^verbatim>\<open>uuid.Parse\<close> of the package \<^verbatim>\<open>google/uuid\<close>, and the decoder and encoder of \<^verbatim>\<open>encoding/json\<close>. Every operation
  takes them as its first argument, so a theorem holds for all of them unless it names what it
  needs. A \<^verbatim>\<open>uuid\<close> value is represented by its canonical text; \<open>pg_uuid\<close> and \<open>go_uuid\<close> return it.
\<close>

type_synonym uuid = string

record env =
  pg_uuid :: "string \<Rightarrow> uuid option"
  go_uuid :: "string \<Rightarrow> uuid option"
  pg_jsonb :: "string \<Rightarrow> json option"
  pg_text :: "json \<Rightarrow> string"
  go_json :: "string \<Rightarrow> json option"
  go_marshal :: "json \<Rightarrow> string"

definition cast_uuid :: "env \<Rightarrow> string \<Rightarrow> string + uuid" where
  "cast_uuid E s = of_opt ''invalid input syntax for type uuid'' (pg_uuid E s)"

definition cast_jsonb :: "env \<Rightarrow> string \<Rightarrow> string + json" where
  "cast_jsonb E s = of_opt ''invalid input syntax for type json'' (pg_jsonb E s)"

text \<open>Casting is idempotent: the database reads the text it prints for a \<^verbatim>\<open>uuid\<close> as that \<^verbatim>\<open>uuid\<close>.\<close>

definition uuid_idem :: "env \<Rightarrow> bool" where
  "uuid_idem E \<longleftrightarrow> (\<forall>s i. pg_uuid E s = Some i \<longrightarrow> pg_uuid E i = Some i)"

lemma cast_uuid_Inr [res_iff]: "cast_uuid E s = Inr u \<longleftrightarrow> pg_uuid E s = Some u"
  by (simp add: cast_uuid_def res_iff)

lemma cast_jsonb_Inr [res_iff]: "cast_jsonb E s = Inr j \<longleftrightarrow> pg_jsonb E s = Some j"
  by (simp add: cast_jsonb_def res_iff)

end
