(* ===== verification/Auth_Filter.thy ===== *)
theory Auth_Filter
  imports Jsonb
begin

text \<open>
  Authorization filters (\<^verbatim>\<open>internal/auth/filter.go\<close>). \<open>ApplyToQuery\<close> turns the filters of a
  request into a SQL \<^verbatim>\<open>WHERE\<close> fragment with numbered placeholders and the arguments to bind.
  The fragment is kept as a tree (\<open>frag\<close>); \<open>render\<close> prints the text the code builds with
  \<^verbatim>\<open>fmt.Sprintf\<close>, and \<open>frag_eval\<close> is what the database decides for a row once the arguments are
  bound. The main result says that a fragment emitted with the right start index decides exactly
  the meaning of the filters (\<open>auth_sem\<close>), and that no text of a request reaches the SQL string.
\<close>

section \<open>Filters and fragments\<close>

text \<open>\<open>NilFilter\<close> is a nil pointer, \<open>UnsetFilter\<close> a message whose oneof is not set.\<close>

datatype auth_filter =
    NilFilter
  | UnsetFilter
  | EqFilter string string
  | ContainsFilter string "string list"
  | OrFilter "auth_filter list"
  | AndFilter "auth_filter list"

datatype frag =
    FragNone
  | FragEq string nat nat
  | FragContains string nat nat
  | FragJoin string "frag list"

fun join_with :: "string \<Rightarrow> string list \<Rightarrow> string" where
  "join_with sep [] = []"
| "join_with sep [x] = x"
| "join_with sep (x # y # ys) = x @ sep @ join_with sep (y # ys)"

fun render :: "frag \<Rightarrow> string" where
  "render FragNone = []"
| "render (FragEq col i j) =
     ''('' @ col @ '' @> jsonb_build_object($'' @ nat_str i @ ''::text, $'' @ nat_str j @ ''::jsonb))''"
| "render (FragContains col i j) =
     ''(('' @ col @ '' -> $'' @ nat_str i @ ''::text) @> $'' @ nat_str j @ ''::jsonb)''"
| "render (FragJoin sep fs) = ''('' @ join_with sep (map render fs) @ '')''"

section \<open>Emission\<close>

fun emit :: "auth_filter \<Rightarrow> string \<Rightarrow> nat \<Rightarrow> err + (frag \<times> string list \<times> nat)"
  and emit_all :: "auth_filter list \<Rightarrow> string \<Rightarrow> nat \<Rightarrow> err + (frag list \<times> string list \<times> nat)" where
  "emit NilFilter col idx = Inl (AuthErr ''auth: nil filter'')"
| "emit UnsetFilter col idx = Inl (AuthErr ''auth: unknown filter type'')"
| "emit (EqFilter key mtch) col idx =
     (if key = [] then Inl (AuthErr ''auth: empty filter key'')
      else Inr (FragEq col idx (idx + 1), [key, mtch], idx + 2))"
| "emit (ContainsFilter key matches) col idx =
     (if key = [] then Inl (AuthErr ''auth: empty filter key'')
      else if length matches \<noteq> 1
      then Inl (AuthErr (''auth: contains filter requires exactly one match value, got '' @ nat_str (length matches)))
      else Inr (FragContains col idx (idx + 1), [key, matches ! 0], idx + 2))"
| "emit (OrFilter fs) col idx =
     (if fs = [] then Inl (AuthErr ''auth: empty nested filter'')
      else rb (emit_all fs col idx) (\<lambda>(parts, args, idx'). Inr (FragJoin '' OR '' parts, args, idx')))"
| "emit (AndFilter fs) col idx =
     (if fs = [] then Inl (AuthErr ''auth: empty nested filter'')
      else rb (emit_all fs col idx) (\<lambda>(parts, args, idx'). Inr (FragJoin '' AND '' parts, args, idx')))"
| "emit_all [] col idx = Inr ([], [], idx)"
| "emit_all (f # fs) col idx =
     rb (emit f col idx) (\<lambda>(p, args, idx').
       rb (emit_all fs col idx') (\<lambda>(ps, args', idx''). Inr (p # ps, args @ args', idx'')))"

definition ApplyToQuery :: "auth_filter list \<Rightarrow> string \<Rightarrow> nat \<Rightarrow> err + (frag \<times> string list)" where
  "ApplyToQuery filters jsonbColumn startIdx =
     (if filters = [] then Inr (FragNone, [])
      else rb (emit_all filters jsonbColumn startIdx) (\<lambda>(parts, args, _).
        if length parts = 1 then Inr (parts ! 0, args)
        else Inr (FragJoin '' AND '' parts, args)))"

text \<open>\<^verbatim>\<open>ValidateKey\<close>: the regular expression \<^verbatim>\<open>^[A-Za-z0-9_.\-]+$\<close>.\<close>

definition key_char :: "char \<Rightarrow> bool" where
  "key_char c =
     (let n = (of_char c :: nat)
      in (65 \<le> n \<and> n \<le> 90) \<or> (97 \<le> n \<and> n \<le> 122) \<or> (48 \<le> n \<and> n \<le> 57) \<or> n = 95 \<or> n = 46 \<or> n = 45)"

definition ValidateKey :: "string \<Rightarrow> status + unit" where
  "ValidateKey key =
     (if key \<noteq> [] \<and> list_all key_char key then Inr () else Inl (StatusError InvalidArgument))"

section \<open>Evaluation by the database\<close>

text \<open>Placeholder \<^verbatim>\<open>$i\<close> is the \<open>i\<close>-th bound argument, counted from 1.\<close>

definition arg :: "string list \<Rightarrow> nat \<Rightarrow> string option" where
  "arg args i = (if 1 \<le> i \<and> i \<le> length args then Some (args ! (i - 1)) else None)"

text \<open>Binding fails (before any row is looked at) if a \<^verbatim>\<open>::jsonb\<close> argument is not JSON.\<close>

fun frag_binds :: "env \<Rightarrow> string list \<Rightarrow> frag \<Rightarrow> bool" where
  "frag_binds E args FragNone = True"
| "frag_binds E args (FragEq col i j) =
     (arg args i \<noteq> None \<and> Option.bind (arg args j) (pg_jsonb E) \<noteq> None)"
| "frag_binds E args (FragContains col i j) =
     (arg args i \<noteq> None \<and> Option.bind (arg args j) (pg_jsonb E) \<noteq> None)"
| "frag_binds E args (FragJoin sep fs) = list_all (frag_binds E args) fs"

text \<open>Whether the fragment is true for a row; \<open>cv\<close> gives the row's \<^verbatim>\<open>jsonb\<close> columns by name.\<close>

fun frag_eval :: "env \<Rightarrow> string list \<Rightarrow> (string \<Rightarrow> json) \<Rightarrow> frag \<Rightarrow> bool" where
  "frag_eval E args cv FragNone = True"
| "frag_eval E args cv (FragEq col i j) =
     (case (arg args i, Option.bind (arg args j) (pg_jsonb E)) of
        (Some k, Some v) \<Rightarrow> jcontains (cv col) (JObj [(k, v)])
      | _ \<Rightarrow> False)"
| "frag_eval E args cv (FragContains col i j) =
     (case (arg args i, Option.bind (arg args j) (pg_jsonb E)) of
        (Some k, Some v) \<Rightarrow> (case jget (cv col) k of None \<Rightarrow> False | Some x \<Rightarrow> jcontains x v)
      | _ \<Rightarrow> False)"
| "frag_eval E args cv (FragJoin sep fs) =
     (if sep = '' OR '' then list_ex (frag_eval E args cv) fs else list_all (frag_eval E args cv) fs)"

text \<open>The fragment as part of a statement: an error at bind time, or a predicate on rows.\<close>

definition auth_where :: "env \<Rightarrow> string list \<Rightarrow> frag \<Rightarrow> string + ((string \<Rightarrow> json) \<Rightarrow> bool)" where
  "auth_where E args fr =
     (if frag_binds E args fr then Inr (\<lambda>cv. frag_eval E args cv fr)
      else Inl ''invalid input syntax for type json'')"

section \<open>Meaning of filters\<close>

fun auth_wf :: "auth_filter \<Rightarrow> bool" where
  "auth_wf NilFilter = False"
| "auth_wf UnsetFilter = False"
| "auth_wf (EqFilter key mtch) = (key \<noteq> [])"
| "auth_wf (ContainsFilter key matches) = (key \<noteq> [] \<and> length matches = 1)"
| "auth_wf (OrFilter fs) = (fs \<noteq> [] \<and> list_all auth_wf fs)"
| "auth_wf (AndFilter fs) = (fs \<noteq> [] \<and> list_all auth_wf fs)"

fun auth_json_ok :: "env \<Rightarrow> auth_filter \<Rightarrow> bool" where
  "auth_json_ok E (EqFilter key mtch) = (pg_jsonb E mtch \<noteq> None)"
| "auth_json_ok E (ContainsFilter key matches) = list_all (\<lambda>m. pg_jsonb E m \<noteq> None) matches"
| "auth_json_ok E (OrFilter fs) = list_all (auth_json_ok E) fs"
| "auth_json_ok E (AndFilter fs) = list_all (auth_json_ok E) fs"
| "auth_json_ok E _ = True"

fun auth_sem :: "env \<Rightarrow> json \<Rightarrow> auth_filter \<Rightarrow> bool" where
  "auth_sem E meta (EqFilter key mtch) =
     (case pg_jsonb E mtch of None \<Rightarrow> False | Some v \<Rightarrow> jcontains meta (JObj [(key, v)]))"
| "auth_sem E meta (ContainsFilter key matches) =
     list_all (\<lambda>m. case (jget meta key, pg_jsonb E m) of (Some x, Some v) \<Rightarrow> jcontains x v | _ \<Rightarrow> False) matches"
| "auth_sem E meta (OrFilter fs) = list_ex (auth_sem E meta) fs"
| "auth_sem E meta (AndFilter fs) = list_all (auth_sem E meta) fs"
| "auth_sem E meta _ = False"

text \<open>A row is visible to a request when every top-level filter holds of its metadata.\<close>

definition visible :: "env \<Rightarrow> auth_filter list \<Rightarrow> json \<Rightarrow> bool" where
  "visible E filters meta = list_all (auth_sem E meta) filters"

text \<open>The placeholders of a fragment, in the order they are printed.\<close>

fun placeholders :: "frag \<Rightarrow> nat list" where
  "placeholders FragNone = []"
| "placeholders (FragEq col i j) = [i, j]"
| "placeholders (FragContains col i j) = [i, j]"
| "placeholders (FragJoin sep fs) = concat (map placeholders fs)"

text \<open>Two filters of the same shape: the same tree, whatever its keys and values are.\<close>

fun same_shape :: "auth_filter \<Rightarrow> auth_filter \<Rightarrow> bool" where
  "same_shape (EqFilter _ _) (EqFilter _ _) = True"
| "same_shape (ContainsFilter _ _) (ContainsFilter _ _) = True"
| "same_shape (OrFilter fs) (OrFilter gs) = list_all2 same_shape fs gs"
| "same_shape (AndFilter fs) (AndFilter gs) = list_all2 same_shape fs gs"
| "same_shape _ _ = False"

section \<open>Lemmas\<close>

lemma emit_isl:
  "isl (emit f col idx) \<longleftrightarrow> \<not> auth_wf f"
  "isl (emit_all fs col idx) \<longleftrightarrow> \<not> list_all auth_wf fs"
proof (induction f col idx and fs col idx rule: emit_emit_all.induct)
  case (5 fs col idx)
  then show ?case by (cases "emit_all fs col idx") (auto simp: case_prod_beta)
next
  case (6 fs col idx)
  then show ?case by (cases "emit_all fs col idx") (auto simp: case_prod_beta)
next
  case (8 f fs col idx)
  show ?case
  proof (cases "emit f col idx")
    case (Inl e)
    with 8(1) show ?thesis by simp
  next
    case (Inr r)
    obtain p a i where r: "r = (p, a, i)" by (cases r)
    from 8(1) Inr have "auth_wf f" by simp
    with Inr r 8(2)[of i] show ?thesis
      by (cases "emit_all fs col i") (auto simp: case_prod_beta)
  qed
qed auto

lemma emit_placeholders:
  "emit f col idx = Inr (fr, args, idx') \<Longrightarrow>
     idx' = idx + length args \<and> placeholders fr = [idx..<idx']"
  "emit_all fs col idx = Inr (frs, args', idx'') \<Longrightarrow>
     idx'' = idx + length args' \<and> concat (map placeholders frs) = [idx..<idx'']"
proof (induction f col idx and fs col idx arbitrary: fr args idx' and frs args' idx''
    rule: emit_emit_all.induct)
  case (8 f fs col idx)
  from 8(3) obtain p a i ps a' where
      e: "emit f col idx = Inr (p, a, i)" and
      es: "emit_all fs col i = Inr (ps, a', idx'')" and
      eqs: "frs = p # ps" "args' = a @ a'"
    by (auto simp: res_iff)
  from 8(1)[OF e] have 1: "i = idx + length a" "placeholders p = [idx..<i]" by auto
  from 8(2)[OF es] have 2: "idx'' = i + length a'" "concat (map placeholders ps) = [i..<idx'']"
    by auto
  have "[idx..<i] @ [i..<idx''] = [idx..<idx'']"
    using 1(1) 2(1) by (simp add: upt_add_eq_append[symmetric])
  with 1 2 eqs show ?case by simp
qed (auto simp: res_iff split: if_splits)

lemma arg_append [simp]:
  "arg (pre @ x # xs) (Suc (length pre)) = Some x"
  "arg (pre @ x # y # xs) (Suc (Suc (length pre))) = Some y"
  by (simp_all add: arg_def nth_append)

text \<open>Emission and evaluation meet: the arguments sit right after the \<open>pre\<close> bound before them.\<close>

lemma emit_eval:
  "emit f col idx = Inr (fr, args, idx') \<Longrightarrow> idx = Suc (length pre) \<Longrightarrow>
     frag_binds E (pre @ args @ post) fr = auth_json_ok E f \<and>
     frag_eval E (pre @ args @ post) cv fr = auth_sem E (cv col) f"
  "emit_all fs col idx = Inr (frs, args', idx'') \<Longrightarrow> idx = Suc (length pre) \<Longrightarrow>
     list_all (frag_binds E (pre @ args' @ post)) frs = list_all (auth_json_ok E) fs \<and>
     list_all (frag_eval E (pre @ args' @ post) cv) frs = list_all (auth_sem E (cv col)) fs \<and>
     list_ex (frag_eval E (pre @ args' @ post) cv) frs = list_ex (auth_sem E (cv col)) fs"
proof (induction f col idx and fs col idx arbitrary: fr args idx' pre post and frs args' idx'' pre post
    rule: emit_emit_all.induct)
  case (8 f fs col idx)
  from 8(3) obtain p a i ps a' where
      e: "emit f col idx = Inr (p, a, i)" and
      es: "emit_all fs col i = Inr (ps, a', idx'')" and
      eqs: "frs = p # ps" "args' = a @ a'"
    by (auto simp: res_iff)
  have "i = Suc (length (pre @ a))"
    using emit_placeholders(1)[OF e] 8(4) by simp
  from 8(2)[OF es this] 8(1)[OF e 8(4), of "a' @ post"] eqs show ?case
    by simp
next
  case (4 key matches col idx)
  then obtain m where "matches = [m]" "key \<noteq> []"
    by (auto simp: length_Suc_conv split: if_splits)
  with 4 show ?case
    by (auto split: option.splits)
qed (auto simp: res_iff split: if_splits option.splits)

lemma emit_all_length: "emit_all fs col idx = Inr (frs, args, idx') \<Longrightarrow> length frs = length fs"
  by (induction fs arbitrary: idx frs args idx') (auto simp: res_iff)

lemma ApplyToQuery_isl: "isl (ApplyToQuery fs col idx) \<longleftrightarrow> \<not> list_all auth_wf fs"
proof -
  have "isl (ApplyToQuery fs col idx) \<longleftrightarrow> isl (emit_all fs col idx)"
    by (cases "emit_all fs col idx") (auto simp: ApplyToQuery_def case_prod_beta)
  then show ?thesis
    by (simp add: emit_isl(2))
qed

lemma ApplyToQuery_eval:
  assumes "ApplyToQuery fs col (Suc (length pre)) = Inr (fr, args)"
  shows "frag_binds E (pre @ args @ post) fr = list_all (auth_json_ok E) fs"
    and "frag_eval E (pre @ args @ post) cv fr = visible E fs (cv col)"
proof -
  have "frag_binds E (pre @ args @ post) fr = list_all (auth_json_ok E) fs \<and>
        frag_eval E (pre @ args @ post) cv fr = visible E fs (cv col)"
  proof (cases "fs = []")
    case True
    with assms show ?thesis by (simp add: ApplyToQuery_def visible_def)
  next
    case False
    with assms obtain parts idx' where
        e: "emit_all fs col (Suc (length pre)) = Inr (parts, args, idx')" and
        fr: "fr = (if length parts = 1 then parts ! 0 else FragJoin '' AND '' parts)"
      by (auto simp: ApplyToQuery_def res_iff split: if_splits)
    from emit_eval(2)[OF e refl] fr show ?thesis
      by (auto simp: visible_def length_Suc_conv)
  qed
  then show "frag_binds E (pre @ args @ post) fr = list_all (auth_json_ok E) fs"
    and "frag_eval E (pre @ args @ post) cv fr = visible E fs (cv col)"
    by auto
qed

lemma auth_where_Inr [res_iff]:
  "auth_where E args fr = Inr p \<longleftrightarrow> frag_binds E args fr \<and> p = (\<lambda>cv. frag_eval E args cv fr)"
  by (auto simp: auth_where_def)

text \<open>The form the stores use: the filters start right after the \<open>pre\<close> arguments.\<close>

lemma auth_where_visible:
  assumes "ApplyToQuery fs col (Suc (length pre)) = Inr (fr, args)"
    and "auth_where E (pre @ args) fr = Inr ok"
  shows "ok cv = visible E fs (cv col)"
  using ApplyToQuery_eval(2)[OF assms(1), where post = "[]"] assms(2) by (auto simp: res_iff)

text \<open>Filters a statement accepts, and what they then select: the total form of the same fact.\<close>

definition auth_ok :: "env \<Rightarrow> auth_filter list \<Rightarrow> bool" where
  "auth_ok E fs = (list_all auth_wf fs \<and> list_all (auth_json_ok E) fs)"

lemma auth_obtain:
  assumes "auth_ok E fs"
  obtains fr args ok where "ApplyToQuery fs col (Suc (length pre)) = Inr (fr, args)"
    and "auth_where E (pre @ args) fr = Inr ok" and "\<And>cv. ok cv = visible E fs (cv col)"
proof -
  obtain fr args where q: "ApplyToQuery fs col (Suc (length pre)) = Inr (fr, args)"
    using ApplyToQuery_isl[of fs col "Suc (length pre)"] assms
    by (cases "ApplyToQuery fs col (Suc (length pre))") (auto simp: auth_ok_def)
  moreover obtain ok where w: "auth_where E (pre @ args) fr = Inr ok"
    using ApplyToQuery_eval(1)[OF q, of E "[]"] assms by (auto simp: auth_where_def auth_ok_def)
  ultimately show thesis
    using auth_where_visible[OF q w] that by blast
qed

lemma render_same_shape:
  "emit f col idx = Inr (fr, args, i) \<Longrightarrow> emit g col idx = Inr (fr', args', i') \<Longrightarrow> same_shape f g \<Longrightarrow>
     render fr = render fr' \<and> i = i'"
  "emit_all fs col idx = Inr (frs, args, i) \<Longrightarrow> emit_all gs col idx = Inr (frs', args', i') \<Longrightarrow>
     list_all2 same_shape fs gs \<Longrightarrow> map render frs = map render frs' \<and> i = i'"
proof (induction f col idx and fs col idx arbitrary: g fr args i fr' args' i' and gs frs args i frs' args' i'
    rule: emit_emit_all.induct)
  case (8 f fs col idx)
  from 8(5) obtain g gs' where gs: "gs = g # gs'" and sh: "same_shape f g" "list_all2 same_shape fs gs'"
    by (auto simp: list_all2_Cons1)
  from 8(3) obtain p a j ps b where
      e: "emit f col idx = Inr (p, a, j)" "emit_all fs col j = Inr (ps, b, i)" "frs = p # ps"
    by (auto simp: res_iff)
  from 8(4) gs obtain p' a' j' ps' b' where
      e': "emit g col idx = Inr (p', a', j')" "emit_all gs' col j' = Inr (ps', b', i')" "frs' = p' # ps'"
    by (auto simp: res_iff)
  from 8(1)[OF e(1) e'(1) sh(1)] have 1: "render p = render p'" "j = j'" by auto
  from 8(2)[OF e(2) e'(2)[folded 1(2)] sh(2)] 1 e(3) e'(3) show ?case by simp
next
  case (3 key mtch col idx)
  then show ?case by (cases g) (auto split: if_splits)
next
  case (4 key matches col idx)
  then show ?case by (cases g) (auto split: if_splits)
next
  case (5 fs col idx)
  then show ?case by (cases g) (fastforce simp: res_iff split: if_splits)+
next
  case (6 fs col idx)
  then show ?case by (cases g) (fastforce simp: res_iff split: if_splits)+
qed auto

lemma ValidateKey_Inr [res_iff]: "ValidateKey k = Inr () \<longleftrightarrow> k \<noteq> [] \<and> list_all key_char k"
  by (simp add: ValidateKey_def)

lemma key_char_no_colon: "key_char c \<Longrightarrow> c \<noteq> CHR '':''"
  by (auto simp: key_char_def Let_def)

section \<open>What the filters promise\<close>

text \<open>A filter binds at least one argument, and the only errors of its compilation are its own.\<close>

lemma emit_args:
  "emit f col idx = Inr (fr, args, n) \<Longrightarrow> args \<noteq> []"
  "emit_all fs col idx = Inr (frs, args, n) \<Longrightarrow> fs \<noteq> [] \<Longrightarrow> args \<noteq> []"
proof (induction f col idx and fs col idx arbitrary: fr args n and frs args n rule: emit_emit_all.induct)
  case (8 f fs col idx)
  from 8(3) obtain p a i where "emit f col idx = Inr (p, a, i)" "\<exists>b. args = a @ b" by (auto simp: res_iff)
  with 8(1) show ?case by auto
qed (auto simp: res_iff split: if_splits)

lemma ApplyToQuery_args: "ApplyToQuery fs col idx = Inr (fr, args) \<Longrightarrow> fs \<noteq> [] \<Longrightarrow> args \<noteq> []"
  by (auto simp: ApplyToQuery_def res_iff split: if_splits dest: emit_args(2))

lemma emit_error:
  "emit f col idx = Inl e \<Longrightarrow> \<exists>s. e = AuthErr s"
  "emit_all fs col idx = Inl e \<Longrightarrow> \<exists>s. e = AuthErr s"
  by (induction f col idx and fs col idx rule: emit_emit_all.induct) (auto simp: res_iff split: if_splits)

lemma ApplyToQuery_error: "ApplyToQuery fs col idx = Inl e \<Longrightarrow> \<exists>s. e = AuthErr s"
  by (auto simp: ApplyToQuery_def res_iff split: if_splits dest: emit_error(2))

lemma ApplyToQuery_placeholders:
  assumes "ApplyToQuery fs col idx = Inr (fr, args)"
  shows "placeholders fr = [idx..<idx + length args]"
proof (cases "fs = []")
  case True
  with assms show ?thesis by (simp add: ApplyToQuery_def)
next
  case False
  with assms obtain parts idx' where
      e: "emit_all fs col idx = Inr (parts, args, idx')" and
      fr: "fr = (if length parts = 1 then parts ! 0 else FragJoin '' AND '' parts)"
    by (auto simp: ApplyToQuery_def res_iff split: if_splits)
  from emit_placeholders(2)[OF e] fr show ?thesis
    by (auto simp: length_Suc_conv)
qed

text \<open>
  (C1) The SQL a set of filters is compiled to means what the filters mean. Bound behind any arguments
  \<open>pre\<close> of the statement, the fragment of \<^verbatim>\<open>ApplyToQuery\<close> selects exactly the rows whose metadata every filter
  accepts (\<open>visible\<close>), provided the match values are JSON; otherwise the statement fails and selects nothing.
\<close>

theorem filters_select_visible:
  assumes "ApplyToQuery fs col (Suc (length pre)) = Inr (fr, args)"
  shows "if list_all (auth_json_ok E) fs
         then \<exists>ok. auth_where E (pre @ args) fr = Inr ok \<and> (\<forall>cv. ok cv = visible E fs (cv col))
         else isl (auth_where E (pre @ args) fr)"
  using ApplyToQuery_eval[OF assms, where post = "[]" and E = E] by (auto simp: auth_where_def)

text \<open>
  \<^verbatim>\<open>ApplyToQuery\<close> fails closed: it is an error exactly if some filter in the tree is nil, of no known kind, has an empty
  key, has not exactly one match value, or is an empty disjunction or conjunction. No such filter is ignored.
\<close>

theorem filters_fail_closed: "isl (ApplyToQuery fs col idx) \<longleftrightarrow> \<not> list_all auth_wf fs"
  by (rule ApplyToQuery_isl)

text \<open>
  (C12) No injection: the text of the fragment depends on the shape of the filters alone, never on a key
  or a value of the request, and its placeholders are numbered consecutively from the given index, one per bound argument.
\<close>

theorem filters_no_injection:
  assumes "ApplyToQuery fs col idx = Inr (fr, args)" and "ApplyToQuery gs col idx = Inr (fr', args')"
    and "list_all2 same_shape fs gs"
  shows "render fr = render fr' \<and> placeholders fr = [idx..<idx + length args] \<and> length args = length args'"
proof -
  have "render fr = render fr' \<and> length args = length args'"
  proof (cases "fs = []")
    case True
    with assms show ?thesis by (simp add: ApplyToQuery_def)
  next
    case False
    with assms(3) have "gs \<noteq> []" by auto
    with False assms(1,2) obtain ps i ps' i' where
        e: "emit_all fs col idx = Inr (ps, args, i)" "emit_all gs col idx = Inr (ps', args', i')" and
        fr: "fr = (if length ps = 1 then ps ! 0 else FragJoin '' AND '' ps)"
            "fr' = (if length ps' = 1 then ps' ! 0 else FragJoin '' AND '' ps')"
      by (auto simp: ApplyToQuery_def res_iff split: if_splits)
    have same: "map render ps = map render ps'" "i = i'"
      using render_same_shape(2)[OF e assms(3)] by auto
    have "length args = length args'"
      using same(2) emit_placeholders(2)[OF e(1)] emit_placeholders(2)[OF e(2)] by simp
    moreover have "length ps = length ps'"
      using same(1) by (metis length_map)
    ultimately show ?thesis
      using fr same(1) by (auto simp: length_Suc_conv)
  qed
  with ApplyToQuery_placeholders[OF assms(1)] show ?thesis by simp
qed

text \<open>Both at a filter pair of the same shape with different keys and values.\<close>

definition eq_owner :: "string \<Rightarrow> auth_filter list" where
  "eq_owner v = [EqFilter ''owner'' v, OrFilter [ContainsFilter ''team'' [v]]]"

lemma eq_owner_compiled:
  "ApplyToQuery (eq_owner v) ''metadata'' (Suc (length [''r1''])) = Inr
     (FragJoin '' AND '' [FragEq ''metadata'' 2 3, FragJoin '' OR '' [FragContains ''metadata'' 4 5]],
      [''owner'', v, ''team'', v])"
  by (simp add: ApplyToQuery_def eq_owner_def)

theorem filters_select_visible_witness:
  "\<exists>E. list_all (auth_json_ok E) (eq_owner ''1'') \<and>
     (\<exists>ok. auth_where E [''r1'', ''owner'', ''1'', ''team'', ''1'']
        (FragJoin '' AND '' [FragEq ''metadata'' 2 3, FragJoin '' OR '' [FragContains ''metadata'' 4 5]]) = Inr ok \<and>
      (\<forall>cv. ok cv = visible E (eq_owner ''1'') (cv ''metadata'')))"
proof -
  define E where "E = \<lparr>pg_uuid = Some, go_uuid = Some, pg_jsonb = (\<lambda>s. Some (JStr s)), pg_text = (\<lambda>j. []),
    go_json = (\<lambda>s. None), go_marshal = (\<lambda>j. [])\<rparr>"
  have "list_all (auth_json_ok E) (eq_owner ''1'')"
    by (simp add: E_def eq_owner_def)
  with filters_select_visible[OF eq_owner_compiled[of "''1''"], of E] show ?thesis
    by (auto intro!: exI[of _ E])
qed

theorem filters_no_injection_witness:
  "render (FragJoin '' AND '' [FragEq ''metadata'' 2 3, FragJoin '' OR '' [FragContains ''metadata'' 4 5]]) =
   render (fst (projr (ApplyToQuery (eq_owner ''x') OR 1=1 --'') ''metadata'' 2)))"
  using filters_no_injection[OF eq_owner_compiled[of "''1''", simplified] eq_owner_compiled[of "''x') OR 1=1 --''", simplified]]
  by (simp add: ApplyToQuery_def eq_owner_def)

end
