(* ===== verification/Db.thy ===== *)
theory Db
  imports Auth_Filter
begin

text \<open>
  The state the services share: the PostgreSQL tables (one record per row, columns as in
  \<^verbatim>\<open>internal/db/migrations\<close>), the clock of the database, and the commands sent to Redis, in order.
  An operation (\<open>'a op\<close>) is a function on this state that returns a value or an error.

  Each \<^verbatim>\<open>pool.Query\<close>, \<^verbatim>\<open>pool.Exec\<close>, \<^verbatim>\<open>Begin\<close> and \<^verbatim>\<open>Commit\<close> is one fault point: \<open>faults\<close> is the
  schedule of connection failures (\<open>Some e\<close>: this call fails), so a theorem that quantifies over
  it covers every point at which the database can go away. A statement is atomic; a transaction
  (\<open>in_tx\<close>) restores the tables unless its \<^verbatim>\<open>Commit\<close> succeeds. Rows a statement touches under
  \<^verbatim>\<open>ON DELETE CASCADE\<close> are removed with it. Times are microseconds.
\<close>

section \<open>Rows and tables\<close>

record run_row =
  r_run_id :: uuid
  r_thread_id :: uuid
  r_assistant_id :: uuid
  r_status :: string
  r_kwargs :: json
  r_multitask_strategy :: string
  r_created_at :: int
  r_updated_at :: int
  r_metadata :: json
  r_lease_holder_id :: "string option"
  r_lease_expires_at :: "int option"
  r_lease_generation :: int
  r_cancel_requested_at :: "int option"
  r_run_after :: "int option"
  r_attempt :: int
  r_encryption_context :: "json option"

record thread_row =
  t_thread_id :: uuid
  t_status :: string
  t_created_at :: int
  t_updated_at :: int
  t_expires_at :: "int option"
  t_state_updated_at :: "int option"
  t_metadata :: json
  t_config :: json
  t_values :: "json option"
  t_interrupts :: json

record assistant_row =
  a_assistant_id :: uuid
  a_graph_id :: string
  a_version :: int
  a_created_at :: int
  a_updated_at :: int
  a_config :: json
  a_context :: json
  a_metadata :: json
  a_name :: "string option"
  a_description :: "string option"

record version_row =
  v_assistant_id :: uuid
  v_version :: int
  v_graph_id :: string
  v_name :: "string option"
  v_created_at :: int
  v_config :: json
  v_context :: json
  v_metadata :: json
  v_description :: "string option"

record checkpoint_row =
  c_thread_id :: uuid
  c_ns :: string
  c_id :: uuid
  c_run_id :: "uuid option"
  c_parent_id :: "uuid option"
  c_checkpoint :: json
  c_metadata :: json

record write_row =
  w_thread_id :: uuid
  w_ns :: string
  w_checkpoint_id :: uuid
  w_task_id :: uuid
  w_idx :: int
  w_channel :: string
  w_type :: string
  w_blob :: string
  w_task_path :: string

record blob_row =
  b_thread_id :: uuid
  b_ns :: string
  b_channel :: string
  b_version :: string
  b_type :: string
  b_blob :: "string option"

record cron_row =
  k_cron_id :: uuid
  k_thread_id :: "uuid option"
  k_user_id :: "string option"
  k_assistant_id :: uuid
  k_schedule :: string
  k_next_run_date :: "int option"
  k_end_time :: "int option"
  k_payload :: json
  k_metadata :: json
  k_created_at :: int
  k_updated_at :: int
  k_enabled :: bool
  k_timezone :: string
  k_on_run_completed :: "string option"
  k_encryption_context :: "json option"

record db =
  runs :: "run_row list"
  threads :: "thread_row list"
  assistants :: "assistant_row list"
  versions :: "version_row list"
  checkpoints :: "checkpoint_row list"
  writes :: "write_row list"
  blobs :: "blob_row list"
  crons :: "cron_row list"

text \<open>Commands sent to Redis. A \<^verbatim>\<open>Set\<close> carries its expiry in seconds.\<close>

datatype redis_cmd =
    RPush string string
  | SetKey string string nat
  | PublishMsg string string
  | XAddEntry string "(string \<times> string) list" int

record world =
  db :: db
  now :: int
  faults :: "string option list"
  redis :: "redis_cmd list"

definition second :: int where
  "second = 1000000"

section \<open>Operations\<close>

type_synonym 'a op = "world \<Rightarrow> (err + 'a) \<times> world"

definition ret :: "'a \<Rightarrow> 'a op" where
  "ret x w = (Inr x, w)"

definition throw :: "err \<Rightarrow> 'a op" where
  "throw e w = (Inl e, w)"

definition bnd :: "'a op \<Rightarrow> ('a \<Rightarrow> 'b op) \<Rightarrow> 'b op" where
  "bnd m k w = (case m w of (Inl e, w') \<Rightarrow> (Inl e, w') | (Inr x, w') \<Rightarrow> k x w')"

definition lift :: "err + 'a \<Rightarrow> 'a op" where
  "lift r w = (r, w)"

text \<open>\<^verbatim>\<open>if err := m(); ... \<close> with both outcomes handled by the caller.\<close>

definition attempt :: "'a op \<Rightarrow> (err + 'a) op" where
  "attempt m w = (case m w of (r, w') \<Rightarrow> (Inr r, w'))"

definition tick :: "world \<Rightarrow> string option \<times> world" where
  "tick w = (case faults w of [] \<Rightarrow> (None, w) | f # fs \<Rightarrow> (f, w\<lparr>faults := fs\<rparr>))"

definition stmt :: "(int \<Rightarrow> db \<Rightarrow> string + 'a \<times> db) \<Rightarrow> 'a op" where
  "stmt f w =
     (case tick w of
        (Some e, w') \<Rightarrow> (Inl (DbErr e), w')
      | (None, w') \<Rightarrow>
          (case f (now w') (db w') of
             Inl e \<Rightarrow> (Inl (DbErr e), w')
           | Inr (x, d) \<Rightarrow> (Inr x, w'\<lparr>db := d\<rparr>)))"

text \<open>A read-only statement.\<close>

definition query :: "(int \<Rightarrow> db \<Rightarrow> string + 'a) \<Rightarrow> 'a op" where
  "query f = stmt (\<lambda>t d. rb (f t d) (\<lambda>x. Inr (x, d)))"

text \<open>How the body of a transaction ends: committed, committed with the error of \<^verbatim>\<open>Commit\<close> ignored,
  or returned from with the deferred \<^verbatim>\<open>Rollback\<close>.\<close>

datatype 'a txend = Commit 'a | CommitIgn 'a | Abort 'a

definition in_tx :: "'a txend op \<Rightarrow> 'a op" where
  "in_tx m w =
     (case tick w of
        (Some e, w0) \<Rightarrow> (Inl (DbErr e), w0)
      | (None, w0) \<Rightarrow>
          (case m w0 of
             (Inl e, w1) \<Rightarrow> (Inl e, w1\<lparr>db := db w0\<rparr>)
           | (Inr (Abort x), w1) \<Rightarrow> (Inr x, w1\<lparr>db := db w0\<rparr>)
           | (Inr (Commit x), w1) \<Rightarrow>
               (case tick w1 of
                  (Some e, w2) \<Rightarrow> (Inl (DbErr e), w2\<lparr>db := db w0\<rparr>)
                | (None, w2) \<Rightarrow> (Inr x, w2))
           | (Inr (CommitIgn x), w1) \<Rightarrow>
               (case tick w1 of
                  (Some e, w2) \<Rightarrow> (Inr x, w2\<lparr>db := db w0\<rparr>)
                | (None, w2) \<Rightarrow> (Inr x, w2))))"

definition send :: "redis_cmd \<Rightarrow> unit op" where
  "send c w = (Inr (), w\<lparr>redis := redis w @ [c]\<rparr>)"

fun send_all :: "redis_cmd list \<Rightarrow> unit op" where
  "send_all [] = ret ()"
| "send_all (c # cs) = bnd (send c) (\<lambda>_. send_all cs)"

text \<open>\<^verbatim>\<open>QueryRow(...).Scan\<close>: the first row, \<^verbatim>\<open>pgx.ErrNoRows\<close> mapped to \<open>e\<close>.\<close>

definition first_row :: "err \<Rightarrow> 'a list \<Rightarrow> 'a op" where
  "first_row e xs = (case xs of [] \<Rightarrow> throw e | x # _ \<Rightarrow> ret x)"

section \<open>Deletion with cascades\<close>

definition del_runs :: "(run_row \<Rightarrow> bool) \<Rightarrow> db \<Rightarrow> db" where
  "del_runs P d =
     (let gone = map r_run_id (filter P (runs d))
      in d\<lparr>runs := filter (\<lambda>r. \<not> P r) (runs d),
           checkpoints := filter (\<lambda>c. \<forall>i \<in> set_option (c_run_id c). i \<notin> set gone) (checkpoints d)\<rparr>)"

definition del_threads :: "(thread_row \<Rightarrow> bool) \<Rightarrow> db \<Rightarrow> db" where
  "del_threads P d =
     (let gone = map t_thread_id (filter P (threads d));
          d1 = del_runs (\<lambda>r. r_thread_id r \<in> set gone) d
      in d1\<lparr>threads := filter (\<lambda>t. \<not> P t) (threads d),
            checkpoints := filter (\<lambda>c. c_thread_id c \<notin> set gone) (checkpoints d1),
            writes := filter (\<lambda>x. w_thread_id x \<notin> set gone) (writes d),
            blobs := filter (\<lambda>x. b_thread_id x \<notin> set gone) (blobs d)\<rparr>)"

section \<open>Integrity of the schema\<close>

text \<open>Primary and foreign keys of \<^verbatim>\<open>0000003_python_baseline.up.sql\<close> and \<^verbatim>\<open>0000004_cron_baseline.up.sql\<close>.\<close>

definition keys_ok :: "db \<Rightarrow> bool" where
  "keys_ok d =
     (distinct (map r_run_id (runs d)) \<and> distinct (map t_thread_id (threads d)) \<and>
      distinct (map a_assistant_id (assistants d)))"

definition refs_ok :: "db \<Rightarrow> bool" where
  "refs_ok d =
     ((\<forall>r \<in> set (runs d). r_thread_id r \<in> t_thread_id ` set (threads d) \<and>
                          r_assistant_id r \<in> a_assistant_id ` set (assistants d)) \<and>
      (\<forall>c \<in> set (checkpoints d). c_thread_id c \<in> t_thread_id ` set (threads d) \<and>
         (\<forall>i \<in> set_option (c_run_id c). i \<in> r_run_id ` set (runs d))) \<and>
      (\<forall>x \<in> set (writes d). w_thread_id x \<in> t_thread_id ` set (threads d)) \<and>
      (\<forall>x \<in> set (blobs d). b_thread_id x \<in> t_thread_id ` set (threads d)) \<and>
      (\<forall>k \<in> set (crons d). k_assistant_id k \<in> a_assistant_id ` set (assistants d)))"

definition db_ok :: "db \<Rightarrow> bool" where
  "db_ok d = (keys_ok d \<and> refs_ok d)"

section \<open>Lemmas\<close>

lemma bnd_ret [simp]: "bnd (ret x) k = k x"
  by (simp add: bnd_def ret_def fun_eq_iff)

lemma bnd_throw [simp]: "bnd (throw e) k = throw e"
  by (simp add: bnd_def throw_def fun_eq_iff)

lemma lift_simps [simp]: "lift (Inl e) = throw e" "lift (Inr x) = ret x"
  by (simp_all add: lift_def throw_def ret_def fun_eq_iff)

lemma ret_Inr [res_iff]: "ret x w = (Inr y, w') \<longleftrightarrow> y = x \<and> w' = w"
  by (auto simp: ret_def)

lemma throw_Inr [res_iff]: "throw e w = (Inr y, w') \<longleftrightarrow> False"
  by (simp add: throw_def)

lemma lift_Inr [res_iff]: "lift r w = (Inr y, w') \<longleftrightarrow> r = Inr y \<and> w' = w"
  by (auto simp: lift_def)

lemma bnd_Inr [res_iff]:
  "bnd m k w = (Inr y, w') \<longleftrightarrow> (\<exists>x w1. m w = (Inr x, w1) \<and> k x w1 = (Inr y, w'))"
  by (auto simp: bnd_def split: prod.splits sum.splits)

lemma bnd_Inl [res_iff]:
  "bnd m k w = (Inl e, w') \<longleftrightarrow>
     m w = (Inl e, w') \<or> (\<exists>x w1. m w = (Inr x, w1) \<and> k x w1 = (Inl e, w'))"
  by (auto simp: bnd_def split: prod.splits sum.splits)

lemma first_row_Inr [res_iff]:
  "first_row e xs w = (Inr x, w') \<longleftrightarrow> w' = w \<and> (\<exists>ys. xs = x # ys)"
  by (auto simp: first_row_def ret_def throw_def split: list.splits)

text \<open>What a call leaves behind besides the tables: one fault point is used up.\<close>

definition after :: "world \<Rightarrow> world" where
  "after w = snd (tick w)"

lemma after_simps [simp]: "db (after w) = db w" "now (after w) = now w" "redis (after w) = redis w"
  by (simp_all add: after_def tick_def split: list.splits)

lemma after_upd [simp]: "after (w\<lparr>db := d\<rparr>) = (after w)\<lparr>db := d\<rparr>"
  by (simp add: after_def tick_def split: list.splits)

lemma after_no_faults [simp]: "faults w = [] \<Longrightarrow> after w = w"
  by (simp add: after_def tick_def)

lemma tick_after: "tick w = (fst (tick w), after w)"
  by (simp add: after_def)

lemma tick_no_faults [simp]: "faults w = [] \<Longrightarrow> tick w = (None, w)"
  by (simp add: tick_def)

lemma tick_cases: "(case tick w of (x, w') \<Rightarrow> f x w') = f (fst (tick w)) (after w)"
  by (simp add: after_def case_prod_beta)

lemma stmt_alt:
  "stmt f w =
     (case fst (tick w) of
        Some e \<Rightarrow> (Inl (DbErr e), after w)
      | None \<Rightarrow> (case f (now w) (db w) of
           Inl e \<Rightarrow> (Inl (DbErr e), after w)
         | Inr (x, d) \<Rightarrow> (Inr x, (after w)\<lparr>db := d\<rparr>)))"
  by (simp add: stmt_def tick_cases cong: option.case_cong)

lemma in_tx_alt:
  "in_tx m w =
     (case fst (tick w) of
        Some e \<Rightarrow> (Inl (DbErr e), after w)
      | None \<Rightarrow>
          (case m (after w) of
             (Inl e, w1) \<Rightarrow> (Inl e, w1\<lparr>db := db w\<rparr>)
           | (Inr (Abort x), w1) \<Rightarrow> (Inr x, w1\<lparr>db := db w\<rparr>)
           | (Inr (Commit x), w1) \<Rightarrow>
               (case fst (tick w1) of
                  Some e \<Rightarrow> (Inl (DbErr e), (after w1)\<lparr>db := db w\<rparr>)
                | None \<Rightarrow> (Inr x, after w1))
           | (Inr (CommitIgn x), w1) \<Rightarrow>
               (case fst (tick w1) of
                  Some e \<Rightarrow> (Inr x, (after w1)\<lparr>db := db w\<rparr>)
                | None \<Rightarrow> (Inr x, after w1))))"
  by (simp add: in_tx_def tick_cases cong: option.case_cong prod.case_cong sum.case_cong txend.case_cong)

lemma stmt_Inr [res_iff]:
  "stmt f w = (Inr x, w') \<longleftrightarrow>
     (\<exists>d. fst (tick w) = None \<and> f (now w) (db w) = Inr (x, d) \<and> w' = (after w)\<lparr>db := d\<rparr>)"
  by (auto simp: stmt_alt split: option.splits sum.splits)

lemma stmt_Inl:
  "stmt f w = (Inl e, w') \<Longrightarrow> w' = after w \<and> (\<exists>s. e = DbErr s)"
  by (auto simp: stmt_alt split: option.splits sum.splits)

lemma stmt_run: "faults w = [] \<Longrightarrow>
  stmt f w = (case f (now w) (db w) of Inl e \<Rightarrow> (Inl (DbErr e), w) | Inr (x, d) \<Rightarrow> (Inr x, w\<lparr>db := d\<rparr>))"
  by (simp add: stmt_def)

lemma db_upd_same [simp]: "(after w)\<lparr>db := db w\<rparr> = after w"
  by (metis (no_types, lifting) after_simps(1) world.surjective world.update_convs(1) world.select_convs(1))

lemma query_Inr [res_iff]:
  "query f w = (Inr x, w') \<longleftrightarrow> fst (tick w) = None \<and> f (now w) (db w) = Inr x \<and> w' = after w"
  by (auto simp: query_def res_iff)

lemma query_Inl: "query f w = (Inl e, w') \<Longrightarrow> w' = after w \<and> (\<exists>s. e = DbErr s)"
  unfolding query_def by (rule stmt_Inl)

lemma query_alt:
  "query f w =
     (case fst (tick w) of
        Some e \<Rightarrow> (Inl (DbErr e), after w)
      | None \<Rightarrow> (case f (now w) (db w) of Inl e \<Rightarrow> (Inl (DbErr e), after w) | Inr x \<Rightarrow> (Inr x, after w)))"
  by (simp add: query_def stmt_alt rb_def split: option.splits sum.splits)

lemma query_run: "faults w = [] \<Longrightarrow>
  query f w = (case f (now w) (db w) of Inl e \<Rightarrow> (Inl (DbErr e), w) | Inr x \<Rightarrow> (Inr x, w))"
  by (simp add: query_def stmt_run rb_def split: sum.splits)

section \<open>Invariants of operations\<close>

text \<open>\<open>keeps I m\<close>: the operation keeps a property of the tables, whatever it returns and whatever fails.\<close>

definition keeps :: "(db \<Rightarrow> bool) \<Rightarrow> 'a op \<Rightarrow> bool" where
  "keeps I m = (\<forall>w. I (db w) \<longrightarrow> I (db (snd (m w))))"

lemma keepsI: "(\<And>w r w'. I (db w) \<Longrightarrow> m w = (r, w') \<Longrightarrow> I (db w')) \<Longrightarrow> keeps I m"
  by (metis keeps_def prod.collapse)

lemma keepsD: "keeps I m \<Longrightarrow> I (db w) \<Longrightarrow> m w = (r, w') \<Longrightarrow> I (db w')"
  by (auto simp: keeps_def dest: spec[of _ w])

lemma keeps_ret [intro!, keeps_intro]: "keeps I (ret x)"
  by (simp add: keeps_def ret_def)

lemma keeps_throw [intro!, keeps_intro]: "keeps I (throw e)"
  by (simp add: keeps_def throw_def)

lemma keeps_lift [intro!, keeps_intro]: "keeps I (lift r)"
  by (simp add: keeps_def lift_def)

lemma keeps_send [intro!, keeps_intro]: "keeps I (send c)"
  by (simp add: keeps_def send_def)

lemma keeps_first_row [intro!, keeps_intro]: "keeps I (first_row e xs)"
  by (simp add: first_row_def keeps_ret keeps_throw split: list.splits)

lemma keeps_bnd [intro!, keeps_intro]:
  assumes "keeps I m" and "\<And>x. keeps I (k x)"
  shows "keeps I (bnd m k)"
proof (rule keepsI)
  fix w r w' assume I: "I (db w)" and run: "bnd m k w = (r, w')"
  obtain r1 w1 where m: "m w = (r1, w1)" by fastforce
  have "I (db w1)" using keepsD[OF assms(1) I m] .
  with run m show "I (db w')"
    by (auto simp: bnd_def split: sum.splits dest: keepsD[OF assms(2)])
qed

lemma keeps_attempt [intro!, keeps_intro]: "keeps I m \<Longrightarrow> keeps I (attempt m)"
  by (simp add: keeps_def attempt_def case_prod_beta)

lemma keeps_stmt: "(\<And>t d x d'. I d \<Longrightarrow> f t d = Inr (x, d') \<Longrightarrow> I d') \<Longrightarrow> keeps I (stmt f)"
  by (auto simp: keeps_def stmt_alt split: option.splits sum.splits)

lemma keeps_query [intro!, keeps_intro]: "keeps I (query f)"
  unfolding query_def by (rule keeps_stmt) (auto simp: res_iff)

lemma keeps_in_tx [intro!, keeps_intro]:
  assumes "keeps I m" shows "keeps I (in_tx m)"
proof (rule keepsI)
  fix w r w' assume I: "I (db w)" and run: "in_tx m w = (r, w')"
  obtain r1 w1 where m: "m (after w) = (r1, w1)" by fastforce
  have "I (db w1)" using keepsD[OF assms _ m] I by simp
  with run m I show "I (db w')"
    by (auto simp: in_tx_alt split: option.splits sum.splits txend.splits)
qed

lemma keeps_send_all [intro!, keeps_intro]: "keeps I (send_all cs)"
  by (induction cs) (auto intro: keeps_bnd)

lemma keeps_if [intro!, keeps_intro]: "keeps I a \<Longrightarrow> keeps I b \<Longrightarrow> keeps I (if c then a else b)"
  by simp

lemma keeps_prod [intro!, keeps_intro]: "(\<And>a b. keeps I (f a b)) \<Longrightarrow> keeps I (case p of (a, b) \<Rightarrow> f a b)"
  by (cases p) simp

text \<open>A transaction that does not return normally leaves the tables as they were.\<close>

lemma in_tx_atomic: "in_tx m w = (Inl e, w') \<Longrightarrow> db w' = db w"
  by (auto simp: in_tx_alt split: option.splits prod.splits sum.splits txend.splits)

lemma in_tx_Inr [res_iff]:
  "in_tx m w = (Inr x, w') \<longleftrightarrow> fst (tick w) = None \<and>
     ((\<exists>w1. m (after w) = (Inr (Commit x), w1) \<and> fst (tick w1) = None \<and> w' = after w1) \<or>
      (\<exists>w1. m (after w) = (Inr (CommitIgn x), w1) \<and>
             w' = (if fst (tick w1) = None then after w1 else (after w1)\<lparr>db := db w\<rparr>)) \<or>
      (\<exists>w1. m (after w) = (Inr (Abort x), w1) \<and> w' = w1\<lparr>db := db w\<rparr>))"
  by (auto simp: in_tx_alt split: option.splits prod.splits sum.splits txend.splits)

lemma in_tx_run: "faults w = [] \<Longrightarrow>
  in_tx m w =
    (case m w of
       (Inl e, w1) \<Rightarrow> (Inl e, w1\<lparr>db := db w\<rparr>)
     | (Inr (Abort x), w1) \<Rightarrow> (Inr x, w1\<lparr>db := db w\<rparr>)
     | (Inr (Commit x), w1) \<Rightarrow>
         (case tick w1 of (Some e, w2) \<Rightarrow> (Inl (DbErr e), w2\<lparr>db := db w\<rparr>) | (None, w2) \<Rightarrow> (Inr x, w2))
     | (Inr (CommitIgn x), w1) \<Rightarrow>
         (case tick w1 of (Some e, w2) \<Rightarrow> (Inr x, w2\<lparr>db := db w\<rparr>) | (None, w2) \<Rightarrow> (Inr x, w2)))"
  by (simp add: in_tx_def)

lemma bnd_run: "m w = (Inr x, w1) \<Longrightarrow> bnd m k w = k x w1"
  by (simp add: bnd_def)

lemma redis_send_all: "send_all cs w = (Inr (), w\<lparr>redis := redis w @ cs\<rparr>)"
  by (induction cs arbitrary: w) (simp_all add: ret_def bnd_def send_def)

section \<open>Runs without faults\<close>

lemma stmt_faults: "faults w = [] \<Longrightarrow> faults (snd (stmt f w)) = []"
  by (simp add: stmt_run split: sum.splits)

text \<open>An operation that does not invent faults: without scheduled faults there are none afterwards.\<close>

definition calm :: "'a op \<Rightarrow> bool" where
  "calm m = (\<forall>w. faults w = [] \<longrightarrow> faults (snd (m w)) = [])"

lemma calm_bnd: "calm m \<Longrightarrow> (\<And>x. calm (k x)) \<Longrightarrow> calm (bnd m k)"
  by (simp add: calm_def bnd_def split: prod.splits sum.splits) (metis snd_conv)

lemma calm_basic: "calm (ret x)" "calm (throw e)" "calm (lift r)" "calm (stmt f)" "calm (query q)" "calm (first_row e xs)"
  by (auto simp: calm_def ret_def throw_def lift_def stmt_faults query_def first_row_def split: list.splits)

lemma calm_if: "calm a \<Longrightarrow> calm b \<Longrightarrow> calm (if c then a else b)"
  by simp

lemma calm_prod: "(\<And>a b. calm (f a b)) \<Longrightarrow> calm (case p of (a, b) \<Rightarrow> f a b)"
  by (cases p) simp

lemma calm_in_tx:
  assumes "calm m" shows "calm (in_tx m)"
  unfolding calm_def
proof (intro allI impI)
  fix w :: world assume w: "faults w = []"
  obtain r1 w1 where m: "m w = (r1, w1)" by fastforce
  have "faults w1 = []" using assms w m unfolding calm_def by (metis snd_conv)
  with w m show "faults (snd (in_tx m w)) = []"
    by (simp add: in_tx_run split: sum.splits txend.splits)
qed

lemmas calm_intro = calm_bnd calm_basic calm_if calm_prod calm_in_tx

end
