(* ===== verification/Runs_Store.thy ===== *)
theory Runs_Store
  imports Db
begin

text \<open>
  The run store (\<^verbatim>\<open>internal/runs/store.go\<close>): every method of \<^verbatim>\<open>Store\<close> on the \<^verbatim>\<open>run\<close> table, one
  definition each, with the SQL of the method as a function on the tables. Reads return the Go
  struct \<open>Run\<close>; the bytes of a \<^verbatim>\<open>jsonb\<close> column are represented by the JSON value itself.
\<close>

section \<open>Data\<close>

record Run =
  RunID :: uuid
  RunThreadID :: uuid
  RunAssistantID :: uuid
  RunStatus :: string
  RunKwargs :: json
  RunMultitaskStrategy :: string
  RunCreatedAt :: int
  RunUpdatedAt :: int
  RunMetadata :: json
  RunLeaseGeneration :: int
  RunRunAfter :: "int option"
  RunAttempt :: int
  RunEncryptionContext :: "json option"

definition scanRun :: "run_row \<Rightarrow> Run" where
  "scanRun r =
     \<lparr>RunID = r_run_id r, RunThreadID = r_thread_id r, RunAssistantID = r_assistant_id r,
      RunStatus = r_status r, RunKwargs = r_kwargs r, RunMultitaskStrategy = r_multitask_strategy r,
      RunCreatedAt = r_created_at r, RunUpdatedAt = r_updated_at r, RunMetadata = r_metadata r,
      RunLeaseGeneration = r_lease_generation r, RunRunAfter = r_run_after r, RunAttempt = r_attempt r,
      RunEncryptionContext = r_encryption_context r\<rparr>"

text \<open>\<^verbatim>\<open>NewStoreWithLeaseTTL\<close>: the lease duration, in seconds.\<close>

definition NewStoreWithLeaseTTL :: "int \<Rightarrow> int" where
  "NewStoreWithLeaseTTL leaseTTLSecs = (if leaseTTLSecs \<le> 0 then 30 else leaseTTLSecs)"

definition inflight :: "run_row \<Rightarrow> bool" where
  "inflight r = (r_status r = ''pending'' \<or> r_status r = ''running'')"

text \<open>\<^verbatim>\<open>run JOIN thread USING (thread_id)\<close>, and the \<^verbatim>\<open>jsonb\<close> columns of a joined row by name.\<close>

definition run_join_thread :: "db \<Rightarrow> (run_row \<times> thread_row) list" where
  "run_join_thread d =
     concat (map (\<lambda>r. map (\<lambda>t. (r, t)) (filter (\<lambda>t. t_thread_id t = r_thread_id r) (threads d))) (runs d))"

definition joined_cols :: "run_row \<Rightarrow> thread_row \<Rightarrow> string \<Rightarrow> json" where
  "joined_cols r t c = (if c = ''thread.metadata'' then t_metadata t
                        else if c = ''run.metadata'' then r_metadata r else JNull)"

section \<open>Reads\<close>

definition run_Get :: "env \<Rightarrow> string \<Rightarrow> string \<Rightarrow> auth_filter list \<Rightarrow> Run op" where
  "run_Get E runID threadID filters =
     (if threadID \<noteq> [] then
        bnd (lift (ApplyToQuery filters ''thread.metadata'' 3)) (\<lambda>(authSQL, args).
        bnd (query (\<lambda>_ d.
               rb (cast_uuid E runID) (\<lambda>rid. rb (cast_uuid E threadID) (\<lambda>tid.
               rb (auth_where E ([runID, threadID] @ args) authSQL) (\<lambda>ok.
               Inr (map (scanRun \<circ> fst) (filter (\<lambda>(r, t).
                 r_run_id r = rid \<and> r_thread_id r = tid \<and> ok (joined_cols r t)) (run_join_thread d))))))))
          (first_row ErrNotFound))
      else
        bnd (lift (ApplyToQuery filters ''thread.metadata'' 2)) (\<lambda>(authSQL, args).
        bnd (query (\<lambda>_ d.
               rb (cast_uuid E runID) (\<lambda>rid.
               rb (auth_where E ([runID] @ args) authSQL) (\<lambda>ok.
               Inr (map (scanRun \<circ> fst) (filter (\<lambda>(r, t).
                 r_run_id r = rid \<and> ok (joined_cols r t)) (run_join_thread d)))))))
          (first_row ErrNotFound)))"

record RunSearchInput =
  rs_ThreadID :: string
  rs_Statuses :: "string list"
  rs_MetadataFilter :: string
  rs_Limit :: nat
  rs_Offset :: nat

text \<open>Bound arguments of a search: a text, or a text array for \<^verbatim>\<open>ANY\<close>.\<close>

datatype sqlarg = AText string | ATexts "string list"

fun arg_text :: "sqlarg \<Rightarrow> string" where
  "arg_text (AText s) = s"
| "arg_text (ATexts _) = []"

fun arg_texts :: "sqlarg \<Rightarrow> string list" where
  "arg_texts (AText s) = [s]"
| "arg_texts (ATexts ss) = ss"

datatype run_cond =
    CTrue
  | CThread nat
  | CStatusAny nat
  | CMetadata nat
  | CAuth frag

definition run_whereArgs :: "RunSearchInput \<Rightarrow> auth_filter list \<Rightarrow> err + (bool \<times> run_cond list \<times> sqlarg list \<times> nat)" where
  "run_whereArgs si filters =
     (let args = []; wheres = [CTrue]; idx = (1::nat);
          (wheres, args, idx) = (if rs_ThreadID si \<noteq> []
             then (wheres @ [CThread idx], args @ [AText (rs_ThreadID si)], idx + 1) else (wheres, args, idx));
          (wheres, args, idx) = (if rs_Statuses si \<noteq> []
             then (wheres @ [CStatusAny idx], args @ [ATexts (rs_Statuses si)], idx + 1) else (wheres, args, idx));
          (wheres, args, idx) = (if rs_MetadataFilter si \<noteq> []
             then (wheres @ [CMetadata idx], args @ [AText (rs_MetadataFilter si)], idx + 1) else (wheres, args, idx))
      in rb (ApplyToQuery filters ''thread.metadata'' idx) (\<lambda>(authSQL, authArgs).
           if authSQL \<noteq> FragNone
           then Inr (True, wheres @ [CAuth authSQL], args @ map AText authArgs, idx + length authArgs)
           else Inr (False, wheres, args, idx)))"

text \<open>A condition after binding: an error, or a predicate on a row and its column valuation.\<close>

fun run_cond_where :: "env \<Rightarrow> sqlarg list \<Rightarrow> run_cond \<Rightarrow> string + (run_row \<Rightarrow> (string \<Rightarrow> json) \<Rightarrow> bool)" where
  "run_cond_where E args CTrue = Inr (\<lambda>r cv. True)"
| "run_cond_where E args (CThread i) =
     rb (cast_uuid E (arg_text (args ! (i - 1)))) (\<lambda>tid. Inr (\<lambda>r cv. r_thread_id r = tid))"
| "run_cond_where E args (CStatusAny i) = Inr (\<lambda>r cv. r_status r \<in> set (arg_texts (args ! (i - 1))))"
| "run_cond_where E args (CMetadata i) =
     rb (cast_jsonb E (arg_text (args ! (i - 1)))) (\<lambda>j. Inr (\<lambda>r cv. jcontains (r_metadata r) j))"
| "run_cond_where E args (CAuth fr) =
     rb (auth_where E (map arg_text args) fr) (\<lambda>ok. Inr (\<lambda>r cv. ok cv))"

text \<open>\<^verbatim>\<open>FROM run [JOIN thread USING (thread_id)] WHERE ...\<close>\<close>

definition run_from_where :: "env \<Rightarrow> bool \<Rightarrow> run_cond list \<Rightarrow> sqlarg list \<Rightarrow> db \<Rightarrow> string + run_row list" where
  "run_from_where E join conds args d =
     rb (res_map (run_cond_where E args) conds) (\<lambda>ps.
       Inr (if join
            then map fst (filter (\<lambda>(r, t). list_all (\<lambda>p. p r (joined_cols r t)) ps) (run_join_thread d))
            else filter (\<lambda>r. list_all (\<lambda>p. p r (\<lambda>_. JNull)) ps) (runs d)))"

definition by_created_desc :: "run_row \<Rightarrow> int \<times> string" where
  "by_created_desc r = (- r_created_at r, r_run_id r)"

text \<open>A \<^verbatim>\<open>uint64\<close> bound to a \<^verbatim>\<open>bigint\<close> placeholder must fit.\<close>

definition int8_arg :: "nat \<Rightarrow> string + nat" where
  "int8_arg n = (if n < 2 ^ 63 then Inr n else Inl ''value is greater than maximum value for int8'')"

definition run_Search :: "env \<Rightarrow> RunSearchInput \<Rightarrow> auth_filter list \<Rightarrow> Run list op" where
  "run_Search E si filters =
     bnd (lift (run_whereArgs si filters)) (\<lambda>(join, conds, args, idx).
     let limit = (if rs_Limit si = 0 then 100 else rs_Limit si)
     in query (\<lambda>_ d.
          rb (int8_arg limit) (\<lambda>l. rb (int8_arg (rs_Offset si)) (\<lambda>off.
          rb (run_from_where E join conds args d) (\<lambda>rows.
          Inr (map scanRun (take l (drop off (sort_key by_created_desc rows)))))))))"

definition run_Count :: "env \<Rightarrow> RunSearchInput \<Rightarrow> auth_filter list \<Rightarrow> nat op" where
  "run_Count E si filters =
     bnd (lift (run_whereArgs si filters)) (\<lambda>(join, conds, args, idx).
     query (\<lambda>_ d. rb (run_from_where E join conds args d) (\<lambda>rows. Inr (length rows))))"

text \<open>Ages in microseconds; \<^verbatim>\<open>percentile_cont(0.5)\<close> interpolates between the two middle values.\<close>

record RunStats =
  NPending :: nat
  NRunning :: nat
  PendingWaitMax :: "int option"
  PendingWaitMed :: "rat option"
  PendingUnblockedWaitMax :: "int option"

definition max_of :: "int list \<Rightarrow> int option" where
  "max_of xs = (if xs = [] then None else Some (Max (set xs)))"

definition median_of :: "int list \<Rightarrow> rat option" where
  "median_of xs =
     (let ys = sort xs; n = length ys
      in if n = 0 then None
         else Some ((of_int (ys ! ((n - 1) div 2)) + of_int (ys ! (n div 2))) / 2))"

definition run_Stats :: "RunStats op" where
  "run_Stats =
     bnd (query (\<lambda>t d.
        let live = filter inflight (runs d); ages = map (\<lambda>r. t - r_created_at r) live
        in Inr (length (filter (\<lambda>r. r_status r = ''pending'') live),
                length (filter (\<lambda>r. r_status r = ''running'') live), max_of ages, median_of ages)))
       (\<lambda>(np, nr, mx, med).
     bnd (query (\<lambda>t d.
        Inr (max_of (map (\<lambda>r. t - r_created_at r) (filter (\<lambda>r. r_status r = ''pending'' \<and>
          \<not> list_ex (\<lambda>r2. r_thread_id r2 = r_thread_id r \<and> r_status r2 = ''running'') (runs d)) (runs d))))))
       (\<lambda>unb. ret \<lparr>NPending = np, NRunning = nr, PendingWaitMax = mx, PendingWaitMed = med,
                    PendingUnblockedWaitMax = unb\<rparr>))"

definition PublishExistsAndAuth :: "env \<Rightarrow> string \<Rightarrow> string \<Rightarrow> auth_filter list \<Rightarrow> unit op" where
  "PublishExistsAndAuth E runID threadID filters =
     bnd (query (\<lambda>_ d.
       rb (cast_uuid E runID) (\<lambda>rid. rb (cast_uuid E threadID) (\<lambda>tid.
       Inr (list_ex (\<lambda>(r, t). r_run_id r = rid \<and> r_thread_id r = tid) (run_join_thread d))))))
     (\<lambda>exists.
     if \<not> exists then throw ErrNotFound
     else if filters = [] then ret ()
     else
       bnd (lift (ApplyToQuery filters ''thread.metadata'' 3)) (\<lambda>(authSQL, authArgs).
       bnd (query (\<lambda>_ d.
         rb (cast_uuid E runID) (\<lambda>rid. rb (cast_uuid E threadID) (\<lambda>tid.
         rb (auth_where E ([runID, threadID] @ authArgs) authSQL) (\<lambda>ok.
         Inr (list_ex (\<lambda>(r, t). r_run_id r = rid \<and> r_thread_id r = tid \<and> ok (joined_cols r t))
                (run_join_thread d)))))))
       (\<lambda>authPasses. if \<not> authPasses then throw ErrForbidden else ret ())))"

section \<open>Updates of rows\<close>

text \<open>\<^verbatim>\<open>UPDATE run SET ... WHERE P\<close>; the rows it hits are what \<^verbatim>\<open>RETURNING\<close> and \<^verbatim>\<open>RowsAffected\<close> report.\<close>

definition upd_runs :: "(run_row \<Rightarrow> bool) \<Rightarrow> (run_row \<Rightarrow> run_row) \<Rightarrow> db \<Rightarrow> db" where
  "upd_runs P f d = d\<lparr>runs := map (\<lambda>r. if P r then f r else r) (runs d)\<rparr>"

definition run_ExtendLease :: "env \<Rightarrow> int \<Rightarrow> string \<Rightarrow> string \<Rightarrow> unit op" where
  "run_ExtendLease E leaseTTL runID holderID =
     bnd (stmt (\<lambda>t d.
       rb (cast_uuid E runID) (\<lambda>rid.
       let P = (if holderID = []
                then (\<lambda>r. r_run_id r = rid \<and> r_status r = ''running'')
                else (\<lambda>r. r_run_id r = rid \<and> r_lease_holder_id r = Some holderID \<and> r_status r = ''running''))
       in Inr (length (filter P (runs d)),
               upd_runs P (\<lambda>r. r\<lparr>r_lease_expires_at := Some (t + leaseTTL * second), r_updated_at := t\<rparr>) d))))
     (\<lambda>affected. if affected = 0 then throw ErrNotFound else ret ())"

section \<open>Create\<close>

text \<open>\<open>None\<close> is a nil byte slice.\<close>

record CreateRunInput =
  ci_RunID :: string
  ci_ThreadID :: string
  ci_AssistantID :: string
  ci_Status :: string
  ci_KwargsJSON :: "string option"
  ci_Metadata :: "string option"
  ci_MultitaskStrategy :: string
  ci_AfterSeconds :: nat
  ci_EncryptionContext :: "string option"
  ci_UserID :: string
  ci_IfNotExists :: int

record CreateResult =
  cr_Run :: Run
  cr_InflightRunIDs :: "uuid list"

text \<open>The defaults at the head of \<^verbatim>\<open>Create\<close>.\<close>

definition create_defaults :: "CreateRunInput \<Rightarrow> CreateRunInput" where
  "create_defaults ci = ci\<lparr>
     ci_Status := (if ci_Status ci = [] then ''pending'' else ci_Status ci),
     ci_KwargsJSON := Some (case ci_KwargsJSON ci of None \<Rightarrow> ''{}'' | Some b \<Rightarrow> b),
     ci_Metadata := Some (case ci_Metadata ci of None \<Rightarrow> ''{}'' | Some b \<Rightarrow> b),
     ci_MultitaskStrategy := (if ci_MultitaskStrategy ci = [] then ''reject'' else ci_MultitaskStrategy ci)\<rparr>"

text \<open>\<^verbatim>\<open>kwargs.config\<close> as bytes, \<^verbatim>\<open>{}\<close> when the kwargs are not an object or have no such key.\<close>

definition requestConfig :: "env \<Rightarrow> string \<Rightarrow> string" where
  "requestConfig E kwargs =
     (case go_json E kwargs of
        Some (JObj kw) \<Rightarrow> (case map_of kw ''config'' of Some cfg \<Rightarrow> go_marshal E cfg | None \<Rightarrow> ''{}'')
      | _ \<Rightarrow> ''{}'')"

definition configurable :: "json \<Rightarrow> json" where
  "configurable cfg = (case jget cfg ''configurable'' of None \<Rightarrow> empty_obj | Some c \<Rightarrow> c)"

text \<open>The auto-created thread: seeded from the assistant, \<^verbatim>\<open>ON CONFLICT (thread_id) DO NOTHING\<close>.\<close>

definition insert_thread :: "uuid \<Rightarrow> json \<Rightarrow> json \<Rightarrow> uuid \<Rightarrow> int \<Rightarrow> db \<Rightarrow> db" where
  "insert_thread tid meta reqConfig aid t d =
     (case find (\<lambda>a. a_assistant_id a = aid) (assistants d) of
        None \<Rightarrow> d
      | Some a \<Rightarrow>
          if list_ex (\<lambda>th. t_thread_id th = tid) (threads d) then d
          else d\<lparr>threads := threads d @ [\<lparr>
            t_thread_id = tid, t_status = ''busy'', t_created_at = t, t_updated_at = t,
            t_expires_at = None, t_state_updated_at = None,
            t_metadata = jconcat (JObj [(''graph_id'', JStr (a_graph_id a)),
                                        (''assistant_id'', JStr (a_assistant_id a))]) meta,
            t_config = jconcat (jconcat (a_config a) reqConfig)
              (JObj [(''configurable'', jconcat (configurable (a_config a)) (configurable reqConfig))]),
            t_values = None, t_interrupts = empty_obj\<rparr>]\<rparr>)"

text \<open>A thread that is not busy takes the graph and assistant of the run, the merged config, and
  becomes busy. An error if its metadata is not an object (\<^verbatim>\<open>jsonb_set\<close>).\<close>

definition update_thread_row :: "assistant_row \<Rightarrow> json \<Rightarrow> thread_row \<Rightarrow> string + thread_row" where
  "update_thread_row a reqConfig th =
     rb (jset (t_metadata th) ''graph_id'' (JStr (a_graph_id a))) (\<lambda>m1.
     rb (jset m1 ''assistant_id'' (JStr (a_assistant_id a))) (\<lambda>m2.
     Inr (th\<lparr>t_metadata := m2,
             t_config := jconcat (jconcat (jconcat (a_config a) (t_config th)) reqConfig)
               (JObj [(''configurable'', jconcat (jconcat (configurable (a_config a))
                  (configurable (t_config th))) (configurable reqConfig))]),
             t_status := ''busy''\<rparr>)))"

definition update_thread :: "uuid \<Rightarrow> uuid \<Rightarrow> json \<Rightarrow> db \<Rightarrow> string + db" where
  "update_thread tid aid reqConfig d =
     (case find (\<lambda>a. a_assistant_id a = aid) (assistants d) of
        None \<Rightarrow> Inr d
      | Some a \<Rightarrow>
          rb (res_map (\<lambda>th. if t_thread_id th = tid \<and> t_status th \<noteq> ''busy''
                            then update_thread_row a reqConfig th else Inr th) (threads d))
             (\<lambda>ths. Inr (d\<lparr>threads := ths\<rparr>)))"

text \<open>\<^verbatim>\<open>int64(in.AfterSeconds)\<close>: a \<^verbatim>\<open>uint64\<close> reinterpreted as signed.\<close>

definition int64_of :: "nat \<Rightarrow> int" where
  "int64_of n = (let m = n mod 2 ^ 64 in if m < 2 ^ 63 then int m else int m - 2 ^ 64)"

definition coalesce_user_id :: "env \<Rightarrow> json \<Rightarrow> json \<Rightarrow> json \<Rightarrow> string \<Rightarrow> json" where
  "coalesce_user_id E kwargs tconfig aconfig userID =
     (let via = (\<lambda>j. Option.bind (Option.bind j (\<lambda>c. jget c ''configurable'')) (\<lambda>c. jget_text (pg_text E) c ''user_id''))
      in case via (jget kwargs ''config'') of Some u \<Rightarrow> JStr u
         | None \<Rightarrow> (case via (Some tconfig) of Some u \<Rightarrow> JStr u
         | None \<Rightarrow> (case via (Some aconfig) of Some u \<Rightarrow> JStr u
         | None \<Rightarrow> if userID = [] then JNull else JStr userID)))"

text \<open>The \<^verbatim>\<open>kwargs\<close> column of a new run.\<close>

definition run_kwargs :: "env \<Rightarrow> uuid \<Rightarrow> assistant_row \<Rightarrow> thread_row \<Rightarrow> json \<Rightarrow> json \<Rightarrow> string \<Rightarrow> json" where
  "run_kwargs E rid a th kwargs meta userID =
     jconcat kwargs (JObj [(''config'',
       jconcat (jconcat (jconcat (a_config a) (t_config th))
                  (case jget kwargs ''config'' of None \<Rightarrow> empty_obj | Some c \<Rightarrow> c))
         (JObj [
           (''configurable'',
             jconcat (jconcat (jconcat (configurable (a_config a)) (configurable (t_config th)))
                        (case jget kwargs ''config'' of None \<Rightarrow> empty_obj | Some c \<Rightarrow> configurable c))
               (JObj [(''run_id'', JStr rid), (''thread_id'', JStr (t_thread_id th)),
                      (''graph_id'', JStr (a_graph_id a)), (''assistant_id'', JStr (a_assistant_id a)),
                      (''user_id'', coalesce_user_id E kwargs (t_config th) (a_config a) userID)])),
           (''metadata'', jconcat (jconcat (a_metadata a) (t_metadata th)) meta)]))])"

definition new_run :: "env \<Rightarrow> CreateRunInput \<Rightarrow> uuid \<Rightarrow> json \<Rightarrow> json \<Rightarrow> json option \<Rightarrow> int \<Rightarrow>
    assistant_row \<Rightarrow> thread_row \<Rightarrow> run_row" where
  "new_run E ci rid kwargs meta enc t a th =
     (let runAfter = (if ci_AfterSeconds ci > 0 then Some (t + int64_of (ci_AfterSeconds ci) * second) else None)
      in \<lparr>r_run_id = rid, r_thread_id = t_thread_id th, r_assistant_id = a_assistant_id a,
          r_status = ci_Status ci,
          r_kwargs = run_kwargs E rid a th kwargs meta (ci_UserID ci),
          r_multitask_strategy = ci_MultitaskStrategy ci,
          r_created_at = (case runAfter of None \<Rightarrow> t | Some s \<Rightarrow> s), r_updated_at = t,
          r_metadata = jconcat (JObj [(''assistant_id'', JStr (a_assistant_id a))]) meta,
          r_lease_holder_id = None, r_lease_expires_at = None, r_lease_generation = 0,
          r_cancel_requested_at = None, r_run_after = runAfter, r_attempt = 0,
          r_encryption_context = enc\<rparr>)"

text \<open>\<^verbatim>\<open>INSERT INTO run ... SELECT ... FROM new_id, assistant a, thread t ... RETURNING\<close>: at most one
  row, since both keys are unique. A duplicate run id is a key violation.\<close>

definition insert_run :: "env \<Rightarrow> CreateRunInput \<Rightarrow> uuid \<Rightarrow> int \<Rightarrow> db \<Rightarrow> string + Run list \<times> db" where
  "insert_run E ci gen t d =
     rb (if ci_RunID ci = [] then Inr gen else cast_uuid E (ci_RunID ci)) (\<lambda>rid.
     rb (cast_uuid E (ci_ThreadID ci)) (\<lambda>tid.
     rb (cast_uuid E (ci_AssistantID ci)) (\<lambda>aid.
     rb (cast_jsonb E (the (ci_KwargsJSON ci))) (\<lambda>kwargs.
     rb (cast_jsonb E (the (ci_Metadata ci))) (\<lambda>meta.
     rb (case ci_EncryptionContext ci of None \<Rightarrow> Inr None | Some b \<Rightarrow> rb (cast_jsonb E b) (\<lambda>j. Inr (Some j)))
       (\<lambda>enc.
     case (find (\<lambda>a. a_assistant_id a = aid) (assistants d), find (\<lambda>th. t_thread_id th = tid) (threads d)) of
       (Some a, Some th) \<Rightarrow>
         if list_ex (\<lambda>r. r_run_id r = rid) (runs d)
         then Inl ''duplicate key value violates unique constraint run_pkey''
         else (let r = new_run E ci rid kwargs meta enc t a th
               in Inr ([scanRun r], d\<lparr>runs := runs d @ [r]\<rparr>))
     | _ \<Rightarrow> Inr ([], d)))))))"

text \<open>The steps of the transaction: the two guards, the thread created or updated, the runs in the way.\<close>

definition assistant_guard :: "env \<Rightarrow> string \<Rightarrow> auth_filter list \<Rightarrow> unit op" where
  "assistant_guard E assistantID filters =
     bnd (lift (ApplyToQuery filters ''metadata'' 2)) (\<lambda>(authSQL, args).
     bnd (query (\<lambda>_ d. rb (cast_uuid E assistantID) (\<lambda>aid.
            rb (auth_where E ([assistantID] @ args) authSQL) (\<lambda>ok.
            Inr (list_ex (\<lambda>a. a_assistant_id a = aid \<and> ok (\<lambda>_. a_metadata a)) (assistants d))))))
         (\<lambda>asExists. if \<not> asExists then throw ErrNotFound else ret ()))"

definition thread_guard :: "env \<Rightarrow> string \<Rightarrow> auth_filter list \<Rightarrow> bool op" where
  "thread_guard E threadID filters =
     bnd (lift (ApplyToQuery filters ''metadata'' 2)) (\<lambda>(authSQL, args).
     query (\<lambda>_ d. rb (cast_uuid E threadID) (\<lambda>tid.
       rb (auth_where E ([threadID] @ args) authSQL) (\<lambda>ok.
       Inr (list_ex (\<lambda>th. t_thread_id th = tid \<and> ok (\<lambda>_. t_metadata th)) (threads d))))))"

definition auto_create_thread :: "env \<Rightarrow> CreateRunInput \<Rightarrow> string \<Rightarrow> unit op" where
  "auto_create_thread E ci reqConfig =
     stmt (\<lambda>t d. rb (cast_uuid E (ci_ThreadID ci)) (\<lambda>tid. rb (cast_uuid E (ci_AssistantID ci)) (\<lambda>aid.
       rb (cast_jsonb E (the (ci_Metadata ci))) (\<lambda>meta. rb (cast_jsonb E reqConfig) (\<lambda>rc.
       Inr ((), insert_thread tid meta rc aid t d))))))"

definition touch_thread :: "env \<Rightarrow> CreateRunInput \<Rightarrow> string \<Rightarrow> unit op" where
  "touch_thread E ci reqConfig =
     stmt (\<lambda>t d. rb (cast_uuid E (ci_ThreadID ci)) (\<lambda>tid. rb (cast_uuid E (ci_AssistantID ci)) (\<lambda>aid.
       rb (cast_jsonb E reqConfig) (\<lambda>rc. rb (update_thread tid aid rc d) (\<lambda>d'. Inr ((), d'))))))"

definition multitask_guard :: "env \<Rightarrow> CreateRunInput \<Rightarrow> uuid list op" where
  "multitask_guard E ci =
     (if ci_MultitaskStrategy ci = ''reject'' then
        bnd (query (\<lambda>_ d. rb (cast_uuid E (ci_ThreadID ci)) (\<lambda>tid.
               Inr (list_ex (\<lambda>r. r_thread_id r = tid \<and> inflight r) (runs d)))))
            (\<lambda>infl. if infl then throw ErrInflight else ret [])
      else if ci_MultitaskStrategy ci = ''rollback'' \<or> ci_MultitaskStrategy ci = ''interrupt'' then
        query (\<lambda>_ d. rb (cast_uuid E (ci_ThreadID ci)) (\<lambda>tid.
               Inr (map r_run_id (filter (\<lambda>r. r_thread_id r = tid \<and> inflight r) (runs d)))))
      else ret [])"

text \<open>The effective input: defaults filled in, the thread id generated if there is none.\<close>

definition create_input :: "string \<Rightarrow> CreateRunInput \<Rightarrow> CreateRunInput" where
  "create_input new_tid ci0 =
     (let ci = create_defaults ci0
      in ci\<lparr>ci_ThreadID := (if ci_ThreadID ci = [] then new_tid else ci_ThreadID ci)\<rparr>)"

text \<open>
  The whole transaction. \<open>new_tid\<close> and \<open>gen\<close> are the values of \<^verbatim>\<open>newUUID()\<close> and
  \<^verbatim>\<open>gen_random_uuid()\<close>. An \<open>INSERT\<close> that returns no row surfaces as the raw \<^verbatim>\<open>pgx.ErrNoRows\<close>.
\<close>

definition run_Create :: "env \<Rightarrow> string \<Rightarrow> uuid \<Rightarrow> CreateRunInput \<Rightarrow> auth_filter list \<Rightarrow> auth_filter list \<Rightarrow>
    CreateResult op" where
  "run_Create E new_tid gen ci0 threadFilters assistantFilters =
     (let createThreadIfMissing = (ci_IfNotExists ci0 = 1 \<or> ci_ThreadID ci0 = []);
          ci = create_input new_tid ci0;
          reqConfig = requestConfig E (the (ci_KwargsJSON ci))
      in in_tx (
        bnd (assistant_guard E (ci_AssistantID ci) assistantFilters) (\<lambda>_.
        bnd (thread_guard E (ci_ThreadID ci) threadFilters) (\<lambda>thExists.
        bnd (if thExists then ret () else if \<not> createThreadIfMissing then throw ErrNotFound
             else auto_create_thread E ci reqConfig) (\<lambda>_.
        bnd (touch_thread E ci reqConfig) (\<lambda>_.
        bnd (multitask_guard E ci) (\<lambda>inflightIDs.
        bnd (stmt (insert_run E ci gen)) (\<lambda>rows.
        bnd (first_row (DbErr ''no rows in result set'') rows) (\<lambda>r.
        ret (Commit \<lparr>cr_Run = r, cr_InflightRunIDs = inflightIDs\<rparr>))))))))))"

section \<open>Delete and cancel\<close>

text \<open>
  One statement: the selected run, the writes of its checkpoints, the run itself (its checkpoints go
  with it by the foreign key). Every part sees the tables as they were before the statement.
\<close>

definition delete_run_stmt :: "(run_row \<Rightarrow> bool) \<Rightarrow> db \<Rightarrow> uuid list \<times> db" where
  "delete_run_stmt selected d =
     (let ids = map r_run_id (filter selected (runs d));
          cps = filter (\<lambda>c. \<exists>i \<in> set_option (c_run_id c). i \<in> set ids) (checkpoints d);
          hit = (\<lambda>x. list_ex (\<lambda>c. w_checkpoint_id x = c_id c \<and> w_thread_id x = c_thread_id c \<and> w_ns x = c_ns c) cps);
          d1 = d\<lparr>writes := filter (\<lambda>x. \<not> hit x) (writes d)\<rparr>
      in (ids, del_runs (\<lambda>r. r_run_id r \<in> set ids) d1))"

definition thread_visible :: "((string \<Rightarrow> json) \<Rightarrow> bool) \<Rightarrow> db \<Rightarrow> run_row \<Rightarrow> bool" where
  "thread_visible ok d r =
     list_ex (\<lambda>th. t_thread_id th = r_thread_id r \<and> ok (joined_cols r th)) (threads d)"

definition run_Delete :: "env \<Rightarrow> string \<Rightarrow> string \<Rightarrow> auth_filter list \<Rightarrow> uuid op" where
  "run_Delete E runID threadID filters =
     (if threadID \<noteq> [] then
        bnd (lift (ApplyToQuery filters ''thread.metadata'' 3)) (\<lambda>(authSQL, authArgs).
        bnd (stmt (\<lambda>_ d. rb (cast_uuid E runID) (\<lambda>rid. rb (cast_uuid E threadID) (\<lambda>tid.
               rb (auth_where E ([runID, threadID] @ authArgs) authSQL) (\<lambda>ok.
               Inr (delete_run_stmt (\<lambda>r. r_run_id r = rid \<and> r_thread_id r = tid \<and>
                      (authSQL = FragNone \<or> thread_visible ok d r)) d))))))
          (first_row ErrNotFound))
      else
        bnd (lift (ApplyToQuery filters ''thread.metadata'' 2)) (\<lambda>(authSQL, authArgs).
        bnd (stmt (\<lambda>_ d. rb (cast_uuid E runID) (\<lambda>rid.
               rb (auth_where E ([runID] @ authArgs) authSQL) (\<lambda>ok.
               Inr (delete_run_stmt (\<lambda>r. r_run_id r = rid \<and>
                      (authSQL = FragNone \<or> thread_visible ok d r)) d)))))
          (first_row ErrNotFound)))"

record CancelResult =
  cx_RunID :: uuid
  cx_Deleted :: bool
  cx_Terminal :: bool

text \<open>
  The \<^verbatim>\<open>WHERE\<close> clause shared by the three statements of \<^verbatim>\<open>CancelWithAction\<close>: the thread scope, the
  visibility of the thread, \<^verbatim>\<open>run_id = ANY(...)\<close>. Placeholders: thread id, filters, run ids.
\<close>

definition cancel_where :: "env \<Rightarrow> string list \<Rightarrow> string \<Rightarrow> frag \<Rightarrow> string list \<Rightarrow> db \<Rightarrow>
    string + (run_row \<Rightarrow> bool)" where
  "cancel_where E runIDs threadID authSQL authArgs d =
     rb (if threadID = [] then Inr None else rb (cast_uuid E threadID) (\<lambda>tid. Inr (Some tid))) (\<lambda>tid.
     rb (auth_where E ((if threadID = [] then [] else [threadID]) @ authArgs) authSQL) (\<lambda>ok.
     rb (res_map (cast_uuid E) runIDs) (\<lambda>ids.
     Inr (\<lambda>r. (tid = None \<or> tid = Some (r_thread_id r)) \<and>
              (authSQL = FragNone \<or> thread_visible ok d r) \<and> r_run_id r \<in> set ids))))"

definition run_CancelWithAction :: "env \<Rightarrow> string list \<Rightarrow> string \<Rightarrow> string \<Rightarrow> auth_filter list \<Rightarrow>
    CancelResult list op" where
  "run_CancelWithAction E runIDs threadID action0 filters =
     (if runIDs = [] then ret []
      else let action = (if action0 = [] then ''interrupt'' else action0)
      in bnd (lift (ApplyToQuery filters ''thread.metadata'' (if threadID = [] then 1 else 2)))
           (\<lambda>(authSQL, authArgs).
         bnd (if action = ''rollback'' then
                stmt (\<lambda>_ d. rb (cancel_where E runIDs threadID authSQL authArgs d) (\<lambda>W.
                  let P = (\<lambda>r. W r \<and> r_status r = ''pending'')
                  in Inr (map (\<lambda>r. \<lparr>cx_RunID = r_run_id r, cx_Deleted = True, cx_Terminal = True\<rparr>)
                            (filter P (runs d)), del_runs P d)))
              else
                stmt (\<lambda>t d. rb (cancel_where E runIDs threadID authSQL authArgs d) (\<lambda>W.
                  let P = (\<lambda>r. W r \<and> r_status r = ''pending'')
                  in Inr (map (\<lambda>r. \<lparr>cx_RunID = r_run_id r, cx_Deleted = False, cx_Terminal = True\<rparr>)
                            (filter P (runs d)),
                          upd_runs P (\<lambda>r. r\<lparr>r_status := ''interrupted'', r_cancel_requested_at := Some t,
                                            r_updated_at := t\<rparr>) d))))
             (\<lambda>out.
         bnd (stmt (\<lambda>t d. rb (cancel_where E runIDs threadID authSQL authArgs d) (\<lambda>W.
                let P = (\<lambda>r. W r \<and> r_status r = ''running'')
                in Inr (map (\<lambda>r. \<lparr>cx_RunID = r_run_id r, cx_Deleted = False, cx_Terminal = False\<rparr>)
                          (filter P (runs d)),
                        upd_runs P (\<lambda>r. r\<lparr>r_cancel_requested_at := Some t, r_updated_at := t\<rparr>) d))))
             (\<lambda>out2. ret (out @ out2)))))"

definition run_Cancel :: "env \<Rightarrow> string list \<Rightarrow> string \<Rightarrow> auth_filter list \<Rightarrow> uuid list op" where
  "run_Cancel E runIDs threadID filters =
     bnd (run_CancelWithAction E runIDs threadID ''interrupt'' filters) (\<lambda>results. ret (map cx_RunID results))"

definition run_CancelByStatus :: "env \<Rightarrow> string list \<Rightarrow> auth_filter list \<Rightarrow> uuid list op" where
  "run_CancelByStatus E statuses filters =
     (if statuses = [] then ret []
      else bnd (lift (ApplyToQuery filters ''metadata'' 2)) (\<lambda>(authSQL, authArgs).
        stmt (\<lambda>t d. rb (auth_where E ([[]] @ authArgs) authSQL) (\<lambda>ok.
          let P = (\<lambda>r. r_status r \<in> set statuses \<and> r_cancel_requested_at r = None \<and>
                       ok (\<lambda>_. r_metadata r))
          in Inr (map r_run_id (filter P (runs d)),
                  upd_runs P (\<lambda>r. r\<lparr>r_cancel_requested_at := Some t, r_updated_at := t\<rparr>) d)))))"

section \<open>Status and lease\<close>

definition run_SetStatus :: "env \<Rightarrow> string \<Rightarrow> string \<Rightarrow> unit op" where
  "run_SetStatus E runID statusText =
     stmt (\<lambda>t d. rb (cast_uuid E runID) (\<lambda>rid.
       Inr ((), upd_runs (\<lambda>r. r_run_id r = rid) (\<lambda>r. r\<lparr>r_status := statusText, r_updated_at := t\<rparr>) d)))"

definition isTerminalStatus :: "string \<Rightarrow> bool" where
  "isTerminalStatus s \<longleftrightarrow> s \<in> set [''success'', ''error'', ''interrupted'', ''timeout'', ''rollback'']"

definition run_MarkDone :: "env \<Rightarrow> string \<Rightarrow> unit op" where
  "run_MarkDone E runID =
     stmt (\<lambda>t d. rb (cast_uuid E runID) (\<lambda>rid.
       Inr ((), upd_runs (\<lambda>r. r_run_id r = rid)
         (\<lambda>r. r\<lparr>r_updated_at := t, r_lease_holder_id := None, r_lease_expires_at := None\<rparr>) d)))"

record ClaimedRun =
  cl_Run :: Run
  cl_Attempt :: int

definition claimable :: "int \<Rightarrow> db \<Rightarrow> run_row \<Rightarrow> bool" where
  "claimable t d r =
     (r_status r = ''pending'' \<and>
      (case r_run_after r of None \<Rightarrow> True | Some s \<Rightarrow> s \<le> t) \<and>
      \<not> list_ex (\<lambda>r2. r_thread_id r2 = r_thread_id r \<and> r_status r2 = ''running'') (runs d))"

definition by_created_asc :: "run_row \<Rightarrow> int \<times> string" where
  "by_created_asc r = (r_created_at r, r_run_id r)"

definition next_pending :: "nat \<Rightarrow> int \<Rightarrow> db \<Rightarrow> run_row list" where
  "next_pending limit t d = take limit (sort_key by_created_asc (filter (claimable t d) (runs d)))"

text \<open>The claim: running, a fresh lease, the next generation and the next attempt.\<close>

definition claim :: "int \<Rightarrow> int \<Rightarrow> run_row \<Rightarrow> run_row" where
  "claim leaseTTL t r = r\<lparr>r_status := ''running'', r_lease_expires_at := Some (t + leaseTTL * second),
     r_lease_generation := r_lease_generation r + 1, r_attempt := r_attempt r + 1, r_updated_at := t\<rparr>"

fun refetch :: "env \<Rightarrow> uuid list \<Rightarrow> ClaimedRun list op" where
  "refetch E [] = ret []"
| "refetch E (i # is) =
     bnd (run_Get E i [] []) (\<lambda>r. bnd (refetch E is) (\<lambda>rs.
       ret (\<lparr>cl_Run = r, cl_Attempt = RunAttempt r\<rparr> # rs)))"

definition run_Next :: "env \<Rightarrow> int \<Rightarrow> nat \<Rightarrow> ClaimedRun list op" where
  "run_Next E leaseTTL limit0 =
     (let limit = (if limit0 = 0 then 1 else limit0)
      in bnd (in_tx (
           bnd (query (\<lambda>t d. rb (int8_arg limit) (\<lambda>l. Inr (map r_run_id (next_pending l t d))))) (\<lambda>ids.
           if ids = [] then ret (CommitIgn [])
           else bnd (stmt (\<lambda>t d. Inr ((), upd_runs (\<lambda>r. r_run_id r \<in> set ids) (claim leaseTTL t) d)))
                  (\<lambda>_. ret (Commit ids)))))
         (refetch E))"

definition expired :: "int \<Rightarrow> run_row \<Rightarrow> bool" where
  "expired t r = (r_status r = ''running'' \<and> (case r_lease_expires_at r of None \<Rightarrow> False | Some e \<Rightarrow> e < t))"

definition requeue :: "int \<Rightarrow> run_row \<Rightarrow> run_row" where
  "requeue t r = r\<lparr>r_status := ''pending'', r_updated_at := t, r_lease_holder_id := None,
     r_lease_expires_at := None, r_lease_generation := r_lease_generation r + 1\<rparr>"

text \<open>One candidate: the advisory lock, the re-check under the lock, the reset, the commit.\<close>

definition sweep_one :: "uuid \<Rightarrow> bool op" where
  "sweep_one i = in_tx (
     bnd (query (\<lambda>_ d. Inr ())) (\<lambda>_.
     bnd (query (\<lambda>t d. Inr (map (expired t) (filter (\<lambda>r. r_run_id r = i) (runs d))))) (\<lambda>rows.
     bnd (first_row (DbErr ''no rows in result set'') rows) (\<lambda>stillExpired.
     if \<not> stillExpired then ret (Abort False)
     else bnd (stmt (\<lambda>t d. Inr ((), upd_runs (\<lambda>r. r_run_id r = i) (requeue t) d)))
            (\<lambda>_. ret (Commit True))))))"

text \<open>The loop over the candidates: a failed \<^verbatim>\<open>Begin\<close> ends it with an error, any later failure skips the candidate.\<close>

fun sweep_loop :: "uuid list \<Rightarrow> uuid list \<Rightarrow> (err option \<times> uuid list) op" where
  "sweep_loop [] swept = ret (None, swept)"
| "sweep_loop (i # is) swept =
     (\<lambda>w. case fst (tick w) of
        Some e \<Rightarrow> (Inr (Some (DbErr e), swept), after w)
      | None \<Rightarrow> bnd (attempt (sweep_one i)) (\<lambda>r.
          sweep_loop is (case r of Inr True \<Rightarrow> swept @ [i] | _ \<Rightarrow> swept)) w)"

definition run_Sweep :: "(err option \<times> uuid list) op" where
  "run_Sweep w =
     (case query (\<lambda>t d. Inr (map r_run_id (filter (expired t) (runs d)))) w of
        (Inl e, w') \<Rightarrow> (Inr (Some e, []), w')
      | (Inr candidates, w') \<Rightarrow> sweep_loop candidates [] w')"

end
