(* ===== verification/Threads_Store.thy ===== *)
theory Threads_Store
  imports Runs_Store
begin

text \<open>
  The thread store (\<^verbatim>\<open>internal/threads/store.go\<close>): every method of \<^verbatim>\<open>Store\<close> on the \<^verbatim>\<open>thread\<close> table. As in the run
  store, a statement is a function on the tables, and the numbered placeholders of a statement that is put together
  at run time (\<^verbatim>\<open>whereArgs\<close>, \<^verbatim>\<open>Patch\<close>) are kept, so that an argument bound at the wrong place would be seen.
  A \<^verbatim>\<open>float64\<close> time to live is a rational number. Where \<^verbatim>\<open>ORDER BY\<close> leaves rows of equal key in any order, the model
  keeps them in the order of the table.
\<close>

section \<open>Data\<close>

record Thread =
  ThreadID :: uuid
  ThreadStatus :: string
  ThreadCreatedAt :: int
  ThreadUpdatedAt :: int
  ThreadExpiresAt :: "int option"
  ThreadStateUpdatedAt :: "int option"
  ThreadMetadata :: json
  ThreadConfig :: json
  ThreadValues :: json
  ThreadInterrupts :: json

text \<open>The projection \<^verbatim>\<open>threadCols\<close>: SQL NULL in \<^verbatim>\<open>"values"\<close> becomes a JSON null.\<close>

definition threadCols :: "thread_row \<Rightarrow> Thread" where
  "threadCols t =
     \<lparr>ThreadID = t_thread_id t, ThreadStatus = t_status t, ThreadCreatedAt = t_created_at t,
      ThreadUpdatedAt = t_updated_at t, ThreadExpiresAt = t_expires_at t,
      ThreadStateUpdatedAt = t_state_updated_at t, ThreadMetadata = t_metadata t, ThreadConfig = t_config t,
      ThreadValues = (case t_values t of None \<Rightarrow> JNull | Some v \<Rightarrow> v), ThreadInterrupts = t_interrupts t\<rparr>"

text \<open>\<^verbatim>\<open>WHERE thread_id = $1::uuid AND <auth>\<close>, bound to the arguments of the statement.\<close>

definition thread_where :: "env \<Rightarrow> string \<Rightarrow> frag \<Rightarrow> string list \<Rightarrow> string + (thread_row \<Rightarrow> bool)" where
  "thread_where E threadID authSQL args =
     rb (cast_uuid E threadID) (\<lambda>tid.
     rb (auth_where E args authSQL) (\<lambda>ok.
     Inr (\<lambda>t. t_thread_id t = tid \<and> ok (\<lambda>_. t_metadata t))))"

section \<open>Reads\<close>

definition thread_Get :: "env \<Rightarrow> string \<Rightarrow> auth_filter list \<Rightarrow> Thread op" where
  "thread_Get E threadID filters =
     bnd (lift (ApplyToQuery filters ''metadata'' 2)) (\<lambda>(authSQL, args).
     bnd (query (\<lambda>_ d. rb (thread_where E threadID authSQL ([threadID] @ args)) (\<lambda>P.
            Inr (map threadCols (filter P (threads d))))))
         (first_row ErrNotFound))"

record ThreadSearchInput =
  ts_Status :: string
  ts_MetadataFilter :: string
  ts_ValuesFilter :: string
  ts_Ids :: "string list"
  ts_Limit :: nat
  ts_Offset :: nat
  ts_SortBy :: string
  ts_SortOrder :: string

definition validSortColumns :: "string \<Rightarrow> string option" where
  "validSortColumns s =
     (if s \<in> set [''thread_id'', ''status'', ''created_at'', ''updated_at''] then Some s else None)"

definition sortClause :: "string \<Rightarrow> string \<Rightarrow> string" where
  "sortClause sortBy sortOrder =
     (case validSortColumns sortBy of
        None \<Rightarrow> ''created_at DESC''
      | Some col \<Rightarrow> col @ '' '' @ (if sortOrder = ''asc'' then ''ASC'' else ''DESC''))"

text \<open>What the database makes of an \<^verbatim>\<open>ORDER BY\<close> clause over these columns; \<open>None\<close> for a text that is none.\<close>

definition sort_desc :: "('a \<Rightarrow> 'k::linorder) \<Rightarrow> 'a list \<Rightarrow> 'a list" where
  "sort_desc k xs = rev (sort_key k (rev xs))"

definition thread_order_by :: "string \<Rightarrow> (thread_row list \<Rightarrow> thread_row list) option" where
  "thread_order_by clause = map_of
     [(''thread_id ASC'', sort_key t_thread_id), (''thread_id DESC'', sort_desc t_thread_id),
      (''status ASC'', sort_key t_status), (''status DESC'', sort_desc t_status),
      (''created_at ASC'', sort_key t_created_at), (''created_at DESC'', sort_desc t_created_at),
      (''updated_at ASC'', sort_key t_updated_at), (''updated_at DESC'', sort_desc t_updated_at)] clause"

text \<open>\<^verbatim>\<open>json.Unmarshal\<close> into a map accepts an object, and a JSON null as the nil map.\<close>

definition isEmptyJSONObject :: "env \<Rightarrow> string \<Rightarrow> bool" where
  "isEmptyJSONObject E raw =
     (case go_json E raw of Some (JObj m) \<Rightarrow> m = [] | Some JNull \<Rightarrow> True | _ \<Rightarrow> False)"

datatype thread_cond =
    TTrue
  | TStatus nat
  | TMetadata nat
  | TValues nat
  | TIds nat
  | TAuth frag

definition thread_whereArgs :: "env \<Rightarrow> ThreadSearchInput \<Rightarrow> auth_filter list \<Rightarrow>
    err + (thread_cond list \<times> sqlarg list \<times> nat)" where
  "thread_whereArgs E si filters =
     (let args = []; wheres = [TTrue]; idx = (1::nat);
          (wheres, args, idx) = (if ts_Status si \<noteq> []
             then (wheres @ [TStatus idx], args @ [AText (ts_Status si)], idx + 1) else (wheres, args, idx));
          (wheres, args, idx) = (if ts_MetadataFilter si \<noteq> []
             then (wheres @ [TMetadata idx], args @ [AText (ts_MetadataFilter si)], idx + 1) else (wheres, args, idx));
          (wheres, args, idx) = (if ts_ValuesFilter si \<noteq> [] \<and> \<not> isEmptyJSONObject E (ts_ValuesFilter si)
             then (wheres @ [TValues idx], args @ [AText (ts_ValuesFilter si)], idx + 1) else (wheres, args, idx));
          (wheres, args, idx) = (if ts_Ids si \<noteq> []
             then (wheres @ [TIds idx], args @ [ATexts (ts_Ids si)], idx + 1) else (wheres, args, idx))
      in rb (ApplyToQuery filters ''metadata'' idx) (\<lambda>(authSQL, authArgs).
           if authSQL \<noteq> FragNone
           then Inr (wheres @ [TAuth authSQL], args @ map AText authArgs, idx + length authArgs)
           else Inr (wheres, args, idx)))"

text \<open>A condition after binding; a row whose \<^verbatim>\<open>"values"\<close> is NULL fails every containment test.\<close>

fun thread_cond_where :: "env \<Rightarrow> sqlarg list \<Rightarrow> thread_cond \<Rightarrow> string + (thread_row \<Rightarrow> bool)" where
  "thread_cond_where E args TTrue = Inr (\<lambda>t. True)"
| "thread_cond_where E args (TStatus i) = Inr (\<lambda>t. t_status t = arg_text (args ! (i - 1)))"
| "thread_cond_where E args (TMetadata i) =
     rb (cast_jsonb E (arg_text (args ! (i - 1)))) (\<lambda>j. Inr (\<lambda>t. jcontains (t_metadata t) j))"
| "thread_cond_where E args (TValues i) =
     rb (cast_jsonb E (arg_text (args ! (i - 1)))) (\<lambda>j.
       Inr (\<lambda>t. case t_values t of None \<Rightarrow> False | Some v \<Rightarrow> jcontains v j))"
| "thread_cond_where E args (TIds i) =
     rb (res_map (cast_uuid E) (arg_texts (args ! (i - 1)))) (\<lambda>ids. Inr (\<lambda>t. t_thread_id t \<in> set ids))"
| "thread_cond_where E args (TAuth fr) =
     rb (auth_where E (map arg_text args) fr) (\<lambda>ok. Inr (\<lambda>t. ok (\<lambda>_. t_metadata t)))"

definition thread_from_where :: "env \<Rightarrow> thread_cond list \<Rightarrow> sqlarg list \<Rightarrow> db \<Rightarrow> string + thread_row list" where
  "thread_from_where E conds args d =
     rb (res_map (thread_cond_where E args) conds) (\<lambda>ps.
       Inr (filter (\<lambda>t. list_all (\<lambda>p. p t) ps) (threads d)))"

definition thread_Search :: "env \<Rightarrow> ThreadSearchInput \<Rightarrow> auth_filter list \<Rightarrow> Thread list op" where
  "thread_Search E si filters =
     bnd (lift (thread_whereArgs E si filters)) (\<lambda>(conds, args, idx).
     let limit = (if ts_Limit si = 0 then 100 else ts_Limit si)
     in query (\<lambda>_ d.
          rb (of_opt ''syntax error'' (thread_order_by (sortClause (ts_SortBy si) (ts_SortOrder si)))) (\<lambda>ord.
          rb (int8_arg limit) (\<lambda>l. rb (int8_arg (ts_Offset si)) (\<lambda>off.
          rb (thread_from_where E conds args d) (\<lambda>rows.
          Inr (map threadCols (take l (drop off (ord rows))))))))))"

definition thread_Count :: "env \<Rightarrow> ThreadSearchInput \<Rightarrow> auth_filter list \<Rightarrow> nat op" where
  "thread_Count E si filters =
     bnd (lift (thread_whereArgs E si filters)) (\<lambda>(conds, args, idx).
     query (\<lambda>_ d. rb (thread_from_where E conds args d) (\<lambda>rows. Inr (length rows))))"

text \<open>\<^verbatim>\<open>COALESCE(config -> 'configurable' ->> 'graph_id', '')\<close>\<close>

definition thread_graph_id :: "env \<Rightarrow> thread_row \<Rightarrow> string" where
  "thread_graph_id E t =
     (case Option.bind (jget (t_config t) ''configurable'') (\<lambda>c. jget_text (pg_text E) c ''graph_id'') of
        None \<Rightarrow> [] | Some g \<Rightarrow> g)"

definition thread_GetGraphID :: "env \<Rightarrow> string \<Rightarrow> auth_filter list \<Rightarrow> string op" where
  "thread_GetGraphID E threadID filters =
     bnd (lift (ApplyToQuery filters ''metadata'' 2)) (\<lambda>(authSQL, args).
     bnd (query (\<lambda>_ d. rb (thread_where E threadID authSQL ([threadID] @ args)) (\<lambda>P.
            Inr (map (thread_graph_id E) (filter P (threads d))))))
         (first_row ErrNotFound))"

text \<open>The two-step check before a stream is opened: existence first, visibility second.\<close>

definition ThreadExistsAndAuth :: "env \<Rightarrow> string \<Rightarrow> auth_filter list \<Rightarrow> unit op" where
  "ThreadExistsAndAuth E threadID filters =
     bnd (query (\<lambda>_ d. rb (cast_uuid E threadID) (\<lambda>tid.
            Inr (list_ex (\<lambda>t. t_thread_id t = tid) (threads d))))) (\<lambda>exists.
     if \<not> exists then throw ErrNotFound
     else if filters = [] then ret ()
     else bnd (lift (ApplyToQuery filters ''metadata'' 2)) (\<lambda>(authSQL, authArgs).
          bnd (query (\<lambda>_ d. rb (thread_where E threadID authSQL ([threadID] @ authArgs)) (\<lambda>P.
                 Inr (list_ex P (threads d))))) (\<lambda>passes.
          if \<not> passes then throw ErrForbidden else ret ())))"

section \<open>Create\<close>

text \<open>\<^verbatim>\<open>now() + ($n::float8 * interval '1 second')\<close>: whole microseconds, ties to even, in the range of \<^verbatim>\<open>int64\<close>.\<close>

definition rint :: "rat \<Rightarrow> int" where
  "rint x = (let f = \<lfloor>x\<rfloor>; r = x - of_int f
             in if r < 1 / 2 then f else if r > 1 / 2 then f + 1 else if even f then f else f + 1)"

definition expiry :: "int \<Rightarrow> rat \<Rightarrow> string + int" where
  "expiry t secs =
     (let us = rint (secs * of_int second)
      in if \<bar>us\<bar> < 2 ^ 63 then Inr (t + us) else Inl ''interval out of range'')"

definition expiry_opt :: "int \<Rightarrow> rat option \<Rightarrow> string + int option" where
  "expiry_opt t ttl = (case ttl of None \<Rightarrow> Inr None | Some s \<Rightarrow> rb (expiry t s) (\<lambda>e. Inr (Some e)))"

record CreateThreadInput =
  ct_ThreadID :: string
  ct_Metadata :: "string option"
  ct_Config :: "string option"
  ct_TTLSeconds :: "rat option"
  ct_IfExists :: string
  ct_Filters :: "auth_filter list"

definition new_thread :: "uuid \<Rightarrow> json \<Rightarrow> json \<Rightarrow> int option \<Rightarrow> int \<Rightarrow> thread_row" where
  "new_thread tid meta cfg expires t =
     \<lparr>t_thread_id = tid, t_status = ''idle'', t_created_at = t, t_updated_at = t, t_expires_at = expires,
      t_state_updated_at = None, t_metadata = meta, t_config = cfg, t_values = None, t_interrupts = empty_obj\<rparr>"

text \<open>The row to insert: its id (\<open>gen\<close> is the value of \<^verbatim>\<open>gen_random_uuid()\<close>) and its columns.\<close>

definition create_thread_row :: "env \<Rightarrow> uuid \<Rightarrow> CreateThreadInput \<Rightarrow> int \<Rightarrow> string + thread_row" where
  "create_thread_row E gen ci t =
     rb (if ct_ThreadID ci \<noteq> [] then cast_uuid E (ct_ThreadID ci) else Inr gen) (\<lambda>tid.
     rb (cast_jsonb E (case ct_Metadata ci of None \<Rightarrow> ''{}'' | Some b \<Rightarrow> b)) (\<lambda>meta.
     rb (cast_jsonb E (case ct_Config ci of None \<Rightarrow> ''{}'' | Some b \<Rightarrow> b)) (\<lambda>cfg.
     rb (expiry_opt t (ct_TTLSeconds ci)) (\<lambda>expires.
     Inr (new_thread tid meta cfg expires t)))))"

text \<open>How many arguments stand before those of the filters: id, metadata, config, and the time to live if there is one.\<close>

definition create_thread_args :: "CreateThreadInput \<Rightarrow> string list" where
  "create_thread_args ci =
     (if ct_ThreadID ci \<noteq> [] then [ct_ThreadID ci] else []) @
     [case ct_Metadata ci of None \<Rightarrow> ''{}'' | Some b \<Rightarrow> b, case ct_Config ci of None \<Rightarrow> ''{}'' | Some b \<Rightarrow> b] @
     (case ct_TTLSeconds ci of None \<Rightarrow> [] | Some s \<Rightarrow> [[]])"

text \<open>
  With \<^verbatim>\<open>do_nothing\<close> and an id: insert, or else the existing row if the filters accept it; no row is reported as
  \<^verbatim>\<open>ErrAlreadyExists\<close>. Otherwise a plain insert, whose key violation (code 23505) is \<^verbatim>\<open>ErrAlreadyExists\<close>.
\<close>

definition thread_Create :: "env \<Rightarrow> uuid \<Rightarrow> CreateThreadInput \<Rightarrow> Thread op" where
  "thread_Create E gen ci =
     (if ct_IfExists ci = ''do_nothing'' \<and> ct_ThreadID ci \<noteq> [] then
        bnd (lift (ApplyToQuery (ct_Filters ci) ''metadata'' (length (create_thread_args ci) + 1))) (\<lambda>(authSQL, authArgs).
        bnd (stmt (\<lambda>t d.
               rb (create_thread_row E gen ci t) (\<lambda>th.
               rb (thread_where E (ct_ThreadID ci) authSQL (create_thread_args ci @ authArgs)) (\<lambda>P.
               if list_ex (\<lambda>x. t_thread_id x = t_thread_id th) (threads d)
               then Inr (map threadCols (filter P (threads d)), d)
               else Inr ([threadCols th], d\<lparr>threads := threads d @ [th]\<rparr>)))))
            (first_row ErrAlreadyExists))
      else
        bnd (stmt (\<lambda>t d.
               rb (create_thread_row E gen ci t) (\<lambda>th.
               if list_ex (\<lambda>x. t_thread_id x = t_thread_id th) (threads d) then Inr ([], d)
               else Inr ([threadCols th], d\<lparr>threads := threads d @ [th]\<rparr>))))
            (first_row ErrAlreadyExists))"

section \<open>Patch and delete\<close>

definition upd_threads :: "(thread_row \<Rightarrow> bool) \<Rightarrow> (thread_row \<Rightarrow> thread_row) \<Rightarrow> db \<Rightarrow> db" where
  "upd_threads P f d = d\<lparr>threads := map (\<lambda>t. if P t then f t else t) (threads d)\<rparr>"

record PatchThreadInput =
  pt_Metadata :: string
  pt_Config :: string
  pt_TTLSeconds :: "rat option"

text \<open>The \<^verbatim>\<open>SET\<close> list with its placeholders, and the arguments bound to it.\<close>

datatype thread_set = SetMetadata nat | SetConfig nat | SetExpires nat

datatype patch_arg = PBytes string | PFloat rat

definition patch_sets :: "PatchThreadInput \<Rightarrow> nat \<Rightarrow> thread_set list \<times> patch_arg list" where
  "patch_sets pin idx0 =
     (let sets = []; args = []; idx = idx0;
          (sets, args, idx) = (if pt_Metadata pin \<noteq> []
             then (sets @ [SetMetadata idx], args @ [PBytes (pt_Metadata pin)], idx + 1) else (sets, args, idx));
          (sets, args, idx) = (if pt_Config pin \<noteq> []
             then (sets @ [SetConfig idx], args @ [PBytes (pt_Config pin)], idx + 1) else (sets, args, idx));
          (sets, args, idx) = (case pt_TTLSeconds pin of
             Some s \<Rightarrow> (sets @ [SetExpires idx], args @ [PFloat s], idx + 1) | None \<Rightarrow> (sets, args, idx))
      in (sets, args))"

definition bytes_arg :: "patch_arg list \<Rightarrow> nat \<Rightarrow> string + string" where
  "bytes_arg args i =
     (if 1 \<le> i \<and> i \<le> length args then (case args ! (i - 1) of PBytes b \<Rightarrow> Inr b | PFloat _ \<Rightarrow> Inl ''cannot encode'')
      else Inl ''there is no parameter'')"

definition float_arg :: "patch_arg list \<Rightarrow> nat \<Rightarrow> string + rat" where
  "float_arg args i =
     (if 1 \<le> i \<and> i \<le> length args then (case args ! (i - 1) of PFloat s \<Rightarrow> Inr s | PBytes _ \<Rightarrow> Inl ''cannot encode'')
      else Inl ''there is no parameter'')"

fun apply_set :: "env \<Rightarrow> int \<Rightarrow> patch_arg list \<Rightarrow> thread_set \<Rightarrow> string + (thread_row \<Rightarrow> thread_row)" where
  "apply_set E t args (SetMetadata i) =
     rb (bytes_arg args i) (\<lambda>b. rb (cast_jsonb E b) (\<lambda>j. Inr (\<lambda>th. th\<lparr>t_metadata := jconcat (t_metadata th) j\<rparr>)))"
| "apply_set E t args (SetConfig i) =
     rb (bytes_arg args i) (\<lambda>b. rb (cast_jsonb E b) (\<lambda>j. Inr (\<lambda>th. th\<lparr>t_config := j\<rparr>)))"
| "apply_set E t args (SetExpires i) =
     rb (float_arg args i) (\<lambda>s. rb (expiry t s) (\<lambda>e. Inr (\<lambda>th. th\<lparr>t_expires_at := Some e\<rparr>)))"

definition thread_Patch :: "env \<Rightarrow> string \<Rightarrow> PatchThreadInput \<Rightarrow> auth_filter list \<Rightarrow> Thread op" where
  "thread_Patch E threadID pin filters =
     bnd (lift (ApplyToQuery filters ''metadata'' 2)) (\<lambda>(authSQL, authArgs).
     let (sets, setArgs) = patch_sets pin (2 + length authArgs)
     in if sets = [] then thread_Get E threadID filters
        else let finalArgs = [PBytes threadID] @ map PBytes authArgs @ setArgs
        in bnd (stmt (\<lambda>t d.
             rb (thread_where E threadID authSQL ([threadID] @ authArgs)) (\<lambda>P.
             rb (res_map (apply_set E t finalArgs) sets) (\<lambda>fs.
             let f = (\<lambda>th. fold (\<lambda>g. g) fs th)
             in Inr (map (threadCols \<circ> f) (filter P (threads d)), upd_threads P f d)))))
           (first_row ErrNotFound))"

definition thread_Delete :: "env \<Rightarrow> string \<Rightarrow> auth_filter list \<Rightarrow> uuid op" where
  "thread_Delete E threadID filters =
     bnd (lift (ApplyToQuery filters ''metadata'' 2)) (\<lambda>(authSQL, args).
     bnd (stmt (\<lambda>_ d. rb (thread_where E threadID authSQL ([threadID] @ args)) (\<lambda>P.
            Inr (map t_thread_id (filter P (threads d)), del_threads P d))))
         (first_row ErrNotFound))"

section \<open>Status\<close>

record SetStatusInput =
  ss_ThreadID :: string
  ss_StatusText :: string
  ss_ValuesJSON :: "string option"
  ss_Interrupts :: "string option"
  ss_ExpectedStatus :: "string list"

definition has_inflight :: "uuid \<Rightarrow> db \<Rightarrow> bool" where
  "has_inflight tid d = list_ex (\<lambda>r. r_thread_id r = tid \<and> inflight r) (runs d)"

definition jsonb_opt :: "env \<Rightarrow> string option \<Rightarrow> string + json option" where
  "jsonb_opt E b = (case b of None \<Rightarrow> Inr None | Some s \<Rightarrow> rb (cast_jsonb E s) (\<lambda>j. Inr (Some j)))"

definition setStatusSQL :: "env \<Rightarrow> SetStatusInput \<Rightarrow> int \<Rightarrow> db \<Rightarrow> string + string list \<times> db" where
  "setStatusSQL E si t d =
     rb (jsonb_opt E (ss_ValuesJSON si)) (\<lambda>vals.
     rb (cast_jsonb E (case ss_Interrupts si of None \<Rightarrow> ''{}'' | Some b \<Rightarrow> b)) (\<lambda>intr.
     rb (cast_uuid E (ss_ThreadID si)) (\<lambda>tid.
     let st = (if has_inflight tid d then ''busy'' else ss_StatusText si);
         P = (\<lambda>th. t_thread_id th = tid)
     in Inr (map (\<lambda>_. st) (filter P (threads d)),
             upd_threads P (\<lambda>th. th\<lparr>t_updated_at := t, t_values := vals, t_interrupts := intr, t_status := st\<rparr>) d))))"

text \<open>The result says whether the thread is busy afterwards; a thread that does not exist is no error. With expected
  statuses the row is locked and checked first, in a transaction.\<close>

fun final_busy :: "string list \<Rightarrow> bool" where
  "final_busy [] = False"
| "final_busy (finalStatus # _) = (finalStatus = ''busy'')"

definition guarded_status :: "env \<Rightarrow> SetStatusInput \<Rightarrow> bool txend op" where
  "guarded_status E si =
     bnd (query (\<lambda>_ d. rb (cast_uuid E (ss_ThreadID si)) (\<lambda>tid.
            Inr (map t_status (filter (\<lambda>th. t_thread_id th = tid) (threads d)))))) (\<lambda>cur.
     if cur = [] then ret (Abort False)
     else if hd cur \<notin> set (ss_ExpectedStatus si) then throw ErrFailedPrecondition
     else bnd (stmt (setStatusSQL E si)) (\<lambda>rows.
          if rows = [] then ret (Abort False) else ret (Commit (final_busy rows))))"

definition thread_SetStatus :: "env \<Rightarrow> SetStatusInput \<Rightarrow> bool op" where
  "thread_SetStatus E si =
     (if ss_ExpectedStatus si = [] then bnd (stmt (setStatusSQL E si)) (\<lambda>rows. ret (final_busy rows))
      else in_tx (guarded_status E si))"

record SetJointStatusInput =
  sj_ThreadID :: string
  sj_RunID :: string
  sj_RunStatus :: string
  sj_GraphID :: string
  sj_ValuesJSON :: "string option"
  sj_InterruptsJSON :: "string option"
  sj_Next :: "string list"
  sj_ExceptionJSON :: string

definition joint_base :: "SetJointStatusInput \<Rightarrow> string" where
  "joint_base sj = (if sj_ExceptionJSON sj \<noteq> [] then ''error'' else if sj_Next sj \<noteq> [] then ''interrupted'' else ''idle'')"

definition joint_run_stmt :: "env \<Rightarrow> SetJointStatusInput \<Rightarrow> int \<Rightarrow> db \<Rightarrow> string + unit \<times> db" where
  "joint_run_stmt E sj t d =
     rb (cast_uuid E (sj_RunID sj)) (\<lambda>rid. rb (cast_uuid E (sj_ThreadID sj)) (\<lambda>tid.
     let P = (\<lambda>r. r_run_id r = rid \<and> r_thread_id r = tid)
     in Inr ((), if sj_RunStatus sj = ''rollback'' then del_runs P d
                 else upd_runs P (\<lambda>r. r\<lparr>r_status := sj_RunStatus sj, r_updated_at := t\<rparr>) d)))"

definition joint_thread_stmt :: "env \<Rightarrow> SetJointStatusInput \<Rightarrow> int \<Rightarrow> db \<Rightarrow> string + unit \<times> db" where
  "joint_thread_stmt E sj t d =
     rb (jsonb_opt E (sj_ValuesJSON sj)) (\<lambda>vals.
     rb (cast_jsonb E (case sj_InterruptsJSON sj of None \<Rightarrow> ''{}'' | Some b \<Rightarrow> b)) (\<lambda>intr.
     rb (cast_jsonb E (go_marshal E (JObj [(''graph_id'', JStr (sj_GraphID sj))]))) (\<lambda>gm.
     rb (cast_uuid E (sj_ThreadID sj)) (\<lambda>tid.
     Inr ((), upd_threads (\<lambda>th. t_thread_id th = tid) (\<lambda>th. th\<lparr>t_updated_at := t, t_values := vals,
       t_interrupts := intr, t_metadata := jconcat (t_metadata th) gm,
       t_status := (if has_inflight tid d then ''busy'' else joint_base sj)\<rparr>) d)))))"

definition thread_SetJointStatus :: "env \<Rightarrow> SetJointStatusInput \<Rightarrow> unit op" where
  "thread_SetJointStatus E sj = in_tx (
     bnd (stmt (joint_run_stmt E sj)) (\<lambda>_.
     bnd (stmt (joint_thread_stmt E sj)) (\<lambda>_.
     ret (Commit ()))))"

section \<open>Copy\<close>

text \<open>\<^verbatim>\<open>INSERT ... SELECT gen_random_uuid(), metadata\<close>: the other columns take their defaults.\<close>

definition copy_thread :: "uuid \<Rightarrow> int \<Rightarrow> thread_row list \<Rightarrow> db \<Rightarrow> string + Thread list \<times> db" where
  "copy_thread gen t srcs d =
     (case srcs of
        [] \<Rightarrow> Inr ([], d)
      | src # _ \<Rightarrow>
          if list_ex (\<lambda>x. t_thread_id x = gen) (threads d)
          then Inl ''duplicate key value violates unique constraint thread_pkey''
          else (let th = new_thread gen (t_metadata src) empty_obj None t
                in Inr ([threadCols th], d\<lparr>threads := threads d @ [th]\<rparr>)))"

definition copyRow :: "env \<Rightarrow> uuid \<Rightarrow> string \<Rightarrow> auth_filter list \<Rightarrow> Thread op" where
  "copyRow E gen srcThreadID filters =
     bnd (lift (ApplyToQuery filters ''metadata'' 2)) (\<lambda>(authSQL, args).
     bnd (stmt (\<lambda>t d. rb (thread_where E srcThreadID authSQL ([srcThreadID] @ args)) (\<lambda>P.
            copy_thread gen t (filter P (threads d)) d)))
         (first_row ErrNotFound))"

definition thread_Copy :: "env \<Rightarrow> uuid \<Rightarrow> string \<Rightarrow> auth_filter list \<Rightarrow> Thread op" where
  "thread_Copy E gen srcThreadID filters = copyRow E gen srcThreadID filters"

definition thread_CopyTx :: "env \<Rightarrow> uuid \<Rightarrow> string \<Rightarrow> auth_filter list \<Rightarrow> Thread op" where
  "thread_CopyTx E gen srcThreadID filters = copyRow E gen srcThreadID filters"

section \<open>Expiry\<close>

text \<open>One \<^verbatim>\<open>DELETE\<close> of the sweeper (\<^verbatim>\<open>internal/threads/ttl.go\<close>): at most \<open>batch\<close> threads that have expired, with all that
  belongs to them. \<^verbatim>\<open>LIMIT\<close> without \<^verbatim>\<open>ORDER BY\<close> may pick any of them; the model takes the first.\<close>

definition thread_expired :: "int \<Rightarrow> thread_row \<Rightarrow> bool" where
  "thread_expired t th = (case t_expires_at th of None \<Rightarrow> False | Some e \<Rightarrow> e < t)"

definition ttl_batch :: "nat \<Rightarrow> int \<Rightarrow> db \<Rightarrow> string + nat \<times> db" where
  "ttl_batch batch t d =
     (let ids = map t_thread_id (take batch (filter (thread_expired t) (threads d)));
          P = (\<lambda>th. t_thread_id th \<in> set ids)
      in Inr (length (filter P (threads d)), del_threads P d))"

definition batchSize :: nat where
  "batchSize = 100"

text \<open>The loop ends because every full batch removes rows.\<close>

function ttl_loop :: "unit op" where
  "ttl_loop w =
     (case stmt (ttl_batch batchSize) w of
        (Inl e, w') \<Rightarrow> (Inl e, w')
      | (Inr n, w') \<Rightarrow> if n < batchSize then (Inr (), w') else ttl_loop w')"
  by pat_completeness auto

lemma del_threads_count:
  "length (filter P (threads d)) + length (threads (del_threads P d)) = length (threads d)"
  using sum_length_filter_compl[of P "threads d"] by (simp add: del_threads_def Let_def del_runs_def)

lemma ttl_batch_shrinks:
  "stmt (ttl_batch b) w = (Inr n, w') \<Longrightarrow> n + length (threads (db w')) = length (threads (db w))"
  by (auto simp: res_iff ttl_batch_def Let_def del_threads_count)

termination ttl_loop
  by (relation "measure (\<lambda>w. length (threads (db w)))")
    (auto simp: batchSize_def dest!: sym[THEN ttl_batch_shrinks])

declare ttl_loop.simps [simp del]

text \<open>
  One tick: a connection, the advisory lock (\<open>leader\<close>: whether this replica got it), the loop, and the
  unlock, whose error is ignored.
\<close>

definition ttlSweepTick :: "bool \<Rightarrow> unit op" where
  "ttlSweepTick leader =
     bnd (query (\<lambda>_ d. Inr ())) (\<lambda>_.
     bnd (query (\<lambda>_ d. Inr leader)) (\<lambda>locked.
     if \<not> locked then ret ()
     else bnd (attempt ttl_loop) (\<lambda>res.
          bnd (attempt (query (\<lambda>_ d. Inr ()))) (\<lambda>_. lift res))))"

end
