(* ===== verification/Runs_Integrity.thy ===== *)
theory Runs_Integrity
  imports Runs_Store
begin

text \<open>
  What the statements of the run store do to the tables: their frame (tables and columns they leave
  alone), and that each operation keeps the primary and foreign keys of the schema (\<open>db_ok\<close>),
  whatever it returns and whichever call to the database fails.
\<close>

section \<open>Frame of the statements\<close>

lemma upd_runs_frame [simp, frame]:
  "threads (upd_runs P f d) = threads d" "assistants (upd_runs P f d) = assistants d"
  "versions (upd_runs P f d) = versions d" "checkpoints (upd_runs P f d) = checkpoints d"
  "writes (upd_runs P f d) = writes d" "blobs (upd_runs P f d) = blobs d"
  "crons (upd_runs P f d) = crons d"
  by (simp_all add: upd_runs_def)

lemma runs_upd_runs [simp]: "runs (upd_runs P f d) = map (\<lambda>r. if P r then f r else r) (runs d)"
  by (simp add: upd_runs_def)

lemma upd_runs_id [simp]: "upd_runs (\<lambda>r. False) f d = d"
  by (simp add: upd_runs_def)

lemma del_runs_frame [simp, frame]:
  "threads (del_runs P d) = threads d" "assistants (del_runs P d) = assistants d"
  "versions (del_runs P d) = versions d" "writes (del_runs P d) = writes d"
  "blobs (del_runs P d) = blobs d" "crons (del_runs P d) = crons d"
  by (simp_all add: del_runs_def Let_def)

lemma runs_del_runs [simp]: "runs (del_runs P d) = filter (\<lambda>r. \<not> P r) (runs d)"
  by (simp add: del_runs_def Let_def)

lemma checkpoints_del_runs: "set (checkpoints (del_runs P d)) =
  {c \<in> set (checkpoints d). \<forall>i \<in> set_option (c_run_id c). i \<notin> r_run_id ` {r \<in> set (runs d). P r}}"
  by (auto simp: del_runs_def Let_def)

text \<open>Columns an update of a run never touches.\<close>

definition same_keys :: "(run_row \<Rightarrow> run_row) \<Rightarrow> bool" where
  "same_keys f \<longleftrightarrow> (\<forall>r. r_run_id (f r) = r_run_id r \<and> r_thread_id (f r) = r_thread_id r \<and>
                        r_assistant_id (f r) = r_assistant_id r)"

lemma same_keys_claim [simp]: "same_keys (claim ttl t)"
  by (simp add: same_keys_def claim_def)

lemma claim_simps [simp]:
  "r_run_id (claim ttl t r) = r_run_id r" "r_thread_id (claim ttl t r) = r_thread_id r"
  "r_attempt (claim ttl t r) = r_attempt r + 1" "r_status (claim ttl t r) = ''running''"
  "r_lease_generation (claim ttl t r) = r_lease_generation r + 1"
  by (simp_all add: claim_def)

lemma same_keys_requeue [simp]: "same_keys (requeue t)"
  by (simp add: same_keys_def requeue_def)

lemma upd_runs_ids: "same_keys f \<Longrightarrow> map r_run_id (runs (upd_runs P f d)) = map r_run_id (runs d)"
  by (simp add: same_keys_def)

lemma upd_runs_ok: "same_keys f \<Longrightarrow> db_ok d \<Longrightarrow> db_ok (upd_runs P f d)"
proof -
  assume f: "same_keys f" and ok: "db_ok d"
  have ids: "r_run_id ` set (runs (upd_runs P f d)) = r_run_id ` set (runs d)"
    using upd_runs_ids[OF f, of P d] by (metis list.set_map)
  have "keys_ok (upd_runs P f d)"
    using ok upd_runs_ids[OF f, of P d] by (simp add: db_ok_def keys_ok_def del: runs_upd_runs)
  moreover have "refs_ok (upd_runs P f d)"
    using ok f ids unfolding db_ok_def refs_ok_def same_keys_def by auto
  ultimately show ?thesis by (simp add: db_ok_def)
qed

lemma del_runs_ok: "db_ok d \<Longrightarrow> db_ok (del_runs P d)"
proof -
  assume ok: "db_ok d"
  have "keys_ok (del_runs P d)"
    using ok by (simp add: db_ok_def keys_ok_def distinct_map_filter)
  moreover have "refs_ok (del_runs P d)"
    using ok unfolding db_ok_def refs_ok_def by (auto simp: checkpoints_del_runs) blast
  ultimately show ?thesis by (simp add: db_ok_def)
qed

lemma del_writes_ok: "db_ok d \<Longrightarrow> db_ok (d\<lparr>writes := filter P (writes d)\<rparr>)"
  by (simp add: db_ok_def keys_ok_def refs_ok_def)

lemma delete_run_stmt_ok: "db_ok d \<Longrightarrow> delete_run_stmt S d = (ids, d') \<Longrightarrow> db_ok d'"
  by (auto simp: delete_run_stmt_def Let_def intro: del_runs_ok del_writes_ok)

section \<open>The join with thread\<close>

text \<open>With the keys in order every run has exactly one thread, so the join keeps the runs as they are.\<close>

lemma run_join_thread_eq:
  assumes "db_ok d"
  shows "run_join_thread d = map (\<lambda>r. (r, the (find (\<lambda>t. t_thread_id t = r_thread_id r) (threads d)))) (runs d)"
proof -
  have "map (\<lambda>t. (r, t)) (filter (\<lambda>t. t_thread_id t = r_thread_id r) (threads d)) =
        [(r, the (find (\<lambda>t. t_thread_id t = r_thread_id r) (threads d)))]" if "r \<in> set (runs d)" for r
  proof -
    from assms that obtain t where t: "t \<in> set (threads d)" "t_thread_id t = r_thread_id r"
      by (force simp: db_ok_def refs_ok_def)
    with assms have "filter (\<lambda>t. t_thread_id t = r_thread_id r) (threads d) = [t]"
      using filter_key_single[of t_thread_id "threads d" t] by (simp add: db_ok_def keys_ok_def)
    moreover from this have "find (\<lambda>t. t_thread_id t = r_thread_id r) (threads d) = Some t"
      by (simp add: find_filter)
    ultimately show ?thesis by simp
  qed
  then have "concat (map (\<lambda>r. map (\<lambda>t. (r, t)) (filter (\<lambda>t. t_thread_id t = r_thread_id r) (threads d))) (runs d)) =
        concat (map (\<lambda>r. [(r, the (find (\<lambda>t. t_thread_id t = r_thread_id r) (threads d)))]) (runs d))"
    by (intro arg_cong[where f = concat] map_cong) auto
  then show ?thesis
    by (simp add: run_join_thread_def)
qed

definition thread_of :: "db \<Rightarrow> run_row \<Rightarrow> thread_row" where
  "thread_of d r = the (find (\<lambda>t. t_thread_id t = r_thread_id r) (threads d))"

lemma join_thread_filter:
  assumes "db_ok d" and "\<And>r. r \<in> set (runs d) \<Longrightarrow> P r (thread_of d r) = Q r"
  shows "map fst (filter (\<lambda>(r, t). P r t) (run_join_thread d)) = filter Q (runs d)"
proof -
  have "map fst (filter (\<lambda>(r, t). P r t) (map (\<lambda>r. (r, thread_of d r)) rs)) = filter Q rs"
    if "set rs \<subseteq> set (runs d)" for rs
    using that assms(2) by (induction rs) auto
  then show ?thesis
    by (simp add: run_join_thread_eq[OF assms(1)] thread_of_def[symmetric])
qed

lemma thread_of:
  assumes "db_ok d" and "r \<in> set (runs d)"
  shows "thread_of d r \<in> set (threads d)" and "t_thread_id (thread_of d r) = r_thread_id r"
proof -
  from assms obtain t' where "t' \<in> set (threads d)" "t_thread_id t' = r_thread_id r"
    by (force simp: db_ok_def refs_ok_def)
  then obtain t where "find (\<lambda>t. t_thread_id t = r_thread_id r) (threads d) = Some t"
    using find_in_set[of t' "threads d" "\<lambda>t. t_thread_id t = r_thread_id r"] by blast
  then show "thread_of d r \<in> set (threads d)" "t_thread_id (thread_of d r) = r_thread_id r"
    using find_Some_iff' unfolding thread_of_def by fastforce+
qed

section \<open>Statements of Create\<close>

lemma insert_thread_frame [simp, frame]:
  "runs (insert_thread tid m c aid t d) = runs d"
  "assistants (insert_thread tid m c aid t d) = assistants d"
  "checkpoints (insert_thread tid m c aid t d) = checkpoints d"
  "writes (insert_thread tid m c aid t d) = writes d"
  "blobs (insert_thread tid m c aid t d) = blobs d"
  "crons (insert_thread tid m c aid t d) = crons d"
  "versions (insert_thread tid m c aid t d) = versions d"
  by (auto simp: insert_thread_def split: option.splits)

lemma insert_thread_ok: "db_ok d \<Longrightarrow> db_ok (insert_thread tid m c aid t d)"
  by (auto simp: insert_thread_def db_ok_def keys_ok_def refs_ok_def list_ex_iff split: option.splits)

lemma update_thread_row_key: "update_thread_row a rc th = Inr th' \<Longrightarrow> t_thread_id th' = t_thread_id th"
  by (auto simp: update_thread_row_def res_iff)

lemma update_thread_ids:
  assumes "update_thread tid aid rc d = Inr d'"
  shows "map t_thread_id (threads d') = map t_thread_id (threads d)"
    and "runs d' = runs d" and "assistants d' = assistants d" and "checkpoints d' = checkpoints d"
    and "writes d' = writes d" and "blobs d' = blobs d" and "crons d' = crons d" and "versions d' = versions d"
proof -
  have *: "map t_thread_id ys = map t_thread_id xs"
    if "list_all2 (\<lambda>th y. (if t_thread_id th = tid \<and> t_status th \<noteq> ''busy''
            then update_thread_row a rc th else Inr th) = Inr y) xs ys" for xs ys a
    using that by (induction rule: list_all2_induct) (auto simp: update_thread_row_key split: if_splits)
  show "map t_thread_id (threads d') = map t_thread_id (threads d)"
    using assms by (auto simp: update_thread_def res_iff dest: * split: option.splits)
qed (use assms in \<open>auto simp: update_thread_def res_iff split: option.splits\<close>)

lemma update_thread_ok:
  assumes "db_ok d" and "update_thread tid aid rc d = Inr d'"
  shows "db_ok d'"
proof -
  have "t_thread_id ` set (threads d') = t_thread_id ` set (threads d)"
    using update_thread_ids(1)[OF assms(2)] by (metis list.set_map)
  with assms(1) update_thread_ids[OF assms(2)] show ?thesis
    by (simp add: db_ok_def keys_ok_def refs_ok_def)
qed

lemma new_run_keys [simp]:
  "r_run_id (new_run E ci rid kw m enc t a th) = rid"
  "r_thread_id (new_run E ci rid kw m enc t a th) = t_thread_id th"
  "r_assistant_id (new_run E ci rid kw m enc t a th) = a_assistant_id a"
  by (simp_all add: new_run_def Let_def)

lemma insert_run_cases:
  assumes "insert_run E ci gen t d = Inr (rows, d')"
  obtains (none) "rows = []" "d' = d"
  | (one) rid tid aid kw m enc a th where
      "rid = (if ci_RunID ci = [] then gen else the (pg_uuid E (ci_RunID ci)))"
      "ci_RunID ci \<noteq> [] \<Longrightarrow> pg_uuid E (ci_RunID ci) = Some rid"
      "pg_uuid E (ci_ThreadID ci) = Some tid" "pg_uuid E (ci_AssistantID ci) = Some aid"
      "pg_jsonb E (the (ci_KwargsJSON ci)) = Some kw" "pg_jsonb E (the (ci_Metadata ci)) = Some m"
      "find (\<lambda>a. a_assistant_id a = aid) (assistants d) = Some a"
      "find (\<lambda>th. t_thread_id th = tid) (threads d) = Some th"
      "rid \<notin> r_run_id ` set (runs d)"
      "rows = [scanRun (new_run E ci rid kw m enc t a th)]"
      "d' = d\<lparr>runs := runs d @ [new_run E ci rid kw m enc t a th]\<rparr>"
proof -
  from assms obtain rid tid aid kw m enc where
      c: "(if ci_RunID ci = [] then Inr gen else cast_uuid E (ci_RunID ci)) = Inr rid"
        "pg_uuid E (ci_ThreadID ci) = Some tid" "pg_uuid E (ci_AssistantID ci) = Some aid"
        "pg_jsonb E (the (ci_KwargsJSON ci)) = Some kw" "pg_jsonb E (the (ci_Metadata ci)) = Some m" and
      r: "(case (find (\<lambda>a. a_assistant_id a = aid) (assistants d), find (\<lambda>th. t_thread_id th = tid) (threads d)) of
       (Some a, Some th) \<Rightarrow>
         if list_ex (\<lambda>r. r_run_id r = rid) (runs d)
         then Inl ''duplicate key value violates unique constraint run_pkey''
         else (let r = new_run E ci rid kw m enc t a th
               in Inr ([scanRun r], d\<lparr>runs := runs d @ [r]\<rparr>))
     | _ \<Rightarrow> Inr ([], d)) = Inr (rows, d')"
    unfolding insert_run_def res_iff by blast
  show thesis
  proof (cases "\<exists>a th. find (\<lambda>a. a_assistant_id a = aid) (assistants d) = Some a \<and>
                   find (\<lambda>th. t_thread_id th = tid) (threads d) = Some th")
    case True
    then obtain a th where f: "find (\<lambda>a. a_assistant_id a = aid) (assistants d) = Some a"
        "find (\<lambda>th. t_thread_id th = tid) (threads d) = Some th" by blast
    have "rid \<notin> r_run_id ` set (runs d)" "rows = [scanRun (new_run E ci rid kw m enc t a th)]"
        "d' = d\<lparr>runs := runs d @ [new_run E ci rid kw m enc t a th]\<rparr>"
      using r f by (auto simp: Let_def list_ex_iff split: if_splits)
    with c f show thesis by (intro one) (auto simp: res_iff split: if_splits)
  next
    case False
    with r show thesis by (intro none) (auto split: option.splits)
  qed
qed

lemma insert_run_ok:
  assumes "db_ok d" and "insert_run E ci gen t d = Inr (rows, d')"
  shows "db_ok d'"
  using assms(2)
proof (cases rule: insert_run_cases)
  case none
  with assms(1) show ?thesis by simp
next
  case (one rid tid aid kw m enc a th)
  have "a \<in> set (assistants d)" "th \<in> set (threads d)"
    using one(7,8) find_Some_iff' by fast+
  with assms(1) one(9,11) show ?thesis
    by (auto simp: db_ok_def keys_ok_def refs_ok_def)
qed

section \<open>Operations\<close>

text \<open>The reads of the store write nothing.\<close>

lemma keeps_run_Get [intro!]: "keeps I (run_Get E rid tid fs)"
  by (auto simp: run_Get_def case_prod_beta intro!: keeps_intro)

lemma keeps_refetch [intro!]: "keeps I (refetch E is)"
  by (induction "is") (auto intro!: keeps_intro keeps_run_Get)

lemma keeps_PublishExistsAndAuth [intro!]: "keeps I (PublishExistsAndAuth E rid tid fs)"
  by (auto simp: PublishExistsAndAuth_def case_prod_beta intro!: keeps_intro)

lemma keeps_guards [intro!, keeps_intro]:
  "keeps I (assistant_guard E aid fs)" "keeps I (thread_guard E tid fs)" "keeps I (multitask_guard E ci)"
  unfolding assistant_guard_def thread_guard_def multitask_guard_def by (intro keeps_intro)+

lemma keeps_run_Create:
  assumes thread: "\<And>tid m c aid t d. I d \<Longrightarrow> I (insert_thread tid m c aid t d)"
    and busy: "\<And>tid aid c d d'. I d \<Longrightarrow> update_thread tid aid c d = Inr d' \<Longrightarrow> I d'"
    and ins: "\<And>t d rows d'. I d \<Longrightarrow> insert_run E (create_input nt ci) gen t d = Inr (rows, d') \<Longrightarrow> I d'"
  shows "keeps I (run_Create E nt gen ci tf af)"
proof -
  have "keeps I (auto_create_thread E ci' c)" "keeps I (touch_thread E ci' c)" for ci' c
    unfolding auto_create_thread_def touch_thread_def
    by (rule keeps_stmt, auto simp: res_iff thread busy)+
  moreover have "keeps I (stmt (insert_run E (create_input nt ci) gen))"
    by (rule keeps_stmt) (rule ins)
  ultimately show ?thesis
    unfolding run_Create_def Let_def by (intro keeps_intro)
qed

section \<open>Invariants of the store\<close>

text \<open>
  What a property of the tables must survive for the operations of the store to keep it. \<open>U\<close> is a
  class of row updates the property tolerates; the updates of the heartbeat, of \<^verbatim>\<open>MarkDone\<close>, of the two
  kinds of cancellation and of the sweeper have to belong to it.
\<close>

locale run_ops =
  fixes I :: "db \<Rightarrow> bool" and U :: "(run_row \<Rightarrow> run_row) \<Rightarrow> bool"
  assumes upd: "U f \<Longrightarrow> I d \<Longrightarrow> I (upd_runs P f d)"
    and del: "I d \<Longrightarrow> I (del_runs P d)"
    and del_writes: "I d \<Longrightarrow> I (d\<lparr>writes := filter Q (writes d)\<rparr>)"
    and U_heartbeat: "U (\<lambda>r. r\<lparr>r_lease_expires_at := e, r_updated_at := t\<rparr>)"
    and U_done: "U (\<lambda>r. r\<lparr>r_updated_at := t, r_lease_holder_id := None, r_lease_expires_at := None\<rparr>)"
    and U_interrupt: "U (\<lambda>r. r\<lparr>r_status := ''interrupted'', r_cancel_requested_at := c, r_updated_at := t\<rparr>)"
    and U_cancel: "U (\<lambda>r. r\<lparr>r_cancel_requested_at := c, r_updated_at := t\<rparr>)"
    and U_requeue: "U (requeue t)"
begin

lemma keeps_ExtendLease: "keeps I (run_ExtendLease E ttl rid h)"
  unfolding run_ExtendLease_def Let_def
  by (intro keeps_bnd keeps_stmt) (auto simp: res_iff intro!: upd U_heartbeat keeps_intro)

lemma keeps_MarkDone: "keeps I (run_MarkDone E rid)"
  unfolding run_MarkDone_def
  by (intro keeps_stmt) (auto simp: res_iff intro!: upd U_done)

lemma keeps_delete_stmt: "I d \<Longrightarrow> delete_run_stmt S d = (ids, d') \<Longrightarrow> I d'"
  by (auto simp: delete_run_stmt_def Let_def intro: del del_writes)

lemma keeps_Delete: "keeps I (run_Delete E rid tid fs)"
proof -
  have "keeps I (stmt (\<lambda>_ d. rb (cast_uuid E rid) (\<lambda>r. rb (cast_uuid E tid) (\<lambda>t.
          rb (auth_where E a fr) (\<lambda>ok. Inr (delete_run_stmt (S d r t ok) d))))))"
       "keeps I (stmt (\<lambda>_ d. rb (cast_uuid E rid) (\<lambda>r.
          rb (auth_where E a fr) (\<lambda>ok. Inr (delete_run_stmt (S' d r ok) d)))))" for a fr S S'
    by (intro keeps_stmt, auto simp: res_iff intro: keeps_delete_stmt)+
  then show ?thesis
    by (auto simp: run_Delete_def case_prod_beta intro!: keeps_bnd keeps_lift keeps_first_row)
qed

lemma keeps_CancelWithAction: "keeps I (run_CancelWithAction E ids tid act fs)"
  unfolding run_CancelWithAction_def Let_def
  by (auto simp: case_prod_beta res_iff
      intro!: keeps_bnd keeps_lift keeps_ret keeps_stmt upd del U_interrupt U_cancel)

lemma keeps_CancelByStatus: "keeps I (run_CancelByStatus E ss fs)"
  unfolding run_CancelByStatus_def Let_def
  by (auto simp: case_prod_beta res_iff intro!: keeps_bnd keeps_lift keeps_ret keeps_stmt upd U_cancel)

lemma keeps_sweep_one: "keeps I (sweep_one i)"
  unfolding sweep_one_def
  by (auto intro!: keeps_bnd keeps_in_tx keeps_query keeps_ret keeps_stmt keeps_first_row upd U_requeue)

lemma keeps_sweep_loop: "keeps I (sweep_loop is swept)"
proof (induction "is" arbitrary: swept)
  case Nil
  show ?case by (simp add: keeps_ret)
next
  case (Cons i "is")
  have "keeps I (bnd (attempt (sweep_one i)) (\<lambda>r.
          sweep_loop is (case r of Inr True \<Rightarrow> swept @ [i] | _ \<Rightarrow> swept)))"
    by (intro keeps_bnd keeps_attempt keeps_sweep_one Cons.IH)
  then show ?case
    by (auto simp: keeps_def split: option.splits)
qed

lemma keeps_Sweep: "keeps I run_Sweep"
proof (rule keepsI)
  fix w r w' assume ok: "I (db w)" and run: "run_Sweep w = (r, w')"
  obtain q w1 where q: "query (\<lambda>t d. Inr (map r_run_id (filter (expired t) (runs d)))) w = (q, w1)"
    by fastforce
  have "I (db w1)"
    using keepsD[where I = I, OF keeps_query ok q] .
  with run q show "I (db w')"
    by (cases q) (auto simp: run_Sweep_def dest: keepsD[OF keeps_sweep_loop])
qed

lemma keeps_SetStatus:
  "(\<And>t. U (\<lambda>r. r\<lparr>r_status := s, r_updated_at := t\<rparr>)) \<Longrightarrow> keeps I (run_SetStatus E rid s)"
  unfolding run_SetStatus_def
  by (intro keeps_stmt) (auto simp: res_iff intro!: upd)

lemma keeps_Next: "(\<And>t. U (claim ttl t)) \<Longrightarrow> keeps I (run_Next E ttl n)"
  unfolding run_Next_def Let_def
  by (auto intro!: keeps_bnd keeps_in_tx keeps_query keeps_ret keeps_stmt keeps_refetch upd)

end

text \<open>A property that tolerates every update and insertion of the store is kept by all of it.\<close>

locale run_inv = run_ops +
  assumes U_status: "U (\<lambda>r. r\<lparr>r_status := s, r_updated_at := t\<rparr>)"
    and U_claim: "U (claim ttl t)"
    and ins_thread: "I d \<Longrightarrow> I (insert_thread tid m c aid t d)"
    and upd_thread: "I d \<Longrightarrow> update_thread tid aid c d = Inr d' \<Longrightarrow> I d'"
    and ins_run: "I d \<Longrightarrow> insert_run E ci gen t d = Inr (rows, d') \<Longrightarrow> I d'"
begin

lemma keeps_Create_all: "keeps I (run_Create E nt gen ci tf af)"
  using ins_thread upd_thread ins_run by (intro keeps_run_Create)

lemmas keeps_all = keeps_Create_all keeps_Delete keeps_CancelWithAction keeps_CancelByStatus
  keeps_SetStatus[OF U_status] keeps_MarkDone keeps_Next[OF U_claim] keeps_Sweep keeps_ExtendLease

end

interpretation integrity: run_inv db_ok same_keys
  by unfold_locales
    (auto simp: same_keys_def claim_def requeue_def del_writes_ok del_runs_ok insert_thread_ok
      intro: upd_runs_ok update_thread_ok insert_run_ok)

section \<open>Attempts and generations\<close>

text \<open>The fencing counters: an attempt is never counted without a new lease generation.\<close>

definition counters_ok :: "db \<Rightarrow> bool" where
  "counters_ok d = (\<forall>r \<in> set (runs d). 0 \<le> r_attempt r \<and> r_attempt r \<le> r_lease_generation r)"

definition counters_grow :: "(run_row \<Rightarrow> run_row) \<Rightarrow> bool" where
  "counters_grow f \<longleftrightarrow> (\<forall>r. r_attempt r \<le> r_attempt (f r) \<and>
     r_attempt (f r) - r_attempt r \<le> r_lease_generation (f r) - r_lease_generation r)"

lemma counters_upd: "counters_grow f \<Longrightarrow> counters_ok d \<Longrightarrow> counters_ok (upd_runs P f d)"
proof -
  assume f: "counters_grow f" and ok: "counters_ok d"
  have "0 \<le> r_attempt (f r) \<and> r_attempt (f r) \<le> r_lease_generation (f r)" if "r \<in> set (runs d)" for r
    using f[unfolded counters_grow_def, rule_format, of r] ok[unfolded counters_ok_def, rule_format, OF that]
    by linarith
  then show ?thesis
    using ok by (auto simp: counters_ok_def)
qed

lemma counters_insert: "counters_ok d \<Longrightarrow> insert_run E ci gen t d = Inr (rows, d') \<Longrightarrow> counters_ok d'"
  by (erule insert_run_cases) (auto simp: counters_ok_def new_run_def Let_def)

interpretation counters: run_inv counters_ok counters_grow
  by unfold_locales
    (auto simp: counters_grow_def requeue_def claim_def counters_insert update_thread_ids(2)
      intro: counters_upd, auto simp: counters_ok_def update_thread_ids(2))

end
