(* ===== verification/Sample.thy ===== *)
theory Sample
  imports Runs_Integrity
begin

text \<open>
  A small concrete installation, used where a theorem is applied to an input: casts that accept every
  non-empty id and the empty JSON object, one assistant, two threads and three runs: \<open>r1\<close> is due,
  \<open>r2\<close> waits behind it on the same thread, \<open>r3\<close> is running with a lease that has run out.
\<close>

definition sample_env :: env where
  "sample_env = \<lparr>pg_uuid = (\<lambda>s. if s = [] then None else Some s),
     go_uuid = (\<lambda>s. if s = [] then None else Some s),
     pg_jsonb = (\<lambda>s. if s = ''{}'' then Some empty_obj else None),
     pg_text = (\<lambda>j. ''{}''), go_json = (\<lambda>s. if s = ''{}'' then Some empty_obj else None),
     go_marshal = (\<lambda>j. ''{}'')\<rparr>"

definition sample_run :: "uuid \<Rightarrow> uuid \<Rightarrow> string \<Rightarrow> int \<Rightarrow> run_row" where
  "sample_run i tid st c = \<lparr>r_run_id = i, r_thread_id = tid, r_assistant_id = ''a1'', r_status = st,
     r_kwargs = empty_obj, r_multitask_strategy = ''enqueue'', r_created_at = c, r_updated_at = c,
     r_metadata = empty_obj, r_lease_holder_id = None, r_lease_expires_at = None, r_lease_generation = 0,
     r_cancel_requested_at = None, r_run_after = None, r_attempt = 0, r_encryption_context = None\<rparr>"

definition sample_thread :: "uuid \<Rightarrow> string \<Rightarrow> thread_row" where
  "sample_thread i owner = \<lparr>t_thread_id = i, t_status = ''busy'', t_created_at = 0, t_updated_at = 0,
     t_expires_at = None, t_state_updated_at = None, t_metadata = JObj [(''owner'', JStr owner)],
     t_config = empty_obj, t_values = None, t_interrupts = empty_obj\<rparr>"

definition sample_assistant :: assistant_row where
  "sample_assistant = \<lparr>a_assistant_id = ''a1'', a_graph_id = ''g'', a_version = 1, a_created_at = 0,
     a_updated_at = 0, a_config = empty_obj, a_context = empty_obj, a_metadata = empty_obj,
     a_name = None, a_description = None\<rparr>"

definition sample_db :: db where
  "sample_db = \<lparr>
     runs = [sample_run ''r2'' ''t1'' ''pending'' 20, sample_run ''r1'' ''t1'' ''pending'' 10,
             (sample_run ''r3'' ''t2'' ''running'' 5)\<lparr>r_lease_expires_at := Some 50, r_lease_generation := 1,
               r_attempt := 1\<rparr>],
     threads = [sample_thread ''t1'' ''ann'', sample_thread ''t2'' ''bob''],
     assistants = [sample_assistant], versions = [], checkpoints = [], writes = [], blobs = [], crons = []\<rparr>"

definition sample_world :: world where
  "sample_world = \<lparr>db = sample_db, now = 100, faults = [], redis = []\<rparr>"

definition row_r1 :: run_row where
  "row_r1 = sample_run ''r1'' ''t1'' ''pending'' 10"

lemmas sample_defs = sample_env_def sample_run_def sample_thread_def sample_assistant_def sample_db_def
  sample_world_def row_r1_def

lemma sample_ok: "db_ok (db sample_world)"
  by (simp add: sample_defs db_ok_def keys_ok_def refs_ok_def)

lemma sample_faults: "faults sample_world = []"
  by (simp add: sample_defs)

end
