(* ===== verification/Runs_Read.thy ===== *)
theory Runs_Read
  imports Sample
begin

text \<open>
  The reads of the run store against what they promise: a request sees exactly the runs of threads its filters accept.
  \<open>run_matches\<close> is the abstract search condition; \<open>Get\<close>, \<open>Search\<close>, \<open>Count\<close> and the
  two-step check of \<^verbatim>\<open>Publish\<close> are shown to implement it on a consistent database.
\<close>

section \<open>The condition a request searches for\<close>

text \<open>Which runs a search is about, and whether its arguments can be bound at all.\<close>

definition run_matches :: "env \<Rightarrow> RunSearchInput \<Rightarrow> auth_filter list \<Rightarrow> db \<Rightarrow> run_row \<Rightarrow> bool" where
  "run_matches E si fs d r =
     ((rs_ThreadID si = [] \<or> pg_uuid E (rs_ThreadID si) = Some (r_thread_id r)) \<and>
      (rs_Statuses si = [] \<or> r_status r \<in> set (rs_Statuses si)) \<and>
      (rs_MetadataFilter si = [] \<or> (\<exists>j. pg_jsonb E (rs_MetadataFilter si) = Some j \<and> jcontains (r_metadata r) j)) \<and>
      visible E fs (t_metadata (thread_of d r)))"

definition search_binds :: "env \<Rightarrow> RunSearchInput \<Rightarrow> auth_filter list \<Rightarrow> bool" where
  "search_binds E si fs =
     ((rs_ThreadID si = [] \<or> pg_uuid E (rs_ThreadID si) \<noteq> None) \<and>
      (rs_MetadataFilter si = [] \<or> pg_jsonb E (rs_MetadataFilter si) \<noteq> None) \<and>
      auth_ok E fs)"

lemma visible_Nil [simp]: "visible E [] m"
  by (simp add: visible_def)

lemma emit_not_none: "emit f c i = Inr (fr, a, j) \<Longrightarrow> fr \<noteq> FragNone"
  by (cases f) (auto simp: res_iff split: if_splits)

lemma emit_all_not_none: "emit_all fs c i = Inr (frs, a, j) \<Longrightarrow> FragNone \<notin> set frs"
  by (induction fs arbitrary: i frs a) (auto simp: res_iff dest: emit_not_none)

lemma FragNone_iff:
  assumes "ApplyToQuery fs col idx = Inr (fr, args)"
  shows "fr = FragNone \<longleftrightarrow> fs = []"
proof (cases "fs = []")
  case True
  with assms show ?thesis by (simp add: ApplyToQuery_def)
next
  case False
  with assms obtain parts i where
      e: "emit_all fs col idx = Inr (parts, args, i)" and
      fr: "fr = (if length parts = 1 then parts ! 0 else FragJoin '' AND '' parts)"
    by (auto simp: ApplyToQuery_def res_iff split: if_splits)
  with False emit_all_not_none[OF e] show ?thesis
    by (auto simp: length_Suc_conv)
qed

text \<open>The arguments of the search before those of the filters.\<close>

definition search_args :: "RunSearchInput \<Rightarrow> sqlarg list" where
  "search_args si =
     (if rs_ThreadID si = [] then [] else [AText (rs_ThreadID si)]) @
     (if rs_Statuses si = [] then [] else [ATexts (rs_Statuses si)]) @
     (if rs_MetadataFilter si = [] then [] else [AText (rs_MetadataFilter si)])"

definition search_conds :: "RunSearchInput \<Rightarrow> run_cond list" where
  "search_conds si =
     (let i1 = (if rs_ThreadID si = [] then 1 else 2); i2 = (if rs_Statuses si = [] then i1 else i1 + 1)
      in [CTrue] @ (if rs_ThreadID si = [] then [] else [CThread 1]) @
         (if rs_Statuses si = [] then [] else [CStatusAny i1]) @
         (if rs_MetadataFilter si = [] then [] else [CMetadata i2]))"

lemma run_whereArgs_alt:
  "run_whereArgs si fs =
     rb (ApplyToQuery fs ''thread.metadata'' (Suc (length (search_args si)))) (\<lambda>(authSQL, authArgs).
       if authSQL \<noteq> FragNone
       then Inr (True, search_conds si @ [CAuth authSQL], search_args si @ map AText authArgs,
                 Suc (length (search_args si)) + length authArgs)
       else Inr (False, search_conds si, search_args si, Suc (length (search_args si))))"
  by (simp add: run_whereArgs_def search_args_def search_conds_def Let_def numeral_2_eq_2 cong: if_cong)

lemma search_conds_args:
  "\<exists>ps. res_map (run_cond_where E (search_args si @ rest)) (search_conds si) = Inr ps \<and>
     (\<forall>r cv. list_all (\<lambda>p. p r cv) ps \<longleftrightarrow>
       (rs_ThreadID si = [] \<or> pg_uuid E (rs_ThreadID si) = Some (r_thread_id r)) \<and>
       (rs_Statuses si = [] \<or> r_status r \<in> set (rs_Statuses si)) \<and>
       (rs_MetadataFilter si = [] \<or> (\<exists>j. pg_jsonb E (rs_MetadataFilter si) = Some j \<and> jcontains (r_metadata r) j)))"
  if "rs_ThreadID si = [] \<or> pg_uuid E (rs_ThreadID si) \<noteq> None"
    and "rs_MetadataFilter si = [] \<or> pg_jsonb E (rs_MetadataFilter si) \<noteq> None"
  using that
  by (auto simp: search_args_def search_conds_def Let_def cast_uuid_def cast_jsonb_def)

text \<open>The \<^verbatim>\<open>FROM ... WHERE\<close> of \<^verbatim>\<open>Search\<close> and \<^verbatim>\<open>Count\<close> selects the matching runs, with and without the join.\<close>

lemma run_from_where_spec:
  assumes "db_ok d" and "search_binds E si fs" and "run_whereArgs si fs = Inr (join, conds, args, idx)"
  shows "run_from_where E join conds args d = Inr (filter (run_matches E si fs d) (runs d))"
proof -
  obtain fr authArgs where q: "ApplyToQuery fs ''thread.metadata'' (Suc (length (search_args si))) = Inr (fr, authArgs)"
    using assms(3) by (auto simp: run_whereArgs_alt res_iff)
  obtain ps where ps: "res_map (run_cond_where E (search_args si @ map AText authArgs)) (search_conds si) = Inr ps"
    and sem: "\<And>r cv. list_all (\<lambda>p. p r cv) ps \<longleftrightarrow>
       (rs_ThreadID si = [] \<or> pg_uuid E (rs_ThreadID si) = Some (r_thread_id r)) \<and>
       (rs_Statuses si = [] \<or> r_status r \<in> set (rs_Statuses si)) \<and>
       (rs_MetadataFilter si = [] \<or> (\<exists>j. pg_jsonb E (rs_MetadataFilter si) = Some j \<and> jcontains (r_metadata r) j))"
    using search_conds_args[of si E "map AText authArgs"] assms(2) unfolding search_binds_def by blast
  show ?thesis
  proof (cases "fs = []")
    case True
    then have [simp]: "authArgs = []" using q by (simp add: ApplyToQuery_def)
    have "join = False" "conds = search_conds si" "args = search_args si"
      using assms(3) True by (auto simp: run_whereArgs_alt ApplyToQuery_def)
    with ps sem True show ?thesis
      by (simp add: run_from_where_def run_matches_def[abs_def])
  next
    case False
    then have fr: "fr \<noteq> FragNone" using FragNone_iff[OF q] by simp
    then have eqs: "join = True" "conds = search_conds si @ [CAuth fr]" "args = search_args si @ map AText authArgs"
      using assms(3) q by (auto simp: run_whereArgs_alt)
    let ?pre = "map arg_text (search_args si)"
    have q': "ApplyToQuery fs ''thread.metadata'' (Suc (length ?pre)) = Inr (fr, authArgs)" using q by simp
    have "arg_text \<circ> AText = id" by auto
    then have args: "map arg_text args = ?pre @ authArgs" by (simp add: eqs)
    obtain ok where ok: "auth_where E (?pre @ authArgs) fr = Inr ok"
      using ApplyToQuery_eval(1)[OF q', of E "[]"] assms(2) by (auto simp: auth_where_def search_binds_def auth_ok_def)
    have vis: "ok (joined_cols r t) = visible E fs (t_metadata t)" for r t
      using auth_where_visible[OF q' ok, of "joined_cols r t"] by (simp add: joined_cols_def)
    have "res_map (run_cond_where E args) conds = Inr (ps @ [\<lambda>r cv. ok cv])"
      using ps ok args unfolding eqs(2) by (intro res_map_append) (simp_all add: eqs)
    then show ?thesis
      using join_thread_filter[OF assms(1), of "\<lambda>r t. list_all (\<lambda>p. p r (joined_cols r t)) (ps @ [\<lambda>r cv. ok cv])"
          "run_matches E si fs d"] sem vis
      by (simp add: run_from_where_def eqs(1) run_matches_def)
  qed
qed

lemma run_whereArgs_total: "list_all auth_wf fs \<Longrightarrow> \<exists>x. run_whereArgs si fs = Inr x"
  using ApplyToQuery_isl[of fs "''thread.metadata''" "Suc (length (search_args si))"]
  by (cases "ApplyToQuery fs ''thread.metadata'' (Suc (length (search_args si)))")
    (auto simp: run_whereArgs_alt)


definition sample_search :: RunSearchInput where
  "sample_search = \<lparr>rs_ThreadID = ''t1'', rs_Statuses = [''pending''], rs_MetadataFilter = [], rs_Limit = 1, rs_Offset = 0\<rparr>"


section \<open>Lookup by id\<close>

definition run_named :: "env \<Rightarrow> uuid \<Rightarrow> string \<Rightarrow> run_row \<Rightarrow> bool" where
  "run_named E i tid r = (r_run_id r = i \<and> (tid = [] \<or> pg_uuid E tid = Some (r_thread_id r)))"

lemma hd_scan: "first_row ErrNotFound (map f (filter P xs)) w =
  ((case find P xs of Some x \<Rightarrow> Inr (f x) | None \<Rightarrow> Inl ErrNotFound), w)"
  by (induction xs) (auto simp: first_row_def ret_def throw_def)

lemma scan_join:
  assumes "db_ok d" and "\<And>r. r \<in> set (runs d) \<Longrightarrow> P r (thread_of d r) = Q r"
  shows "map (scanRun \<circ> fst) (filter (\<lambda>(r, t). P r t) (run_join_thread d)) = map scanRun (filter Q (runs d))"
  using join_thread_filter[of d P Q, OF assms] by (metis map_map)

text \<open>
  \<^verbatim>\<open>Get\<close> returns the run with the given id, in the given thread if one is named, exactly if the filters accept the
  metadata of its thread; to any other request the run does not exist (\<^verbatim>\<open>ErrNotFound\<close>).
\<close>

theorem get_exact:
  assumes "faults w = []" and "db_ok (db w)" and "auth_ok E fs"
    and "pg_uuid E s = Some i" and "tid = [] \<or> pg_uuid E tid \<noteq> None"
  shows "run_Get E s tid fs w =
    ((case find (\<lambda>r. run_named E i tid r \<and> visible E fs (t_metadata (thread_of (db w) r))) (runs (db w)) of
        Some r \<Rightarrow> Inr (scanRun r) | None \<Rightarrow> Inl ErrNotFound), w)"
proof (cases "tid = []")
  case True
  obtain fr args ok where q: "ApplyToQuery fs ''thread.metadata'' (Suc (length [s])) = Inr (fr, args)"
    and ok: "auth_where E ([s] @ args) fr = Inr ok" "\<And>cv. ok cv = visible E fs (cv ''thread.metadata'')"
    using auth_obtain[OF assms(3)] by blast
  have "map (scanRun \<circ> fst) (filter (\<lambda>(r, t). r_run_id r = i \<and> ok (joined_cols r t)) (run_join_thread (db w))) =
        map scanRun (filter (\<lambda>r. run_named E i tid r \<and> visible E fs (t_metadata (thread_of (db w) r))) (runs (db w)))"
    by (rule scan_join[OF assms(2)]) (simp add: True run_named_def ok(2) joined_cols_def)
  with True q ok(1) assms(1,4) show ?thesis
    by (simp add: run_Get_def numeral_2_eq_2 bnd_def query_run cast_uuid_def hd_scan comp_def)
next
  case False
  with assms(5) obtain j where j: "pg_uuid E tid = Some j" by auto
  obtain fr args ok where q: "ApplyToQuery fs ''thread.metadata'' (Suc (length [s, tid])) = Inr (fr, args)"
    and ok: "auth_where E ([s, tid] @ args) fr = Inr ok" "\<And>cv. ok cv = visible E fs (cv ''thread.metadata'')"
    using auth_obtain[OF assms(3)] by blast
  have "map (scanRun \<circ> fst) (filter (\<lambda>(r, t). r_run_id r = i \<and> r_thread_id r = j \<and> ok (joined_cols r t))
          (run_join_thread (db w))) =
        map scanRun (filter (\<lambda>r. run_named E i tid r \<and> visible E fs (t_metadata (thread_of (db w) r))) (runs (db w)))"
    by (rule scan_join[OF assms(2)]) (auto simp: False j run_named_def ok(2) joined_cols_def)
  with False j q ok(1) assms(1,4) show ?thesis
    by (simp add: run_Get_def numeral_3_eq_3 bnd_def query_run cast_uuid_def hd_scan comp_def)
qed

theorem get_exact_witness: "fst (run_Get sample_env ''r1'' ''t2'' [] sample_world) = Inl ErrNotFound"
  using get_exact[OF sample_faults sample_ok, of sample_env "[]" "''r1''" "''r1''" "''t2''"]
  by (simp add: auth_ok_def run_named_def sample_defs)

lemma ex_join:
  assumes "db_ok d"
  shows "list_ex (\<lambda>(r, t). P r t) (run_join_thread d) = list_ex (\<lambda>r. P r (thread_of d r)) (runs d)"
  by (simp add: run_join_thread_eq[OF assms] thread_of_def[symmetric] list_ex_iff case_prod_beta)

text \<open>
  The check before a publication tells apart a run that does not exist in the thread (\<^verbatim>\<open>ErrNotFound\<close>) and one the filters
  hide (\<^verbatim>\<open>ErrForbidden\<close>); it succeeds exactly for a run of that thread whose thread is visible.
\<close>

theorem publish_check_exact:
  assumes "faults w = []" and "db_ok (db w)" and "auth_ok E fs"
    and "pg_uuid E s = Some i" and "pg_uuid E tid = Some j"
  shows "PublishExistsAndAuth E s tid fs w =
    ((if \<not> list_ex (\<lambda>r. r_run_id r = i \<and> r_thread_id r = j) (runs (db w)) then Inl ErrNotFound
      else if \<not> list_ex (\<lambda>r. r_run_id r = i \<and> r_thread_id r = j \<and> visible E fs (t_metadata (thread_of (db w) r)))
                (runs (db w)) then Inl ErrForbidden
      else Inr ()), w)"
proof -
  obtain fr args ok where q: "ApplyToQuery fs ''thread.metadata'' (Suc (length [s, tid])) = Inr (fr, args)"
    and ok: "auth_where E ([s, tid] @ args) fr = Inr ok" "\<And>cv. ok cv = visible E fs (cv ''thread.metadata'')"
    using auth_obtain[OF assms(3)] by blast
  have "list_ex (\<lambda>(r, t). r_run_id r = i \<and> r_thread_id r = j \<and> ok (joined_cols r t)) (run_join_thread (db w)) =
        list_ex (\<lambda>r. r_run_id r = i \<and> r_thread_id r = j \<and> visible E fs (t_metadata (thread_of (db w) r))) (runs (db w))"
    by (simp add: ex_join[OF assms(2)] ok(2) joined_cols_def)
  moreover have "list_ex (\<lambda>(r, t). r_run_id r = i \<and> r_thread_id r = j) (run_join_thread (db w)) =
        list_ex (\<lambda>r. r_run_id r = i \<and> r_thread_id r = j) (runs (db w))"
    by (simp add: ex_join[OF assms(2)])
  ultimately show ?thesis
    using q ok(1) assms(1,4,5)
    by (simp add: PublishExistsAndAuth_def numeral_3_eq_3 bnd_def query_run cast_uuid_def ret_def throw_def)
qed

theorem publish_check_exact_witness:
  "fst (PublishExistsAndAuth sample_env ''r1'' ''t1'' [EqFilter ''owner'' ''{}''] sample_world) = Inl ErrForbidden"
  using publish_check_exact[OF sample_faults sample_ok, of sample_env "[EqFilter ''owner'' ''{}'']" "''r1''" "''r1''" "''t1''" "''t1''"]
  by (simp add: auth_ok_def visible_def thread_of_def jcontains_def empty_obj_def sample_defs)

end
