(* ===== verification/Threads_Correct.thy ===== *)
theory Threads_Correct
  imports Threads_Store Runs_Read
begin

text \<open>
  What the thread store promises: reads and updates by id act on the one thread that has the id and that the filters
  accept, \<^verbatim>\<open>Search\<close> and \<^verbatim>\<open>Count\<close> implement one condition, the status of a thread follows its runs, and the
  sweeper removes exactly the threads that have expired.
\<close>

section \<open>Selection by id\<close>

definition thread_sel :: "env \<Rightarrow> uuid \<Rightarrow> auth_filter list \<Rightarrow> thread_row \<Rightarrow> bool" where
  "thread_sel E i fs t = (t_thread_id t = i \<and> visible E fs (t_metadata t))"

lemma thread_where_obtain:
  assumes "auth_ok E fs" and "pg_uuid E s = Some i"
  obtains fr args where "ApplyToQuery fs ''metadata'' 2 = Inr (fr, args)"
    and "thread_where E s fr (s # args) = Inr (thread_sel E i fs)"
proof -
  obtain fr args ok where q: "ApplyToQuery fs ''metadata'' (Suc (length [s])) = Inr (fr, args)"
    and ok: "auth_where E ([s] @ args) fr = Inr ok" "\<And>cv. ok cv = visible E fs (cv ''metadata'')"
    using auth_obtain[OF assms(1)] by blast
  with assms(2) that[of fr args] show thesis
    by (simp add: thread_where_def cast_uuid_def numeral_2_eq_2 thread_sel_def[abs_def])
qed

lemma thread_Get_run:
  assumes "faults w = []" and "auth_ok E fs" and "pg_uuid E s = Some i"
  shows "thread_Get E s fs w =
    ((case find (thread_sel E i fs) (threads (db w)) of Some t \<Rightarrow> Inr (threadCols t) | None \<Rightarrow> Inl ErrNotFound), w)"
proof -
  obtain fr args where "ApplyToQuery fs ''metadata'' 2 = Inr (fr, args)"
    and "thread_where E s fr (s # args) = Inr (thread_sel E i fs)"
    using thread_where_obtain[OF assms(2,3)] .
  with assms(1) show ?thesis
    by (simp add: thread_Get_def bnd_def query_run hd_scan)
qed

section \<open>Frame of the statements\<close>

lemma upd_threads_frame [simp, frame]:
  "runs (upd_threads P f d) = runs d" "assistants (upd_threads P f d) = assistants d"
  "versions (upd_threads P f d) = versions d" "checkpoints (upd_threads P f d) = checkpoints d"
  "writes (upd_threads P f d) = writes d" "blobs (upd_threads P f d) = blobs d"
  "crons (upd_threads P f d) = crons d"
  by (simp_all add: upd_threads_def)

lemma threads_upd_threads [simp]:
  "threads (upd_threads P f d) = map (\<lambda>t. if P t then f t else t) (threads d)"
  by (simp add: upd_threads_def)

lemma del_threads_frame [simp, frame]:
  "assistants (del_threads P d) = assistants d" "versions (del_threads P d) = versions d"
  "crons (del_threads P d) = crons d"
  "threads (del_threads P d) = filter (\<lambda>t. \<not> P t) (threads d)"
  "runs (del_threads P d) = filter (\<lambda>r. r_thread_id r \<notin> t_thread_id ` {t \<in> set (threads d). P t}) (runs d)"
  "writes (del_threads P d) = filter (\<lambda>x. w_thread_id x \<notin> t_thread_id ` {t \<in> set (threads d). P t}) (writes d)"
  "blobs (del_threads P d) = filter (\<lambda>x. b_thread_id x \<notin> t_thread_id ` {t \<in> set (threads d). P t}) (blobs d)"
  by (simp_all add: del_threads_def Let_def)

lemma checkpoints_del_threads:
  "set (checkpoints (del_threads P d)) =
     {c \<in> set (checkpoints d). c_thread_id c \<notin> t_thread_id ` {t \<in> set (threads d). P t} \<and>
        (\<forall>i \<in> set_option (c_run_id c).
           i \<notin> r_run_id ` {r \<in> set (runs d). r_thread_id r \<in> t_thread_id ` {t \<in> set (threads d). P t}})}"
  by (auto simp: del_threads_def Let_def checkpoints_del_runs)

lemma del_threads_none: "(\<And>t. t \<in> set (threads d) \<Longrightarrow> \<not> P t) \<Longrightarrow> del_threads P d = d"
  by (auto simp: del_threads_def del_runs_def Let_def filter_id_conv filter_empty_conv
      intro!: db.equality split: option.splits)

text \<open>Updates of threads that keep the id.\<close>

definition same_tid :: "(thread_row \<Rightarrow> thread_row) \<Rightarrow> bool" where
  "same_tid f \<longleftrightarrow> (\<forall>t. t_thread_id (f t) = t_thread_id t)"

lemma upd_threads_ids: "same_tid f \<Longrightarrow> map t_thread_id (threads (upd_threads P f d)) = map t_thread_id (threads d)"
  by (simp add: same_tid_def)

lemma upd_threads_ok:
  assumes "same_tid f" and "db_ok d"
  shows "db_ok (upd_threads P f d)"
proof -
  have "t_thread_id ` set (threads (upd_threads P f d)) = t_thread_id ` set (threads d)"
    using upd_threads_ids[OF assms(1), of P d] by (metis list.set_map)
  with assms(2) upd_threads_ids[OF assms(1), of P d] show ?thesis
    by (simp add: db_ok_def keys_ok_def refs_ok_def del: threads_upd_threads)
qed

lemma add_thread_ok:
  "db_ok d \<Longrightarrow> t_thread_id th \<notin> t_thread_id ` set (threads d) \<Longrightarrow> db_ok (d\<lparr>threads := threads d @ [th]\<rparr>)"
  by (auto simp: db_ok_def keys_ok_def refs_ok_def)

lemma del_threads_ok:
  assumes "db_ok d"
  shows "db_ok (del_threads P d)"
proof -
  have k: "keys_ok (del_threads P d)"
    using assms by (simp add: db_ok_def keys_ok_def distinct_map_filter)
  have "refs_ok (del_threads P d)"
    unfolding refs_ok_def checkpoints_del_threads del_threads_frame
  proof (intro conjI ballI)
    fix c i
    assume "c \<in> {c \<in> set (checkpoints d). c_thread_id c \<notin> t_thread_id ` {t \<in> set (threads d). P t} \<and>
        (\<forall>i \<in> set_option (c_run_id c).
           i \<notin> r_run_id ` {r \<in> set (runs d). r_thread_id r \<in> t_thread_id ` {t \<in> set (threads d). P t}})}"
      and "i \<in> set_option (c_run_id c)"
    with assms show "i \<in> r_run_id ` set (filter (\<lambda>r. r_thread_id r \<notin> t_thread_id ` {t \<in> set (threads d). P t}) (runs d))"
      unfolding db_ok_def refs_ok_def by auto blast
  qed (use assms in \<open>force simp: db_ok_def refs_ok_def\<close>)+
  with k show ?thesis by (simp add: db_ok_def)
qed

section \<open>Invariants of the thread store\<close>

text \<open>
  What an invariant of the tables must satisfy so that every operation of the thread store keeps it: statements on
  threads that keep the ids, new threads with a fresh id, removal with its cascades, and statements on runs from a class \<open>U\<close>.
\<close>

locale thread_ops =
  fixes I :: "db \<Rightarrow> bool" and U :: "(run_row \<Rightarrow> run_row) \<Rightarrow> bool"
  assumes upd_thread: "same_tid f \<Longrightarrow> I d \<Longrightarrow> I (upd_threads P f d)"
    and add_thread: "t_thread_id th \<notin> t_thread_id ` set (threads d) \<Longrightarrow> I d \<Longrightarrow> I (d\<lparr>threads := threads d @ [th]\<rparr>)"
    and del_thread: "I d \<Longrightarrow> I (del_threads P d)"
    and upd_run: "U g \<Longrightarrow> I d \<Longrightarrow> I (upd_runs R g d)"
    and del_run: "I d \<Longrightarrow> I (del_runs R d)"
begin

lemma keeps_Create: "keeps I (thread_Create E gen ci)"
  unfolding thread_Create_def
  by (intro keeps_intro keeps_stmt)
    (auto simp: res_iff list_ex_iff split: if_splits intro!: add_thread)

lemma keeps_Delete: "keeps I (thread_Delete E s fs)"
  unfolding thread_Delete_def by (intro keeps_intro keeps_stmt) (auto simp: res_iff intro: del_thread)

lemma keeps_Get: "keeps I (thread_Get E s fs)"
  unfolding thread_Get_def by (intro keeps_intro)

lemma apply_set_tid: "apply_set E t args x = Inr f \<Longrightarrow> same_tid f"
  by (cases x) (auto simp: res_iff same_tid_def)

lemma fold_same_tid: "(\<And>f. f \<in> set fs \<Longrightarrow> same_tid f) \<Longrightarrow> same_tid (fold (\<lambda>g. g) fs)"
  by (induction fs) (auto simp: same_tid_def)

lemma apply_sets_tid:
  "list_all2 (\<lambda>x y. apply_set E t args x = Inr y) xs fs \<Longrightarrow> same_tid (fold (\<lambda>g. g) fs)"
  by (rule fold_same_tid) (auto simp: list_all2_conv_all_nth in_set_conv_nth dest!: apply_set_tid)

lemma keeps_Patch: "keeps I (thread_Patch E s pin fs)"
  unfolding thread_Patch_def Let_def
  by (intro keeps_intro keeps_stmt keeps_Get) (auto simp: res_iff intro: upd_thread dest: apply_sets_tid)

lemma setStatusSQL_keeps: "I d \<Longrightarrow> setStatusSQL E si t d = Inr (x, d') \<Longrightarrow> I d'"
  by (auto simp: setStatusSQL_def res_iff Let_def same_tid_def intro!: upd_thread)

lemma keeps_SetStatus: "keeps I (thread_SetStatus E si)"
  unfolding thread_SetStatus_def guarded_status_def
  by (intro keeps_intro keeps_stmt) (auto intro: setStatusSQL_keeps)

lemma keeps_SetJointStatus:
  assumes "\<And>t. U (\<lambda>r. r\<lparr>r_status := sj_RunStatus sj, r_updated_at := t\<rparr>)"
  shows "keeps I (thread_SetJointStatus E sj)"
  unfolding thread_SetJointStatus_def
  by (intro keeps_intro keeps_stmt)
    (auto simp: joint_run_stmt_def joint_thread_stmt_def res_iff Let_def same_tid_def
      intro!: upd_thread upd_run del_run assms split: if_splits)

lemma copy_thread_keeps: "I d \<Longrightarrow> copy_thread gen t srcs d = Inr (x, d') \<Longrightarrow> I d'"
  by (cases srcs) (auto simp: copy_thread_def list_ex_iff new_thread_def Let_def split: if_splits intro!: add_thread)

lemma keeps_copyRow: "keeps I (copyRow E gen s fs)"
  unfolding copyRow_def
  by (intro keeps_intro keeps_stmt) (auto simp: res_iff dest: copy_thread_keeps)

lemma keeps_ttl_loop: "keeps I ttl_loop"
proof (rule keepsI)
  fix w r w'
  show "I (db w) \<Longrightarrow> ttl_loop w = (r, w') \<Longrightarrow> I (db w')"
  proof (induction w rule: ttl_loop.induct)
    case (1 w)
    obtain x w1 where s: "stmt (ttl_batch batchSize) w = (x, w1)" by fastforce
    have "keeps I (stmt (ttl_batch batchSize))"
      by (rule keeps_stmt) (auto simp: ttl_batch_def Let_def intro: del_thread)
    then have I1: "I (db w1)" using 1(2) s by (rule keepsD)
    show ?case
    proof (cases x)
      case (Inl e)
      with 1(3) s I1 show ?thesis by (simp add: ttl_loop.simps)
    next
      case (Inr n)
      with 1(3) s I1 1(1)[OF s[symmetric] Inr] show ?thesis
        by (auto simp: ttl_loop.simps[of w] split: if_splits)
    qed
  qed
qed

lemma keeps_ttlSweepTick: "keeps I (ttlSweepTick leader)"
  unfolding ttlSweepTick_def by (intro keeps_intro keeps_ttl_loop)

end

interpretation thread_integrity: thread_ops db_ok same_keys
  by unfold_locales (rule upd_threads_ok add_thread_ok del_threads_ok upd_runs_ok del_runs_ok; assumption)+

section \<open>Search and count\<close>

definition values_filtered :: "env \<Rightarrow> ThreadSearchInput \<Rightarrow> bool" where
  "values_filtered E si = (ts_ValuesFilter si \<noteq> [] \<and> \<not> isEmptyJSONObject E (ts_ValuesFilter si))"

definition thread_matches :: "env \<Rightarrow> ThreadSearchInput \<Rightarrow> auth_filter list \<Rightarrow> thread_row \<Rightarrow> bool" where
  "thread_matches E si fs t =
     ((ts_Status si = [] \<or> t_status t = ts_Status si) \<and>
      (ts_MetadataFilter si = [] \<or> (\<exists>j. pg_jsonb E (ts_MetadataFilter si) = Some j \<and> jcontains (t_metadata t) j)) \<and>
      (values_filtered E si \<longrightarrow>
         (\<exists>j v. pg_jsonb E (ts_ValuesFilter si) = Some j \<and> t_values t = Some v \<and> jcontains v j)) \<and>
      (ts_Ids si = [] \<or> (\<exists>s \<in> set (ts_Ids si). pg_uuid E s = Some (t_thread_id t))) \<and>
      visible E fs (t_metadata t))"

definition thread_search_binds :: "env \<Rightarrow> ThreadSearchInput \<Rightarrow> auth_filter list \<Rightarrow> bool" where
  "thread_search_binds E si fs =
     ((ts_MetadataFilter si = [] \<or> pg_jsonb E (ts_MetadataFilter si) \<noteq> None) \<and>
      (values_filtered E si \<longrightarrow> pg_jsonb E (ts_ValuesFilter si) \<noteq> None) \<and>
      list_all (\<lambda>s. pg_uuid E s \<noteq> None) (ts_Ids si) \<and> auth_ok E fs)"

text \<open>The arguments and conditions before those of the filters.\<close>

definition thread_search_args :: "env \<Rightarrow> ThreadSearchInput \<Rightarrow> sqlarg list" where
  "thread_search_args E si =
     (if ts_Status si = [] then [] else [AText (ts_Status si)]) @
     (if ts_MetadataFilter si = [] then [] else [AText (ts_MetadataFilter si)]) @
     (if values_filtered E si then [AText (ts_ValuesFilter si)] else []) @
     (if ts_Ids si = [] then [] else [ATexts (ts_Ids si)])"

definition thread_search_conds :: "env \<Rightarrow> ThreadSearchInput \<Rightarrow> thread_cond list" where
  "thread_search_conds E si =
     (let i1 = (if ts_Status si = [] then 1 else 2);
          i2 = (if ts_MetadataFilter si = [] then i1 else Suc i1);
          i3 = (if values_filtered E si then Suc i2 else i2)
      in [TTrue] @ (if ts_Status si = [] then [] else [TStatus 1]) @
         (if ts_MetadataFilter si = [] then [] else [TMetadata i1]) @
         (if values_filtered E si then [TValues i2] else []) @
         (if ts_Ids si = [] then [] else [TIds i3]))"

lemma thread_whereArgs_alt:
  "thread_whereArgs E si fs =
     rb (ApplyToQuery fs ''metadata'' (Suc (length (thread_search_args E si)))) (\<lambda>(authSQL, authArgs).
       if authSQL \<noteq> FragNone
       then Inr (thread_search_conds E si @ [TAuth authSQL], thread_search_args E si @ map AText authArgs,
                 Suc (length (thread_search_args E si)) + length authArgs)
       else Inr (thread_search_conds E si, thread_search_args E si, Suc (length (thread_search_args E si))))"
  by (simp add: thread_whereArgs_def thread_search_args_def thread_search_conds_def values_filtered_def Let_def
      numeral_2_eq_2 cong: if_cong)

lemma res_map_uuid:
  "list_all (\<lambda>s. pg_uuid E s \<noteq> None) ss \<Longrightarrow> res_map (cast_uuid E) ss = Inr (map (\<lambda>s. the (pg_uuid E s)) ss)"
  by (rule res_map_total) (auto simp: cast_uuid_def list_all_iff)

lemma ids_in: "list_all (\<lambda>s. pg_uuid E s \<noteq> None) ss \<Longrightarrow>
    i \<in> (\<lambda>s. the (pg_uuid E s)) ` set ss \<longleftrightarrow> (\<exists>s \<in> set ss. pg_uuid E s = Some i)"
  by (force simp: list_all_iff image_iff)

lemma thread_search_conds_args:
  assumes "thread_search_binds E si fs"
  shows "\<exists>ps. res_map (thread_cond_where E (thread_search_args E si @ rest)) (thread_search_conds E si) = Inr ps \<and>
     (\<forall>t. visible E fs (t_metadata t) \<and> list_all (\<lambda>p. p t) ps \<longleftrightarrow> thread_matches E si fs t)"
  using assms
  by (auto simp: thread_search_binds_def thread_search_args_def thread_search_conds_def Let_def cast_jsonb_def
      res_map_uuid ids_in thread_matches_def nth_append numeral_2_eq_2 split: option.splits)

lemma thread_from_where_spec:
  assumes "thread_search_binds E si fs" and "thread_whereArgs E si fs = Inr (conds, args, idx)"
  shows "thread_from_where E conds args d = Inr (filter (thread_matches E si fs) (threads d))"
proof -
  obtain fr authArgs where q: "ApplyToQuery fs ''metadata'' (Suc (length (thread_search_args E si))) = Inr (fr, authArgs)"
    using assms(2) by (auto simp: thread_whereArgs_alt res_iff)
  obtain ps where ps: "res_map (thread_cond_where E (thread_search_args E si @ map AText authArgs)) (thread_search_conds E si) = Inr ps"
    and sem: "\<And>t. visible E fs (t_metadata t) \<and> list_all (\<lambda>p. p t) ps \<longleftrightarrow> thread_matches E si fs t"
    using thread_search_conds_args[OF assms(1), of "map AText authArgs"] by blast
  show ?thesis
  proof (cases "fs = []")
    case True
    then have [simp]: "authArgs = []" using q by (simp add: ApplyToQuery_def)
    have "conds = thread_search_conds E si" "args = thread_search_args E si"
      using assms(2) True by (auto simp: thread_whereArgs_alt ApplyToQuery_def)
    with ps sem True show ?thesis
      by (simp add: thread_from_where_def)
  next
    case False
    then have fr: "fr \<noteq> FragNone" using FragNone_iff[OF q] by simp
    then have eqs: "conds = thread_search_conds E si @ [TAuth fr]" "args = thread_search_args E si @ map AText authArgs"
      using assms(2) q by (auto simp: thread_whereArgs_alt)
    let ?pre = "map arg_text (thread_search_args E si)"
    have q': "ApplyToQuery fs ''metadata'' (Suc (length ?pre)) = Inr (fr, authArgs)" using q by simp
    have "arg_text \<circ> AText = id" by auto
    then have args: "map arg_text args = ?pre @ authArgs" by (simp add: eqs)
    obtain ok where ok: "auth_where E (?pre @ authArgs) fr = Inr ok"
      using ApplyToQuery_eval(1)[OF q', of E "[]"] assms(1)
      by (auto simp: auth_where_def thread_search_binds_def auth_ok_def)
    have vis: "ok (\<lambda>_. t_metadata t) = visible E fs (t_metadata t)" for t
      using auth_where_visible[OF q' ok, of "\<lambda>_. t_metadata t"] by simp
    have "res_map (thread_cond_where E args) conds = Inr (ps @ [\<lambda>t. ok (\<lambda>_. t_metadata t)])"
      using ps ok args unfolding eqs(1) by (intro res_map_append) (simp_all add: eqs)
    moreover have "filter (\<lambda>t. list_all (\<lambda>p. p t) ps \<and> visible E fs (t_metadata t)) (threads d) =
        filter (thread_matches E si fs) (threads d)"
      using sem by (intro filter_cong) auto
    ultimately show ?thesis
      by (simp add: thread_from_where_def vis)
  qed
qed

text \<open>The order a request asks for: one of four columns, ascending or descending, newest first by default.\<close>

definition sort_dir :: "string \<Rightarrow> ('a \<Rightarrow> 'k::linorder) \<Rightarrow> 'a list \<Rightarrow> 'a list" where
  "sort_dir ord k xs = (if ord = ''asc'' then sort_key k xs else sort_desc k xs)"

definition thread_sort :: "string \<Rightarrow> string \<Rightarrow> thread_row list \<Rightarrow> thread_row list" where
  "thread_sort by ord rows =
     (if by = ''thread_id'' then sort_dir ord t_thread_id rows
      else if by = ''status'' then sort_dir ord t_status rows
      else if by = ''created_at'' then sort_dir ord t_created_at rows
      else if by = ''updated_at'' then sort_dir ord t_updated_at rows
      else sort_desc t_created_at rows)"

lemma sort_desc_sorted: "sorted_wrt (\<lambda>x y. k y \<le> k x) (sort_desc k xs)"
  unfolding sort_desc_def sorted_wrt_rev
  using sorted_sort_key[of k "rev xs"] by (simp add: sorted_wrt_map)

lemma set_sort_desc [simp]: "set (sort_desc k xs) = set xs" "length (sort_desc k xs) = length xs"
  by (simp_all add: sort_desc_def)

lemma set_thread_sort [simp]: "set (thread_sort by ord xs) = set xs" "length (thread_sort by ord xs) = length xs"
  by (simp_all add: thread_sort_def sort_dir_def)

text \<open>Whatever the request says, the clause is one the database knows.\<close>

lemma thread_order_by_total: "thread_order_by (sortClause by ord) = Some (thread_sort by ord)"
  by (auto simp: thread_order_by_def sortClause_def validSortColumns_def thread_sort_def sort_dir_def fun_eq_iff)

lemma thread_whereArgs_total:
  assumes "list_all auth_wf fs"
  shows "\<exists>conds args idx. thread_whereArgs E si fs = Inr (conds, args, idx)"
  using ApplyToQuery_isl[of fs "''metadata''" "Suc (length (thread_search_args E si))"] assms
  by (cases "ApplyToQuery fs ''metadata'' (Suc (length (thread_search_args E si)))")
    (auto simp: thread_whereArgs_alt split: prod.splits if_splits)


definition sample_thread_search :: ThreadSearchInput where
  "sample_thread_search = \<lparr>ts_Status = ''busy'', ts_MetadataFilter = [], ts_ValuesFilter = ''{}'', ts_Ids = [''t2''],
     ts_Limit = 5, ts_Offset = 0, ts_SortBy = ''state_updated_at'', ts_SortOrder = ''asc''\<rparr>"


end
