(* ===== verification/Checkpoint_Store.thy ===== *)
theory Checkpoint_Store
  imports Threads_Correct
begin

text \<open>
  The checkpoint store (\<^verbatim>\<open>internal/checkpointer/store.go\<close>): checkpoints, the blobs of their channel values and the
  pending writes of their tasks. Bytes are texts; \<open>None\<close> is a nil slice, which the database stores as NULL. A \<^verbatim>\<open>jsonb\<close> column is read
  as its text (\<open>pg_text\<close>), which the service decodes again.
\<close>

section \<open>Data\<close>

record BlobInput =
  bi_Channel :: string
  bi_Version :: string
  bi_Encoding :: string
  bi_Blob :: "string option"

record WriteInput =
  wi_Idx :: int
  wi_Channel :: string
  wi_Encoding :: string
  wi_Blob :: "string option"

record PutInput =
  pi_ThreadID :: string
  pi_CheckpointNS :: string
  pi_CheckpointID :: string
  pi_ParentCheckpointID :: string
  pi_RunID :: string
  pi_CheckpointJSON :: string
  pi_MetadataJSON :: string
  pi_Blobs :: "BlobInput list"

record PutWritesInput =
  pw_ThreadID :: string
  pw_CheckpointNS :: string
  pw_CheckpointID :: string
  pw_TaskID :: string
  pw_TaskPath :: string
  pw_Writes :: "WriteInput list"

record BlobRow =
  br_Channel :: string
  br_Version :: string
  br_Encoding :: string
  br_Blob :: "string option"

record WriteRow =
  wr_TaskID :: string
  wr_Idx :: int
  wr_Channel :: string
  wr_Encoding :: string
  wr_Blob :: string
  wr_TaskPath :: string

record SendRow =
  sr_Encoding :: string
  sr_Blob :: string

record CheckpointRow =
  cr_ThreadID :: string
  cr_CheckpointNS :: string
  cr_CheckpointID :: string
  cr_ParentCheckpointID :: string
  cr_RunID :: string
  cr_CheckpointJSON :: string
  cr_MetadataJSON :: string
  cr_Blobs :: "BlobRow list"
  cr_Writes :: "WriteRow list"
  cr_PendingSends :: "SendRow list"

definition tasksChannelConst :: string where
  "tasksChannelConst = ''__pregel_tasks''"

text \<open>Primary keys of the three tables.\<close>

definition cp_key :: "checkpoint_row \<Rightarrow> uuid \<times> string \<times> uuid" where
  "cp_key c = (c_thread_id c, c_ns c, c_id c)"

definition blob_key :: "blob_row \<Rightarrow> uuid \<times> string \<times> string \<times> string" where
  "blob_key b = (b_thread_id b, b_ns b, b_channel b, b_version b)"

definition write_key :: "write_row \<Rightarrow> uuid \<times> string \<times> uuid \<times> uuid \<times> int" where
  "write_key x = (w_thread_id x, w_ns x, w_checkpoint_id x, w_task_id x, w_idx x)"

definition has_thread :: "db \<Rightarrow> uuid \<Rightarrow> bool" where
  "has_thread d tid = list_ex (\<lambda>t. t_thread_id t = tid) (threads d)"

definition has_run :: "db \<Rightarrow> uuid \<Rightarrow> bool" where
  "has_run d rid = list_ex (\<lambda>r. r_run_id r = rid) (runs d)"

section \<open>Writing\<close>

text \<open>\<^verbatim>\<open>NULLIF($n,'')::uuid\<close>\<close>

definition nullif_uuid :: "env \<Rightarrow> string \<Rightarrow> string + uuid option" where
  "nullif_uuid E s = (if s = [] then Inr None else rb (cast_uuid E s) (\<lambda>u. Inr (Some u)))"

definition fk_violation :: string where
  "fk_violation = ''insert or update violates foreign key constraint''"

definition upsert_checkpoint :: "checkpoint_row \<Rightarrow> db \<Rightarrow> string + unit \<times> db" where
  "upsert_checkpoint c d =
     (if list_ex (\<lambda>x. cp_key x = cp_key c) (checkpoints d)
      then Inr ((), d\<lparr>checkpoints := map (\<lambda>x. if cp_key x = cp_key c
             then x\<lparr>c_checkpoint := c_checkpoint c, c_metadata := c_metadata c\<rparr> else x) (checkpoints d)\<rparr>)
      else if \<not> has_thread d (c_thread_id c) then Inl fk_violation
      else if (case c_run_id c of None \<Rightarrow> False | Some r \<Rightarrow> \<not> has_run d r) then Inl fk_violation
      else Inr ((), d\<lparr>checkpoints := checkpoints d @ [c]\<rparr>))"

definition put_row :: "env \<Rightarrow> PutInput \<Rightarrow> string + checkpoint_row" where
  "put_row E pin =
     rb (nullif_uuid E (pi_RunID pin)) (\<lambda>rid. rb (cast_uuid E (pi_ThreadID pin)) (\<lambda>tid.
     rb (cast_uuid E (pi_CheckpointID pin)) (\<lambda>cid. rb (nullif_uuid E (pi_ParentCheckpointID pin)) (\<lambda>par.
     rb (cast_jsonb E (pi_CheckpointJSON pin)) (\<lambda>cj. rb (cast_jsonb E (pi_MetadataJSON pin)) (\<lambda>mj.
     Inr \<lparr>c_thread_id = tid, c_ns = pi_CheckpointNS pin, c_id = cid, c_run_id = rid, c_parent_id = par,
          c_checkpoint = cj, c_metadata = mj\<rparr>))))))"

definition insert_blob :: "env \<Rightarrow> string \<Rightarrow> string \<Rightarrow> BlobInput \<Rightarrow> db \<Rightarrow> string + unit \<times> db" where
  "insert_blob E threadID ns b d =
     rb (cast_uuid E threadID) (\<lambda>tid.
     let row = \<lparr>b_thread_id = tid, b_ns = ns, b_channel = bi_Channel b, b_version = bi_Version b,
                b_type = bi_Encoding b, b_blob = bi_Blob b\<rparr>
     in if list_ex (\<lambda>x. blob_key x = blob_key row) (blobs d) then Inr ((), d)
        else if \<not> has_thread d tid then Inl fk_violation
        else Inr ((), d\<lparr>blobs := blobs d @ [row]\<rparr>))"

text \<open>\<^verbatim>\<open>for _, x := range xs { if err := f(x); err != nil { return err } }\<close>\<close>

fun for_each :: "('a \<Rightarrow> unit op) \<Rightarrow> 'a list \<Rightarrow> unit op" where
  "for_each f [] = ret ()"
| "for_each f (x # xs) = bnd (f x) (\<lambda>_. for_each f xs)"

definition bump_thread :: "env \<Rightarrow> string \<Rightarrow> unit op" where
  "bump_thread E threadID =
     stmt (\<lambda>t d. rb (cast_uuid E threadID) (\<lambda>tid.
       Inr ((), upd_threads (\<lambda>th. t_thread_id th = tid)
         (\<lambda>th. th\<lparr>t_state_updated_at := Some t, t_updated_at := t\<rparr>) d)))"

definition cp_Put :: "env \<Rightarrow> PutInput \<Rightarrow> unit op" where
  "cp_Put E pin = in_tx (
     bnd (stmt (\<lambda>_ d. rb (put_row E pin) (\<lambda>c. upsert_checkpoint c d))) (\<lambda>_.
     bnd (for_each (\<lambda>b. stmt (\<lambda>_ d. insert_blob E (pi_ThreadID pin) (pi_CheckpointNS pin) b d)) (pi_Blobs pin)) (\<lambda>_.
     bnd (bump_thread E (pi_ThreadID pin)) (\<lambda>_. ret (Commit ())))))"

text \<open>Sentinel channels have negative indices and are overwritten; a regular write is kept as it was first stored.
  The column \<^verbatim>\<open>blob\<close> is \<^verbatim>\<open>NOT NULL\<close>.\<close>

definition write_row_of :: "PutWritesInput \<Rightarrow> uuid \<Rightarrow> uuid \<Rightarrow> uuid \<Rightarrow> WriteInput \<Rightarrow> string \<Rightarrow> write_row" where
  "write_row_of pw tid cid task x blob =
     \<lparr>w_thread_id = tid, w_ns = pw_CheckpointNS pw, w_checkpoint_id = cid, w_task_id = task,
      w_idx = wi_Idx x, w_channel = wi_Channel x, w_type = wi_Encoding x, w_blob = blob, w_task_path = pw_TaskPath pw\<rparr>"

definition upsert_write :: "write_row \<Rightarrow> db \<Rightarrow> string + unit \<times> db" where
  "upsert_write row d =
     (if list_ex (\<lambda>y. write_key y = write_key row) (writes d)
      then if w_idx row < 0
           then Inr ((), d\<lparr>writes := map (\<lambda>y. if write_key y = write_key row
                  then y\<lparr>w_channel := w_channel row, w_type := w_type row, w_blob := w_blob row,
                         w_task_path := w_task_path row\<rparr> else y) (writes d)\<rparr>)
           else Inr ((), d)
      else if \<not> has_thread d (w_thread_id row) then Inl fk_violation
      else Inr ((), d\<lparr>writes := writes d @ [row]\<rparr>))"

definition insert_write :: "env \<Rightarrow> PutWritesInput \<Rightarrow> WriteInput \<Rightarrow> db \<Rightarrow> string + unit \<times> db" where
  "insert_write E pw x d =
     rb (cast_uuid E (pw_ThreadID pw)) (\<lambda>tid. rb (cast_uuid E (pw_CheckpointID pw)) (\<lambda>cid.
     rb (cast_uuid E (pw_TaskID pw)) (\<lambda>task.
     rb (of_opt ''null value in column blob violates not-null constraint'' (wi_Blob x)) (\<lambda>blob.
     upsert_write (write_row_of pw tid cid task x blob) d))))"

definition cp_PutWrites :: "env \<Rightarrow> PutWritesInput \<Rightarrow> unit op" where
  "cp_PutWrites E pw = in_tx (
     bnd (for_each (\<lambda>x. stmt (\<lambda>_ d. insert_write E pw x d)) (pw_Writes pw)) (\<lambda>_.
     bnd (bump_thread E (pw_ThreadID pw)) (\<lambda>_. ret (Commit ()))))"

section \<open>Reading\<close>

definition uuid_or_empty :: "uuid option \<Rightarrow> string" where
  "uuid_or_empty u = (case u of None \<Rightarrow> [] | Some s \<Rightarrow> s)"

definition scan_checkpoint :: "env \<Rightarrow> checkpoint_row \<Rightarrow> CheckpointRow" where
  "scan_checkpoint E c =
     \<lparr>cr_ThreadID = c_thread_id c, cr_CheckpointNS = c_ns c, cr_CheckpointID = c_id c,
      cr_ParentCheckpointID = uuid_or_empty (c_parent_id c), cr_RunID = uuid_or_empty (c_run_id c),
      cr_CheckpointJSON = pg_text E (c_checkpoint c), cr_MetadataJSON = pg_text E (c_metadata c),
      cr_Blobs = [], cr_Writes = [], cr_PendingSends = []\<rparr>"

definition scan_blob :: "blob_row \<Rightarrow> BlobRow" where
  "scan_blob b = \<lparr>br_Channel = b_channel b, br_Version = b_version b, br_Encoding = b_type b, br_Blob = b_blob b\<rparr>"

definition scan_write :: "write_row \<Rightarrow> WriteRow" where
  "scan_write x = \<lparr>wr_TaskID = w_task_id x, wr_Idx = w_idx x, wr_Channel = w_channel x, wr_Encoding = w_type x,
     wr_Blob = w_blob x, wr_TaskPath = w_task_path x\<rparr>"

definition by_task :: "write_row \<Rightarrow> string \<times> int" where
  "by_task x = (w_task_id x, w_idx x)"

definition loadBlobsAndWrites :: "env \<Rightarrow> CheckpointRow \<Rightarrow> CheckpointRow op" where
  "loadBlobsAndWrites E row =
     bnd (query (\<lambda>_ d. rb (cast_uuid E (cr_ThreadID row)) (\<lambda>tid.
       Inr (map scan_blob (filter (\<lambda>b. b_thread_id b = tid \<and> b_ns b = cr_CheckpointNS row) (blobs d)))))) (\<lambda>bs.
     bnd (query (\<lambda>_ d. rb (cast_uuid E (cr_ThreadID row)) (\<lambda>tid. rb (cast_uuid E (cr_CheckpointID row)) (\<lambda>cid.
       Inr (map scan_write (sort_key by_task (filter (\<lambda>x. w_thread_id x = tid \<and> w_ns x = cr_CheckpointNS row \<and>
              w_checkpoint_id x = cid) (writes d)))))))) (\<lambda>ws.
     bnd (if cr_ParentCheckpointID row = [] then ret []
          else query (\<lambda>_ d. rb (cast_uuid E (cr_ThreadID row)) (\<lambda>tid. rb (cast_uuid E (cr_ParentCheckpointID row)) (\<lambda>cid.
       Inr (map (\<lambda>x. \<lparr>sr_Encoding = w_type x, sr_Blob = w_blob x\<rparr>)
              (sort_key by_task (filter (\<lambda>x. w_thread_id x = tid \<and> w_ns x = cr_CheckpointNS row \<and>
                 w_checkpoint_id x = cid \<and> w_channel x = tasksChannelConst) (writes d)))))))) (\<lambda>sends.
     ret (row\<lparr>cr_Blobs := cr_Blobs row @ bs, cr_Writes := cr_Writes row @ ws,
              cr_PendingSends := cr_PendingSends row @ sends\<rparr>))))"

definition cp_GetTuple :: "env \<Rightarrow> string \<Rightarrow> string \<Rightarrow> string \<Rightarrow> CheckpointRow option op" where
  "cp_GetTuple E threadID ns checkpointID =
     bnd (if checkpointID \<noteq> []
          then query (\<lambda>_ d. rb (cast_uuid E threadID) (\<lambda>tid. rb (cast_uuid E checkpointID) (\<lambda>cid.
                 Inr (map (scan_checkpoint E) (filter (\<lambda>c. c_thread_id c = tid \<and> c_ns c = ns \<and> c_id c = cid)
                        (checkpoints d))))))
          else query (\<lambda>_ d. rb (cast_uuid E threadID) (\<lambda>tid.
                 Inr (map (scan_checkpoint E) (take 1 (sort_desc c_id
                        (filter (\<lambda>c. c_thread_id c = tid \<and> c_ns c = ns) (checkpoints d))))))))
       (\<lambda>rows. case rows of [] \<Rightarrow> ret None
          | row # _ \<Rightarrow> bnd (loadBlobsAndWrites E row) (\<lambda>r. ret (Some r)))"

fun load_all :: "env \<Rightarrow> CheckpointRow list \<Rightarrow> CheckpointRow list op" where
  "load_all E [] = ret []"
| "load_all E (r # rs) = bnd (loadBlobsAndWrites E r) (\<lambda>r'. bnd (load_all E rs) (\<lambda>rs'. ret (r' # rs')))"

definition cp_List :: "env \<Rightarrow> string \<Rightarrow> string \<Rightarrow> string \<Rightarrow> int option \<Rightarrow> string \<Rightarrow> CheckpointRow list op" where
  "cp_List E threadID ns before limit filterJSON =
     bnd (query (\<lambda>_ d. rb (cast_uuid E threadID) (\<lambda>tid.
       rb (if before = [] then Inr (\<lambda>c. True) else rb (cast_uuid E before) (\<lambda>b. Inr (\<lambda>c. c_id c < b))) (\<lambda>P.
       rb (if filterJSON = [] then Inr (\<lambda>c. True)
           else rb (cast_jsonb E filterJSON) (\<lambda>j. Inr (\<lambda>c. jcontains (c_metadata c) j))) (\<lambda>Q.
       let rows = sort_desc c_id (filter (\<lambda>c. c_thread_id c = tid \<and> c_ns c = ns \<and> P c \<and> Q c) (checkpoints d))
       in case limit of None \<Rightarrow> Inr (map (scan_checkpoint E) rows)
          | Some n \<Rightarrow> if n < 0 then Inl ''LIMIT must not be negative''
                      else Inr (map (scan_checkpoint E) (take (nat n) rows)))))))
       (load_all E)"

section \<open>Deleting and copying\<close>

definition cp_DeleteThread :: "env \<Rightarrow> string \<Rightarrow> unit op" where
  "cp_DeleteThread E threadID =
     stmt (\<lambda>_ d. rb (cast_uuid E threadID) (\<lambda>tid.
       Inr ((), d\<lparr>checkpoints := filter (\<lambda>c. c_thread_id c \<noteq> tid) (checkpoints d)\<rparr>)))"

definition cp_DeleteForRuns :: "env \<Rightarrow> string list \<Rightarrow> unit op" where
  "cp_DeleteForRuns E runIDs =
     (if runIDs = [] then ret ()
      else stmt (\<lambda>_ d. rb (res_map (cast_uuid E) runIDs) (\<lambda>ids.
        Inr ((), d\<lparr>checkpoints := filter (\<lambda>c. \<not> (\<exists>i \<in> set_option (c_run_id c). i \<in> set ids)) (checkpoints d)\<rparr>))))"

text \<open>Rows that an \<^verbatim>\<open>INSERT ... SELECT ... ON CONFLICT DO NOTHING\<close> adds to a table with the given key.\<close>

definition fresh_rows :: "('r \<Rightarrow> 'k) \<Rightarrow> 'r list \<Rightarrow> 'r list \<Rightarrow> 'r list" where
  "fresh_rows key rows tbl = filter (\<lambda>r. key r \<notin> set (map key tbl)) rows"

definition copy_checkpoint_row :: "uuid \<Rightarrow> checkpoint_row \<Rightarrow> string + checkpoint_row" where
  "copy_checkpoint_row dst c =
     rb (jset (c_metadata c) ''thread_id'' (JStr dst)) (\<lambda>m. Inr (c\<lparr>c_thread_id := dst, c_metadata := m\<rparr>))"

definition copy_checkpoints :: "uuid \<Rightarrow> uuid \<Rightarrow> db \<Rightarrow> string + unit \<times> db" where
  "copy_checkpoints src dst d =
     rb (res_map (copy_checkpoint_row dst) (filter (\<lambda>c. c_thread_id c = src) (checkpoints d))) (\<lambda>rows.
     let new = fresh_rows cp_key rows (checkpoints d)
     in if new \<noteq> [] \<and> \<not> has_thread d dst then Inl fk_violation
        else Inr ((), d\<lparr>checkpoints := checkpoints d @ new\<rparr>))"

definition copy_blobs :: "uuid \<Rightarrow> uuid \<Rightarrow> db \<Rightarrow> string + unit \<times> db" where
  "copy_blobs src dst d =
     (let new = fresh_rows blob_key (map (\<lambda>b. b\<lparr>b_thread_id := dst\<rparr>)
            (filter (\<lambda>b. b_thread_id b = src) (blobs d))) (blobs d)
      in if new \<noteq> [] \<and> \<not> has_thread d dst then Inl fk_violation
         else Inr ((), d\<lparr>blobs := blobs d @ new\<rparr>))"

definition copy_writes :: "uuid \<Rightarrow> uuid \<Rightarrow> db \<Rightarrow> string + unit \<times> db" where
  "copy_writes src dst d =
     (let new = fresh_rows write_key (map (\<lambda>x. x\<lparr>w_thread_id := dst\<rparr>)
            (filter (\<lambda>x. w_thread_id x = src) (writes d))) (writes d)
      in if new \<noteq> [] \<and> \<not> has_thread d dst then Inl fk_violation
         else Inr ((), d\<lparr>writes := writes d @ new\<rparr>))"

definition copyThreadRows :: "env \<Rightarrow> string \<Rightarrow> string \<Rightarrow> unit op" where
  "copyThreadRows E fromThreadID toThreadID =
     (let with_ids = (\<lambda>f. stmt (\<lambda>_ d. rb (cast_uuid E fromThreadID) (\<lambda>src. rb (cast_uuid E toThreadID) (\<lambda>dst. f src dst d))))
      in bnd (with_ids copy_checkpoints) (\<lambda>_.
         bnd (with_ids copy_blobs) (\<lambda>_.
         bnd (with_ids copy_writes) (\<lambda>_.
         bump_thread E toThreadID))))"

definition cp_CopyThread :: "env \<Rightarrow> string \<Rightarrow> string \<Rightarrow> unit op" where
  "cp_CopyThread E fromThreadID toThreadID =
     in_tx (bnd (copyThreadRows E fromThreadID toThreadID) (\<lambda>_. ret (Commit ())))"

definition cp_CopyThreadTx :: "env \<Rightarrow> string \<Rightarrow> string \<Rightarrow> unit op" where
  "cp_CopyThreadTx E fromThreadID toThreadID = copyThreadRows E fromThreadID toThreadID"

text \<open>\<^verbatim>\<open>DISTINCT ON (thread_id, checkpoint_ns) ... ORDER BY ..., checkpoint_id DESC\<close>: the greatest id of each namespace.\<close>

definition is_latest :: "db \<Rightarrow> checkpoint_row \<Rightarrow> bool" where
  "is_latest d c = list_all (\<lambda>x. c_thread_id x = c_thread_id c \<and> c_ns x = c_ns c \<longrightarrow> c_id x \<le> c_id c) (checkpoints d)"

definition cp_Prune :: "env \<Rightarrow> string list \<Rightarrow> int \<Rightarrow> unit op" where
  "cp_Prune E threadIDs strategy =
     (if threadIDs = [] then ret ()
      else if strategy = 2 then
        stmt (\<lambda>_ d. rb (res_map (cast_uuid E) threadIDs) (\<lambda>ids.
          Inr ((), d\<lparr>checkpoints := filter (\<lambda>c. c_thread_id c \<notin> set ids) (checkpoints d)\<rparr>)))
      else if strategy = 1 then
        stmt (\<lambda>_ d. rb (res_map (cast_uuid E) threadIDs) (\<lambda>ids.
          Inr ((), d\<lparr>checkpoints := filter (\<lambda>c. \<not> (c_thread_id c \<in> set ids \<and> \<not> is_latest d c)) (checkpoints d)\<rparr>)))
      else throw (DbErr (''unknown prune strategy: '' @ int_str strategy)))"

end
