(* ===== verification/Runs_Write.thy ===== *)
theory Runs_Write
  imports Runs_Read
begin

text \<open>
  The writes of the run store one by one: what \<open>Create\<close> inserts and when it refuses, what a cancellation,
  a deletion and the end of a run change, and what they leave alone.
\<close>

section \<open>Create\<close>

lemma assistant_guard_Inr:
  assumes "assistant_guard E s fs w = (Inr x, w')"
  shows "db w' = db w \<and> now w' = now w \<and> (\<exists>a \<in> set (assistants (db w)).
    pg_uuid E s = Some (a_assistant_id a) \<and> visible E fs (a_metadata a))"
proof -
  from assms obtain fr args aid ok where
      q: "ApplyToQuery fs ''metadata'' (Suc (length [s])) = Inr (fr, args)" and
      ok: "auth_where E ([s] @ args) fr = Inr ok" and
      rest: "pg_uuid E s = Some aid" "list_ex (\<lambda>a. a_assistant_id a = aid \<and> ok (\<lambda>_. a_metadata a)) (assistants (db w))"
        "w' = after w"
    by (auto simp: assistant_guard_def res_iff numeral_2_eq_2 cast_uuid_def split: if_splits)
  with auth_where_visible[OF q ok] show ?thesis
    by (auto simp: list_ex_iff)
qed

lemma thread_guard_Inr:
  assumes "thread_guard E s fs w = (Inr b, w')"
  shows "db w' = db w \<and> now w' = now w \<and> (\<exists>tid. pg_uuid E s = Some tid \<and>
    b = (\<exists>th \<in> set (threads (db w)). t_thread_id th = tid \<and> visible E fs (t_metadata th)))"
proof -
  from assms obtain fr args tid ok where
      q: "ApplyToQuery fs ''metadata'' (Suc (length [s])) = Inr (fr, args)" and
      ok: "auth_where E ([s] @ args) fr = Inr ok" and
      rest: "pg_uuid E s = Some tid" "b = list_ex (\<lambda>th. t_thread_id th = tid \<and> ok (\<lambda>_. t_metadata th)) (threads (db w))"
        "w' = after w"
    by (auto simp: thread_guard_def res_iff numeral_2_eq_2 cast_uuid_def)
  with auth_where_visible[OF q ok] show ?thesis
    by (auto simp: list_ex_iff)
qed

text \<open>The runs of a thread that are still in flight, and what each strategy makes of them.\<close>

definition inflight_on :: "uuid \<Rightarrow> db \<Rightarrow> uuid list" where
  "inflight_on tid d = map r_run_id (filter (\<lambda>r. r_thread_id r = tid \<and> inflight r) (runs d))"

lemma multitask_guard_Inr:
  assumes "multitask_guard E ci w = (Inr ids, w')" and "pg_uuid E (ci_ThreadID ci) = Some tid"
  shows "db w' = db w \<and> now w' = now w \<and>
    (ci_MultitaskStrategy ci = ''reject'' \<longrightarrow> inflight_on tid (db w) = []) \<and>
    ids = (if ci_MultitaskStrategy ci \<in> {''rollback'', ''interrupt''} then inflight_on tid (db w) else [])"
  using assms
  by (auto simp: multitask_guard_def res_iff cast_uuid_def inflight_on_def list_ex_iff filter_empty_conv
      split: if_splits)

lemma touch_thread_busy:
  assumes "update_thread tid aid rc d = Inr d'" and "a \<in> set (assistants d)" "a_assistant_id a = aid"
  shows "\<forall>th \<in> set (threads d'). t_thread_id th = tid \<longrightarrow> t_status th = ''busy''"
proof -
  obtain a' where f: "find (\<lambda>a. a_assistant_id a = aid) (assistants d) = Some a'"
    using find_in_set[of a "assistants d" "\<lambda>a. a_assistant_id a = aid"] assms(2,3) by blast
  have "\<forall>y \<in> set ys. t_thread_id y = tid \<longrightarrow> t_status y = ''busy''"
    if "list_all2 (\<lambda>th y. (if t_thread_id th = tid \<and> t_status th \<noteq> ''busy''
            then update_thread_row a' rc th else Inr th) = Inr y) xs ys" for xs ys
    using that by (induction rule: list_all2_induct) (auto simp: update_thread_row_def res_iff split: if_splits)
  with assms(1) f show ?thesis
    by (auto simp: update_thread_def res_iff)
qed

lemma auto_create_Inr:
  assumes "auto_create_thread E ci c w = (Inr x, w')"
  shows "now w' = now w \<and> (\<exists>tid m rc aid. db w' = insert_thread tid m rc aid (now w) (db w))"
  using assms by (auto simp: auto_create_thread_def res_iff) blast

lemma touch_thread_Inr:
  assumes "touch_thread E ci c w = (Inr x, w')" and "pg_uuid E (ci_ThreadID ci) = Some tid"
    and "pg_uuid E (ci_AssistantID ci) = Some aid"
  shows "now w' = now w \<and> (\<exists>rc. update_thread tid aid rc (db w) = Inr (db w'))"
  using assms by (auto simp: touch_thread_def res_iff cast_uuid_def)

text \<open>The commit of \<^verbatim>\<open>Create\<close>, step by step.\<close>

lemma run_Create_steps:
  assumes "run_Create E nt gen ci0 tf af w = (Inr res, w')"
  obtains b w1 w2 w3 w4 w5 w6 rows where
    "assistant_guard E (ci_AssistantID (create_input nt ci0)) af (after w) = (Inr (), w1)"
    "thread_guard E (ci_ThreadID (create_input nt ci0)) tf w1 = (Inr b, w2)"
    "if b then w3 = w2 else (ci_IfNotExists ci0 = 1 \<or> ci_ThreadID ci0 = []) \<and>
       auto_create_thread E (create_input nt ci0) (requestConfig E (the (ci_KwargsJSON (create_input nt ci0)))) w2 = (Inr (), w3)"
    "touch_thread E (create_input nt ci0) (requestConfig E (the (ci_KwargsJSON (create_input nt ci0)))) w3 = (Inr (), w4)"
    "multitask_guard E (create_input nt ci0) w4 = (Inr (cr_InflightRunIDs res), w5)"
    "insert_run E (create_input nt ci0) gen (now w5) (db w5) = Inr (cr_Run res # rows, db w6)"
    "w' = after w6"
proof -
  let ?rc = "requestConfig E (the (ci_KwargsJSON (create_input nt ci0)))"
  from assms obtain b w1 w2 w3 w4 w5 rows d where
    1: "assistant_guard E (ci_AssistantID (create_input nt ci0)) af (after w) = (Inr (), w1)"
      "thread_guard E (ci_ThreadID (create_input nt ci0)) tf w1 = (Inr b, w2)" and
    2: "(if b then ret () else if \<not> (ci_IfNotExists ci0 = 1 \<or> ci_ThreadID ci0 = []) then throw ErrNotFound
         else auto_create_thread E (create_input nt ci0) ?rc) w2 = (Inr (), w3)" and
    3: "touch_thread E (create_input nt ci0) ?rc w3 = (Inr (), w4)"
      "multitask_guard E (create_input nt ci0) w4 = (Inr (cr_InflightRunIDs res), w5)"
      "insert_run E (create_input nt ci0) gen (now w5) (db w5) = Inr (cr_Run res # rows, d)"
      "w' = after ((after w5)\<lparr>db := d\<rparr>)"
    unfolding run_Create_def Let_def in_tx_Inr bnd_Inr stmt_Inr first_row_Inr ret_Inr by auto
  from 2 have "if b then w3 = w2 else (ci_IfNotExists ci0 = 1 \<or> ci_ThreadID ci0 = []) \<and>
       auto_create_thread E (create_input nt ci0) ?rc w2 = (Inr (), w3)"
    by (auto simp: ret_Inr throw_Inr split: if_splits)
  with 1 3 that[of w1 b w2 w3 w4 w5 rows "(after w5)\<lparr>db := d\<rparr>"] show thesis by simp
qed

lemma create_spec:
  assumes "run_Create E nt gen ci0 tf af w = (Inr res, w')"
  shows "\<exists>tid a r. pg_uuid E (ci_ThreadID (create_input nt ci0)) = Some tid \<and>
    a \<in> set (assistants (db w)) \<and> pg_uuid E (ci_AssistantID ci0) = Some (a_assistant_id a) \<and> visible E af (a_metadata a) \<and>
    ((\<exists>th \<in> set (threads (db w)). t_thread_id th = tid \<and> visible E tf (t_metadata th)) \<or>
      ci_IfNotExists ci0 = 1 \<or> ci_ThreadID ci0 = []) \<and>
    runs (db w') = runs (db w) @ [r] \<and> cr_Run res = scanRun r \<and> r_run_id r \<notin> r_run_id ` set (runs (db w)) \<and>
    r_thread_id r = tid \<and> r_assistant_id r = a_assistant_id a \<and> r_status r = ci_Status (create_input nt ci0) \<and>
    r_attempt r = 0 \<and> r_lease_generation r = 0 \<and> r_lease_expires_at r = None \<and>
    (\<forall>th \<in> set (threads (db w')). t_thread_id th = tid \<longrightarrow> t_status th = ''busy'') \<and>
    (ci_MultitaskStrategy (create_input nt ci0) = ''reject'' \<longrightarrow> inflight_on tid (db w) = []) \<and>
    cr_InflightRunIDs res = (if ci_MultitaskStrategy (create_input nt ci0) \<in> {''rollback'', ''interrupt''}
      then inflight_on tid (db w) else [])"
proof -
  let ?ci = "create_input nt ci0"
  from assms obtain b w1 w2 w3 w4 w5 w6 rows where
    ag: "assistant_guard E (ci_AssistantID ?ci) af (after w) = (Inr (), w1)" and
    tg: "thread_guard E (ci_ThreadID ?ci) tf w1 = (Inr b, w2)" and
    ac: "if b then w3 = w2 else (ci_IfNotExists ci0 = 1 \<or> ci_ThreadID ci0 = []) \<and>
       auto_create_thread E ?ci (requestConfig E (the (ci_KwargsJSON ?ci))) w2 = (Inr (), w3)" and
    tt: "touch_thread E ?ci (requestConfig E (the (ci_KwargsJSON ?ci))) w3 = (Inr (), w4)" and
    mg: "multitask_guard E ?ci w4 = (Inr (cr_InflightRunIDs res), w5)" and
    ins: "insert_run E ?ci gen (now w5) (db w5) = Inr (cr_Run res # rows, db w6)" and w': "w' = after w6"
    by (rule run_Create_steps)
  have aid: "ci_AssistantID ?ci = ci_AssistantID ci0"
    by (simp add: create_input_def create_defaults_def Let_def)
  obtain a where a: "db w1 = db w" "a \<in> set (assistants (db w))" "pg_uuid E (ci_AssistantID ci0) = Some (a_assistant_id a)"
      "visible E af (a_metadata a)"
    using assistant_guard_Inr[OF ag] aid by auto
  obtain tid where t: "db w2 = db w" "pg_uuid E (ci_ThreadID ?ci) = Some tid"
      "b = (\<exists>th \<in> set (threads (db w)). t_thread_id th = tid \<and> visible E tf (t_metadata th))"
    using thread_guard_Inr[OF tg] a(1) by auto
  have d3: "runs (db w3) = runs (db w)" "assistants (db w3) = assistants (db w)"
    using ac t(1) by (auto split: if_splits dest!: auto_create_Inr)
  obtain rc where d4: "update_thread tid (a_assistant_id a) rc (db w3) = Inr (db w4)"
    using touch_thread_Inr[OF tt t(2)] a(3) aid by auto
  have d4': "runs (db w4) = runs (db w)" "\<forall>th \<in> set (threads (db w4)). t_thread_id th = tid \<longrightarrow> t_status th = ''busy''"
    using update_thread_ids(2)[OF d4] touch_thread_busy[OF d4] d3 a(2) by auto
  have m: "db w5 = db w4" "ci_MultitaskStrategy ?ci = ''reject'' \<longrightarrow> inflight_on tid (db w4) = []"
      "cr_InflightRunIDs res = (if ci_MultitaskStrategy ?ci \<in> {''rollback'', ''interrupt''} then inflight_on tid (db w4) else [])"
    using multitask_guard_Inr[OF mg t(2)] by auto
  have infl: "inflight_on tid (db w4) = inflight_on tid (db w)"
    using d4'(1) by (simp add: inflight_on_def)
  from ins show ?thesis
  proof (cases rule: insert_run_cases)
    case none
    then show ?thesis by simp
  next
    case (one rid tid' aid' kw me enc a' th)
    let ?r = "new_run E ?ci rid kw me enc (now w5) a' th"
    have keys: "t_thread_id th = tid" "a_assistant_id a' = a_assistant_id a"
      using one(3,4,7,8) t(2) a(3) aid by (auto dest: find_Some_iff')
    have row: "r_status ?r = ci_Status ?ci" "r_attempt ?r = 0" "r_lease_generation ?r = 0" "r_lease_expires_at ?r = None"
      by (simp_all add: new_run_def Let_def)
    have "runs (db w') = runs (db w) @ [?r]" "threads (db w') = threads (db w4)" "cr_Run res = scanRun ?r"
        "r_run_id ?r \<notin> r_run_id ` set (runs (db w))"
      using one(9-11) w' m(1) d4'(1) by auto
    with keys row t a m(2,3) infl d4'(2) ac show ?thesis
      by (intro exI[of _ tid] exI[of _ a] exI[of _ ?r]) (auto split: if_splits)
  qed
qed

text \<open>
  (C8) What a successful \<^verbatim>\<open>Create\<close> did: the assistant exists and its filters accept it; the thread was visible, or the request
  asked for it to be created; exactly one run was added, with an unused id, on that thread, never leased; the thread is
  busy; under \<^verbatim>\<open>reject\<close> no run of the thread was in flight, and under \<^verbatim>\<open>rollback\<close> and
  \<^verbatim>\<open>interrupt\<close> the caller is told every run that was.
\<close>

theorem create_effect:
  assumes "run_Create E nt gen ci0 tf af w = (Inr res, w')"
  shows "\<exists>tid a r. pg_uuid E (ci_ThreadID (create_input nt ci0)) = Some tid \<and>
    a \<in> set (assistants (db w)) \<and> pg_uuid E (ci_AssistantID ci0) = Some (a_assistant_id a) \<and> visible E af (a_metadata a) \<and>
    ((\<exists>th \<in> set (threads (db w)). t_thread_id th = tid \<and> visible E tf (t_metadata th)) \<or>
      ci_IfNotExists ci0 = 1 \<or> ci_ThreadID ci0 = []) \<and>
    runs (db w') = runs (db w) @ [r] \<and> cr_Run res = scanRun r \<and> r_run_id r \<notin> r_run_id ` set (runs (db w)) \<and>
    r_thread_id r = tid \<and> r_assistant_id r = a_assistant_id a \<and> r_status r = ci_Status (create_input nt ci0) \<and>
    r_attempt r = 0 \<and> r_lease_generation r = 0 \<and> r_lease_expires_at r = None \<and>
    (\<forall>th \<in> set (threads (db w')). t_thread_id th = tid \<longrightarrow> t_status th = ''busy'') \<and>
    (ci_MultitaskStrategy (create_input nt ci0) = ''reject'' \<longrightarrow> inflight_on tid (db w) = []) \<and>
    cr_InflightRunIDs res = (if ci_MultitaskStrategy (create_input nt ci0) \<in> {''rollback'', ''interrupt''}
      then inflight_on tid (db w) else [])"
  using create_spec[OF assms] .

text \<open>
  \<^verbatim>\<open>Create\<close> is all or nothing: if it returns an error, from a guard, a bad argument or a failure of the
  database at any of its calls, the tables are what they were.
\<close>

theorem create_atomic:
  assumes "run_Create E nt gen ci tf af w = (Inl e, w')"
  shows "db w' = db w"
  using assms unfolding run_Create_def Let_def by (rule in_tx_atomic)

lemma thread_guard_run:
  assumes "faults w = []" and "auth_ok E fs" and "pg_uuid E s = Some tid"
  shows "thread_guard E s fs w =
    (Inr (list_ex (\<lambda>th. t_thread_id th = tid \<and> visible E fs (t_metadata th)) (threads (db w))), w)"
proof -
  obtain fr args ok where "ApplyToQuery fs ''metadata'' (Suc (length [s])) = Inr (fr, args)"
    and "auth_where E ([s] @ args) fr = Inr ok" "\<And>cv. ok cv = visible E fs (cv ''metadata'')"
    using auth_obtain[OF assms(2)] by blast
  with assms(1,3) show ?thesis
    by (simp add: thread_guard_def numeral_2_eq_2 bnd_def query_run cast_uuid_def)
qed

lemma auto_create_exists:
  assumes "faults w = []" and "pg_uuid E (ci_ThreadID ci) = Some tid" and "tid \<in> t_thread_id ` set (threads (db w))"
    and "pg_uuid E (ci_AssistantID ci) \<noteq> None" "pg_jsonb E (the (ci_Metadata ci)) \<noteq> None" "pg_jsonb E c \<noteq> None"
  shows "auto_create_thread E ci c w = (Inr (), w)"
proof -
  have "insert_thread tid m rc aid t (db w) = db w" for m rc aid t
    using assms(3) by (auto simp: insert_thread_def list_ex_iff split: option.splits)
  with assms show ?thesis
    by (auto simp: auto_create_thread_def stmt_run cast_uuid_def cast_jsonb_def)
qed

lemma guard_keeps_world: "faults w = [] \<Longrightarrow> assistant_guard E s fs w = (Inr x, w1) \<Longrightarrow> w1 = w"
  by (auto simp: assistant_guard_def res_iff split: if_splits)

text \<open>
  (C13) With \<^verbatim>\<open>if_not_exists = create\<close> the thread filters protect nothing: when the thread exists, \<^verbatim>\<open>Create\<close> does the same
  with any filters as with none, so a request adds a run to a thread it cannot see (the auto-creation finds the thread
  there and does nothing, and the transaction goes on).
\<close>

theorem create_ignores_thread_filters:
  assumes "faults w = []" and "auth_ok E tf" and "ci_IfNotExists ci = 1"
    and "pg_uuid E (ci_ThreadID (create_input nt ci)) = Some tid" and "tid \<in> t_thread_id ` set (threads (db w))"
    and "pg_jsonb E (the (ci_Metadata (create_input nt ci))) \<noteq> None"
    and "pg_jsonb E (requestConfig E (the (ci_KwargsJSON (create_input nt ci)))) \<noteq> None"
  shows "run_Create E nt gen ci tf af w = run_Create E nt gen ci [] af w"
proof -
  let ?ci = "create_input nt ci" and ?rc = "requestConfig E (the (ci_KwargsJSON (create_input nt ci)))"
  define rest where "rest = (\<lambda>u::unit. bnd (touch_thread E ?ci ?rc) (\<lambda>_.
        bnd (multitask_guard E ?ci) (\<lambda>inflightIDs.
        bnd (stmt (insert_run E ?ci gen)) (\<lambda>rows.
        bnd (first_row (DbErr ''no rows in result set'') rows) (\<lambda>r.
        ret (Commit \<lparr>cr_Run = r, cr_InflightRunIDs = inflightIDs\<rparr>))))))"
  define body where "body = (\<lambda>fs. bnd (assistant_guard E (ci_AssistantID ?ci) af) (\<lambda>_.
        bnd (thread_guard E (ci_ThreadID ?ci) fs) (\<lambda>thExists.
        bnd (if thExists then ret () else if \<not> (ci_IfNotExists ci = 1 \<or> ci_ThreadID ci = []) then throw ErrNotFound
             else auto_create_thread E ?ci ?rc) rest)))"
  have none: "auth_ok E []" by (simp add: auth_ok_def)
  have "body fs w = bnd (assistant_guard E (ci_AssistantID ?ci) af) rest w" if "auth_ok E fs" for fs
  proof (cases "assistant_guard E (ci_AssistantID ?ci) af w")
    case (Pair g w1)
    show ?thesis
    proof (cases g)
      case (Inl e)
      with Pair show ?thesis by (simp add: body_def bnd_def)
    next
      case (Inr x)
      have "w1 = w" using guard_keeps_world assms(1) Pair Inr by blast
      moreover have "pg_uuid E (ci_AssistantID ?ci) \<noteq> None"
        using assistant_guard_Inr Pair Inr by fastforce
      ultimately show ?thesis
        using Pair Inr assms(1,3) thread_guard_run[OF assms(1) that assms(4)]
          auto_create_exists[OF assms(1,4,5) _ assms(6,7)]
        by (simp add: body_def bnd_def ret_def)
    qed
  qed
  from this[OF assms(2)] this[OF none] have "body tf w = body [] w" by simp
  then have "in_tx (body tf) w = in_tx (body []) w"
    using assms(1) by (simp add: in_tx_run)
  then show ?thesis
    by (simp add: run_Create_def Let_def body_def rest_def)
qed

definition sample_create :: CreateRunInput where
  "sample_create = \<lparr>ci_RunID = [], ci_ThreadID = ''t2'', ci_AssistantID = ''a1'', ci_Status = [], ci_KwargsJSON = None,
     ci_Metadata = None, ci_MultitaskStrategy = ''enqueue'', ci_AfterSeconds = 0, ci_EncryptionContext = None,
     ci_UserID = [], ci_IfNotExists = 1\<rparr>"

lemma sample_create_runs:
  "\<exists>res w'. run_Create sample_env ''t9'' ''r9'' sample_create [] [] sample_world = (Inr res, w')"
proof -
  have "\<not> isl (fst (run_Create sample_env ''t9'' ''r9'' sample_create [] [] sample_world))"
    by code_simp
  then show ?thesis
    by (metis isl_def prod.collapse sum.exhaust_disc sum.collapse(2))
qed

theorem create_effect_witness:
  "\<exists>res w' r. run_Create sample_env ''t9'' ''r9'' sample_create [] [] sample_world = (Inr res, w') \<and>
     runs (db w') = runs sample_db @ [r] \<and> r_thread_id r = ''t2''"
proof -
  obtain res w' where run: "run_Create sample_env ''t9'' ''r9'' sample_create [] [] sample_world = (Inr res, w')"
    using sample_create_runs by blast
  have "pg_uuid sample_env (ci_ThreadID (create_input ''t9'' sample_create)) = Some ''t2''"
    "db sample_world = sample_db"
    by (simp_all add: create_input_def create_defaults_def sample_create_def sample_env_def sample_world_def)
  with create_effect[OF run] run show ?thesis by auto
qed

theorem create_atomic_witness:
  "\<exists>e w'. run_Create sample_env ''t9'' ''r9'' sample_create [NilFilter] [] sample_world = (Inl e, w') \<and> db w' = sample_db"
proof -
  obtain e w' where run: "run_Create sample_env ''t9'' ''r9'' sample_create [NilFilter] [] sample_world = (Inl e, w')"
    by (simp add: run_Create_def create_input_def create_defaults_def sample_create_def assistant_guard_def
      thread_guard_def ApplyToQuery_def auth_where_def in_tx_run query_run bnd_def ret_def throw_def cast_uuid_def sample_defs)
  with create_atomic[OF run] show ?thesis by (auto simp: sample_world_def)
qed

theorem create_ignores_thread_filters_witness:
  "\<not> visible sample_env [EqFilter ''owner'' ''{}''] (t_metadata (sample_thread ''t2'' ''bob'')) \<and>
   run_Create sample_env ''t9'' ''r9'' sample_create [EqFilter ''owner'' ''{}''] [] sample_world =
   run_Create sample_env ''t9'' ''r9'' sample_create [] [] sample_world"
proof
  show "\<not> visible sample_env [EqFilter ''owner'' ''{}''] (t_metadata (sample_thread ''t2'' ''bob''))"
    by (simp add: visible_def jcontains_def empty_obj_def sample_defs)
  show "run_Create sample_env ''t9'' ''r9'' sample_create [EqFilter ''owner'' ''{}''] [] sample_world =
     run_Create sample_env ''t9'' ''r9'' sample_create [] [] sample_world"
    by (rule create_ignores_thread_filters[OF sample_faults, where tid = "''t2''"])
      (simp_all add: auth_ok_def create_input_def create_defaults_def sample_create_def requestConfig_def empty_obj_def
        sample_defs)
qed

section \<open>Cancel\<close>

text \<open>The runs a cancellation is about: named, in the thread if one is given, on a thread the filters accept.\<close>

definition cancel_scope :: "env \<Rightarrow> string list \<Rightarrow> string \<Rightarrow> auth_filter list \<Rightarrow> db \<Rightarrow> run_row \<Rightarrow> bool" where
  "cancel_scope E ids tid fs d r =
     (Some (r_run_id r) \<in> pg_uuid E ` set ids \<and> (tid = [] \<or> pg_uuid E tid = Some (r_thread_id r)) \<and>
      visible E fs (t_metadata (thread_of d r)))"

lemma thread_visible_iff:
  assumes "db_ok d" and "r \<in> set (runs d)" and "\<And>cv. ok cv = visible E fs (cv ''thread.metadata'')"
  shows "thread_visible ok d r = visible E fs (t_metadata (thread_of d r))"
proof -
  have "th = thread_of d r" if "th \<in> set (threads d)" "t_thread_id th = r_thread_id r" for th
    using thread_of[OF assms(1,2)] that assms(1) unfolding db_ok_def keys_ok_def
    by (metis distinct_key_unique)
  then have "(\<exists>th \<in> set (threads d). t_thread_id th = r_thread_id r \<and> visible E fs (t_metadata th)) =
      visible E fs (t_metadata (thread_of d r))"
    using thread_of[OF assms(1,2)] by blast
  then show ?thesis
    by (simp add: thread_visible_def list_ex_iff assms(3) joined_cols_def)
qed

lemma res_map_cast:
  assumes "\<forall>s \<in> set ids. pg_uuid E s \<noteq> None"
  shows "res_map (cast_uuid E) ids = Inr (map (the \<circ> pg_uuid E) ids)"
  using assms by (intro res_map_total) (auto simp: cast_uuid_def)

lemma FragNone_visible:
  "ApplyToQuery fs col idx = Inr (FragNone, args) \<Longrightarrow> visible E fs m"
  by (drule FragNone_iff) simp

lemma cancel_where_spec:
  assumes "auth_ok E fs" and "\<forall>s \<in> set ids. pg_uuid E s \<noteq> None" and "tid = [] \<or> pg_uuid E tid \<noteq> None"
  obtains fr args where "ApplyToQuery fs ''thread.metadata'' (if tid = [] then 1 else 2) = Inr (fr, args)"
    and "\<And>d. db_ok d \<Longrightarrow> \<exists>W. cancel_where E ids tid fr args d = Inr W \<and>
           (\<forall>r \<in> set (runs d). W r = cancel_scope E ids tid fs d r)"
proof -
  let ?pre = "if tid = [] then [] else [tid]"
  obtain fr args ok where q: "ApplyToQuery fs ''thread.metadata'' (Suc (length ?pre)) = Inr (fr, args)"
    and ok: "auth_where E (?pre @ args) fr = Inr ok" "\<And>cv. ok cv = visible E fs (cv ''thread.metadata'')"
    using auth_obtain[OF assms(1)] by blast
  have id: "Some i \<in> pg_uuid E ` set ids \<longleftrightarrow> i \<in> set (map (the \<circ> pg_uuid E) ids)" for i
    using assms(2) by (force simp: image_iff)
  have "\<exists>W. cancel_where E ids tid fr args d = Inr W \<and> (\<forall>r \<in> set (runs d). W r = cancel_scope E ids tid fs d r)"
    if "db_ok d" for d
  proof -
    have vis: "thread_visible ok d r = visible E fs (t_metadata (thread_of d r))" if "r \<in> set (runs d)" for r
      using thread_visible_iff[of d r ok E fs] ok(2) that \<open>db_ok d\<close> by blast
    have scope: "(tid = [] \<or> pg_uuid E tid = Some (r_thread_id r)) \<and> (fr = FragNone \<or> thread_visible ok d r) \<and>
        r_run_id r \<in> set (map (the \<circ> pg_uuid E) ids) \<longleftrightarrow> cancel_scope E ids tid fs d r" if "r \<in> set (runs d)" for r
      using vis[OF that] FragNone_visible[of fs "''thread.metadata''" _ args E] q id[of "r_run_id r"]
      unfolding cancel_scope_def by blast
    show ?thesis
      using ok(1) res_map_cast[OF assms(2)] assms(3) scope
      by (cases "tid = []") (auto simp: cancel_where_def cast_uuid_def)
  qed
  with q that show thesis
    by (auto simp: numeral_2_eq_2 split: if_splits)
qed

lemma del_runs_cong: "(\<And>r. r \<in> set (runs d) \<Longrightarrow> P r = Q r) \<Longrightarrow> del_runs P d = del_runs Q d"
  by (simp add: del_runs_def cong: filter_cong)

lemma upd_runs_cong: "(\<And>r. r \<in> set (runs d) \<Longrightarrow> P r = Q r) \<Longrightarrow> upd_runs P f d = upd_runs Q f d"
  by (simp add: upd_runs_def)

lemma filter_upd_none:
  "(\<And>r. P r \<Longrightarrow> \<not> R (f r) \<and> \<not> R r) \<Longrightarrow> filter R (map (\<lambda>r. if P r then f r else r) xs) = filter R xs"
  by (induction xs) auto

lemma cancel_scope_threads: "threads d' = threads d \<Longrightarrow> cancel_scope E ids tid fs d' = cancel_scope E ids tid fs d"
  by (simp add: cancel_scope_def thread_of_def fun_eq_iff)

lemma cancel_run:
  assumes "faults w = []" and "db_ok (db w)" and "auth_ok E fs" and "ids \<noteq> []"
    and "\<forall>s \<in> set ids. pg_uuid E s \<noteq> None" and "tid = [] \<or> pg_uuid E tid \<noteq> None"
  shows "run_CancelWithAction E ids tid action fs w =
    (let P = (\<lambda>r. cancel_scope E ids tid fs (db w) r \<and> r_status r = ''pending'');
         R = (\<lambda>r. cancel_scope E ids tid fs (db w) r \<and> r_status r = ''running'');
         d1 = (if action = ''rollback'' then del_runs P (db w)
               else upd_runs P (\<lambda>r. r\<lparr>r_status := ''interrupted'', r_cancel_requested_at := Some (now w),
                                     r_updated_at := now w\<rparr>) (db w))
     in (Inr (map (\<lambda>r. \<lparr>cx_RunID = r_run_id r, cx_Deleted = (action = ''rollback''), cx_Terminal = True\<rparr>)
                (filter P (runs (db w))) @
              map (\<lambda>r. \<lparr>cx_RunID = r_run_id r, cx_Deleted = False, cx_Terminal = False\<rparr>) (filter R (runs (db w)))),
         w\<lparr>db := upd_runs R (\<lambda>r. r\<lparr>r_cancel_requested_at := Some (now w), r_updated_at := now w\<rparr>) d1\<rparr>))"
proof -
  obtain fr args where q: "ApplyToQuery fs ''thread.metadata'' (if tid = [] then 1 else 2) = Inr (fr, args)"
    and W: "\<And>d. db_ok d \<Longrightarrow> \<exists>W. cancel_where E ids tid fr args d = Inr W \<and>
           (\<forall>r \<in> set (runs d). W r = cancel_scope E ids tid fs d r)"
    using cancel_where_spec[OF assms(3,5,6)] by blast
  define S where "S = cancel_scope E ids tid fs (db w)"
  define P where "P = (\<lambda>r. S r \<and> r_status r = ''pending'')"
  define R where "R = (\<lambda>r. S r \<and> r_status r = ''running'')"
  define f where "f = (\<lambda>r. r\<lparr>r_status := ''interrupted'', r_cancel_requested_at := Some (now w), r_updated_at := now w\<rparr> :: run_row)"
  define d1 where "d1 = (if action = ''rollback'' then del_runs P (db w) else upd_runs P f (db w))"
  have ok1: "db_ok d1" and th1: "threads d1 = threads (db w)"
    using assms(2) by (auto simp: d1_def f_def same_keys_def intro: del_runs_ok upd_runs_ok)
  have R1: "filter R (runs d1) = filter R (runs (db w))"
  proof (cases "action = ''rollback''")
    case True
    then show ?thesis by (auto simp: d1_def P_def R_def intro: filter_cong)
  next
    case False
    moreover have "filter R (map (\<lambda>r. if P r then f r else r) (runs (db w))) = filter R (runs (db w))"
      by (rule filter_upd_none) (simp add: P_def R_def f_def)
    ultimately show ?thesis by (simp add: d1_def)
  qed
  obtain W0 where W0: "cancel_where E ids tid fr args (db w) = Inr W0" "\<forall>r \<in> set (runs (db w)). W0 r = S r"
    using W[OF assms(2)] unfolding S_def by blast
  obtain W1 where W1: "cancel_where E ids tid fr args d1 = Inr W1" "\<forall>r \<in> set (runs d1). W1 r = S r"
    using W[OF ok1] cancel_scope_threads[OF th1] unfolding S_def by metis
  have P0: "filter (\<lambda>r. W0 r \<and> r_status r = ''pending'') (runs (db w)) = filter P (runs (db w))"
    and D0: "del_runs (\<lambda>r. W0 r \<and> r_status r = ''pending'') (db w) = del_runs P (db w)"
    and U0: "upd_runs (\<lambda>r. W0 r \<and> r_status r = ''pending'') g (db w) = upd_runs P g (db w)" for g
    using W0(2) by (auto simp: P_def intro: filter_cong del_runs_cong upd_runs_cong)
  have Q1: "filter (\<lambda>r. W1 r \<and> r_status r = ''running'') (runs d1) = filter R (runs d1)"
    and U1: "upd_runs (\<lambda>r. W1 r \<and> r_status r = ''running'') g d1 = upd_runs R g d1" for g
    using W1(2) by (auto simp: R_def intro: filter_cong upd_runs_cong)
  note [simp del] = runs_upd_runs runs_del_runs
  note defs = run_CancelWithAction_def Let_def bnd_def stmt_run ret_def S_def[symmetric] P_def[symmetric]
    R_def[symmetric] f_def[symmetric]
  show ?thesis
  proof (cases "action = ''rollback''")
    case True
    then have e: "d1 = del_runs P (db w)" by (simp add: d1_def)
    show ?thesis
      using True assms(1,4) q W0(1) W1(1)[unfolded e] by (simp add: defs P0 D0 Q1[unfolded e] U1[unfolded e] R1[unfolded e])
  next
    case False
    then have e: "d1 = upd_runs P f (db w)" by (simp add: d1_def)
    show ?thesis
      using False assms(1,4) q W0(1) W1(1)[unfolded e] by (simp add: defs P0 U0 Q1[unfolded e] U1[unfolded e] R1[unfolded e])
  qed
qed

text \<open>
  (C9) \<^verbatim>\<open>CancelWithAction\<close> on a database that answers. Of the runs in scope, the pending ones are deleted (\<^verbatim>\<open>rollback\<close>) or become
  interrupted, and are reported as terminal; the running ones keep their status and are only marked, and are
  reported as not terminal. No other run is touched or reported: neither a finished one, nor one the
  filters hide, nor one of another thread.
\<close>

theorem cancel_exact:
  assumes "faults w = []" and "db_ok (db w)" and "auth_ok E fs" and "ids \<noteq> []"
    and "\<forall>s \<in> set ids. pg_uuid E s \<noteq> None" and "tid = [] \<or> pg_uuid E tid \<noteq> None"
  shows "run_CancelWithAction E ids tid action fs w =
    (let P = (\<lambda>r. cancel_scope E ids tid fs (db w) r \<and> r_status r = ''pending'');
         R = (\<lambda>r. cancel_scope E ids tid fs (db w) r \<and> r_status r = ''running'');
         d1 = (if action = ''rollback'' then del_runs P (db w)
               else upd_runs P (\<lambda>r. r\<lparr>r_status := ''interrupted'', r_cancel_requested_at := Some (now w),
                                     r_updated_at := now w\<rparr>) (db w))
     in (Inr (map (\<lambda>r. \<lparr>cx_RunID = r_run_id r, cx_Deleted = (action = ''rollback''), cx_Terminal = True\<rparr>)
                (filter P (runs (db w))) @
              map (\<lambda>r. \<lparr>cx_RunID = r_run_id r, cx_Deleted = False, cx_Terminal = False\<rparr>) (filter R (runs (db w)))),
         w\<lparr>db := upd_runs R (\<lambda>r. r\<lparr>r_cancel_requested_at := Some (now w), r_updated_at := now w\<rparr>) d1\<rparr>))"
  using cancel_run[OF assms] .

theorem cancel_exact_witness:
  "fst (run_CancelWithAction sample_env [''r1'', ''r3''] [] ''interrupt'' [] sample_world) =
     Inr [\<lparr>cx_RunID = ''r1'', cx_Deleted = False, cx_Terminal = True\<rparr>,
          \<lparr>cx_RunID = ''r3'', cx_Deleted = False, cx_Terminal = False\<rparr>]"
  using cancel_exact[OF sample_faults sample_ok, of sample_env "[]" "[''r1'', ''r3'']" "[]" "''interrupt''"]
  by (simp add: auth_ok_def cancel_scope_def sample_defs)

section \<open>Delete\<close>

lemma delete_run_stmt_cong:
  "(\<And>r. r \<in> set (runs d) \<Longrightarrow> P r = Q r) \<Longrightarrow> delete_run_stmt P d = delete_run_stmt Q d"
  by (simp add: delete_run_stmt_def cong: filter_cong)

lemma delete_run_none:
  assumes "filter P (runs d) = []"
  shows "delete_run_stmt P d = ([], d)"
  using assms by (simp add: delete_run_stmt_def del_runs_def list_ex_iff)

text \<open>Both forms of the statement select the run that is named and visible.\<close>

lemma delete_selects:
  assumes "faults w = []" and "db_ok (db w)" and "auth_ok E fs" and "pg_uuid E s = Some i"
    and "tid = [] \<or> pg_uuid E tid \<noteq> None"
  shows "run_Delete E s tid fs w = bnd (stmt (\<lambda>_ d. Inr (delete_run_stmt
    (\<lambda>r. run_named E i tid r \<and> visible E fs (t_metadata (thread_of (db w) r))) d))) (first_row ErrNotFound) w"
proof -
  let ?pre = "if tid = [] then [s] else [s, tid]"
  obtain fr args ok where q: "ApplyToQuery fs ''thread.metadata'' (Suc (length ?pre)) = Inr (fr, args)"
    and ok: "auth_where E (?pre @ args) fr = Inr ok" "\<And>cv. ok cv = visible E fs (cv ''thread.metadata'')"
    using auth_obtain[OF assms(3)] by blast
  have vis: "(fr = FragNone \<or> thread_visible ok (db w) r) = visible E fs (t_metadata (thread_of (db w) r))"
    if "r \<in> set (runs (db w))" for r
    using thread_visible_iff[of "db w" r ok E fs] ok(2) that assms(2) FragNone_visible[of fs "''thread.metadata''" _ args E] q
    by blast
  show ?thesis
  proof (cases "tid = []")
    case True
    have "delete_run_stmt (\<lambda>r. r_run_id r = i \<and> (fr = FragNone \<or> thread_visible ok (db w) r)) (db w) =
      delete_run_stmt (\<lambda>r. run_named E i tid r \<and> visible E fs (t_metadata (thread_of (db w) r))) (db w)"
      by (rule delete_run_stmt_cong) (simp add: vis run_named_def True)
    with True q ok(1) assms(1,4) show ?thesis
      by (simp add: run_Delete_def numeral_2_eq_2 bnd_def stmt_run cast_uuid_def)
  next
    case False
    with assms(5) obtain j where j: "pg_uuid E tid = Some j" by auto
    have "delete_run_stmt (\<lambda>r. r_run_id r = i \<and> r_thread_id r = j \<and> (fr = FragNone \<or> thread_visible ok (db w) r)) (db w) =
      delete_run_stmt (\<lambda>r. run_named E i tid r \<and> visible E fs (t_metadata (thread_of (db w) r))) (db w)"
      by (rule delete_run_stmt_cong) (auto simp: vis run_named_def False j)
    with False j q ok(1) assms(1,4) show ?thesis
      by (simp add: run_Delete_def numeral_3_eq_3 bnd_def stmt_run cast_uuid_def)
  qed
qed

text \<open>
  (C11) \<^verbatim>\<open>Delete\<close> on a database that answers: a run that is not there, not in the thread, or hidden by the filters is
  \<^verbatim>\<open>ErrNotFound\<close> and nothing changes. Otherwise the run goes, with its checkpoints and the writes of those
  checkpoints, and every other run, checkpoint and write stays.
\<close>

theorem delete_exact:
  assumes "faults w = []" and "db_ok (db w)" and "auth_ok E fs" and "pg_uuid E s = Some i"
    and "tid = [] \<or> pg_uuid E tid \<noteq> None"
  shows "run_Delete E s tid fs w =
    (let S = (\<lambda>r. run_named E i tid r \<and> visible E fs (t_metadata (thread_of (db w) r)));
         gone = (\<lambda>c. c_run_id c = Some i); cps = filter gone (checkpoints (db w))
     in if \<not> list_ex S (runs (db w)) then (Inl ErrNotFound, w)
        else (Inr i, w\<lparr>db := (db w)\<lparr>runs := filter (\<lambda>r. r_run_id r \<noteq> i) (runs (db w)),
               checkpoints := filter (\<lambda>c. \<not> gone c) (checkpoints (db w)),
               writes := filter (\<lambda>x. \<not> list_ex (\<lambda>c. w_checkpoint_id x = c_id c \<and> w_thread_id x = c_thread_id c \<and>
                 w_ns x = c_ns c) cps) (writes (db w))\<rparr>\<rparr>))"
proof -
  define S where "S = (\<lambda>r. run_named E i tid r \<and> visible E fs (t_metadata (thread_of (db w) r)))"
  have core: "(case delete_run_stmt S (db w) of (x, d) \<Rightarrow> first_row ErrNotFound x (w\<lparr>db := d\<rparr>)) =
    (if \<not> list_ex S (runs (db w)) then (Inl ErrNotFound, w)
     else (Inr i, w\<lparr>db := (db w)\<lparr>runs := filter (\<lambda>r. r_run_id r \<noteq> i) (runs (db w)),
               checkpoints := filter (\<lambda>c. c_run_id c \<noteq> Some i) (checkpoints (db w)),
               writes := filter (\<lambda>x. \<not> list_ex (\<lambda>c. w_checkpoint_id x = c_id c \<and> w_thread_id x = c_thread_id c \<and>
                 w_ns x = c_ns c) (filter (\<lambda>c. c_run_id c = Some i) (checkpoints (db w)))) (writes (db w))\<rparr>\<rparr>))"
  proof (cases "list_ex S (runs (db w))")
    case False
    then have "filter S (runs (db w)) = []" by (auto simp: list_ex_iff filter_empty_conv)
    with False show ?thesis by (simp add: delete_run_none first_row_def throw_def)
  next
    case True
    then obtain r where r: "r \<in> set (runs (db w))" "S r" by (auto simp: list_ex_iff)
    then have i: "r_run_id r = i" by (simp add: S_def run_named_def)
    have one: "filter (\<lambda>x. r_run_id x = i) (runs (db w)) = [r]"
      using filter_key_single[of r_run_id "runs (db w)" r] r(1) i assms(2) by (simp add: db_ok_def keys_ok_def)
    have "filter S (runs (db w)) = filter S (filter (\<lambda>x. r_run_id x = i) (runs (db w)))"
      by (auto simp: S_def run_named_def intro!: filter_cong)
    with one r(2) have "filter S (runs (db w)) = [r]" by simp
    moreover have "(\<forall>j \<in> set_option x. j \<notin> {i}) \<longleftrightarrow> x \<noteq> Some i" "(\<exists>j \<in> set_option x. j \<in> {i}) \<longleftrightarrow> x = Some i" for x
      by (cases x; auto)+
    moreover have "{x \<in> set (runs (db w)). r_run_id x = i} = {r}"
      using arg_cong[OF one, of set] by simp
    ultimately show ?thesis
      using True one i by (simp add: delete_run_stmt_def del_runs_def Let_def first_row_def ret_def)
  qed
  have "bnd (stmt (\<lambda>_ d. Inr (delete_run_stmt S d))) (first_row ErrNotFound) w =
      (case delete_run_stmt S (db w) of (x, d) \<Rightarrow> first_row ErrNotFound x (w\<lparr>db := d\<rparr>))"
    using assms(1) by (simp add: bnd_def stmt_run case_prod_beta)
  moreover have "run_Delete E s tid fs w = bnd (stmt (\<lambda>_ d. Inr (delete_run_stmt S d))) (first_row ErrNotFound) w"
    by (rule delete_selects[OF assms, folded S_def])
  ultimately show ?thesis
    using core by (simp add: S_def Let_def)
qed

theorem delete_exact_witness:
  "fst (run_Delete sample_env ''r1'' ''t1'' [] sample_world) = Inr ''r1''"
  using delete_exact[OF sample_faults sample_ok, of sample_env "[]" "''r1''" "''r1''" "''t1''"]
  by (simp add: auth_ok_def run_named_def list_ex_iff Let_def sample_defs)

end
