(* ===== verification/Runs_Lease.thy ===== *)
theory Runs_Lease
  imports Sample
begin

text \<open>
  The life of a lease: \<^verbatim>\<open>Next\<close> claims due pending runs in order of age, \<^verbatim>\<open>ExtendLease\<close> is the
  heartbeat, \<^verbatim>\<open>Sweep\<close> returns runs with an expired lease to the queue and fences their workers.
\<close>

section \<open>Claiming\<close>

text \<open>Stored run ids are canonical: the cast to \<^verbatim>\<open>uuid\<close> maps the text of a stored id to that id.\<close>

definition canonical :: "env \<Rightarrow> db \<Rightarrow> bool" where
  "canonical E d = (\<forall>r \<in> set (runs d). pg_uuid E (r_run_id r) = Some (r_run_id r))"

lemma next_pending_set: "set (next_pending l t d) \<subseteq> {r \<in> set (runs d). claimable t d r}"
  using set_take_subset by (fastforce simp: next_pending_def)

lemma next_pending_length: "length (next_pending l t d) \<le> l"
  by (simp add: next_pending_def)

lemma next_pending_nonempty:
  "0 < l \<Longrightarrow> r \<in> set (runs d) \<Longrightarrow> claimable t d r \<Longrightarrow> next_pending l t d \<noteq> []"
  by (auto simp: next_pending_def filter_empty_conv sort_key_def)
    (metis filter_empty_conv length_0_conv length_sort sort_key_def)

lemma next_pending_oldest:
  assumes "r \<in> set (next_pending l t d)" and "r' \<in> set (runs d)" "claimable t d r'"
    and "r' \<notin> set (next_pending l t d)"
  shows "by_created_asc r \<le> by_created_asc r'"
proof -
  let ?s = "sort_key by_created_asc (filter (claimable t d) (runs d))"
  have "r' \<in> set ?s" using assms(2,3) by simp
  with assms(4) have "r' \<in> set (drop l ?s)"
    by (metis Un_iff append_take_drop_id next_pending_def set_append)
  moreover have "sorted (map by_created_asc (take l ?s @ drop l ?s))" by simp
  ultimately show ?thesis
    using assms(1) unfolding map_append sorted_append next_pending_def by force
qed

lemma run_Get_by_id:
  assumes "db_ok (db w)"
  shows "run_Get E i [] [] w = bnd (query (\<lambda>_ d. rb (cast_uuid E i) (\<lambda>rid.
           Inr (map scanRun (filter (\<lambda>r. r_run_id r = rid) (runs d)))))) (first_row ErrNotFound) w"
proof -
  have "map (scanRun \<circ> fst) (filter (\<lambda>(r, t). r_run_id r = rid) (run_join_thread (db w))) =
        map scanRun (filter (\<lambda>r. r_run_id r = rid) (runs (db w)))" for rid
    using join_thread_filter[OF assms, of "\<lambda>r t. r_run_id r = rid" "\<lambda>r. r_run_id r = rid"]
    by (metis map_map)
  then show ?thesis
    by (simp add: run_Get_def ApplyToQuery_def auth_where_def bnd_def query_def stmt_alt
        cong: option.case_cong)
qed

lemma run_Get_by_id_Inr:
  assumes "db_ok (db w)" and "r \<in> set (runs (db w))" and "pg_uuid E (r_run_id r) = Some (r_run_id r)"
    and "run_Get E (r_run_id r) [] [] w = (Inr x, w')"
  shows "x = scanRun r \<and> db w' = db w \<and> now w' = now w"
proof -
  have "filter (\<lambda>r'. r_run_id r' = r_run_id r) (runs (db w)) = [r]"
    using assms(1,2) by (intro filter_key_single) (auto simp: db_ok_def keys_ok_def)
  with assms(3,4) show ?thesis
    by (auto simp: run_Get_by_id[OF assms(1)] res_iff)
qed

lemma refetch_Inr:
  assumes "refetch E (map r_run_id rs) w = (Inr cs, w')" and "db_ok (db w)" and "set rs \<subseteq> set (runs (db w))"
    and "\<forall>r \<in> set rs. pg_uuid E (r_run_id r) = Some (r_run_id r)"
  shows "cs = map (\<lambda>r. \<lparr>cl_Run = scanRun r, cl_Attempt = r_attempt r\<rparr>) rs \<and> db w' = db w \<and> now w' = now w"
  using assms
proof (induction rs arbitrary: w cs)
  case Nil
  then show ?case by (simp add: res_iff)
next
  case (Cons r rs)
  from Cons.prems(1) obtain x w1 cs1 where
      g: "run_Get E (r_run_id r) [] [] w = (Inr x, w1)" and
      rec: "refetch E (map r_run_id rs) w1 = (Inr cs1, w')" and
      cs: "cs = \<lparr>cl_Run = x, cl_Attempt = RunAttempt x\<rparr> # cs1"
    by (auto simp: res_iff)
  have "x = scanRun r \<and> db w1 = db w \<and> now w1 = now w"
    using run_Get_by_id_Inr[OF Cons.prems(2) _ _ g] Cons.prems(3,4) by simp
  with Cons.IH[OF rec] Cons.prems cs show ?case
    by (simp add: scanRun_def)
qed

lemma upd_runs_hits:
  assumes "set rs \<subseteq> set (runs d)"
  shows "set (map f rs) \<subseteq> set (runs (upd_runs (\<lambda>r. r_run_id r \<in> set (map r_run_id rs)) f d))"
  using assms by (auto simp: image_iff)

text \<open>The transaction of \<^verbatim>\<open>Next\<close>: which runs it takes and what it writes.\<close>

lemma run_Next_Inr:
  assumes "run_Next E ttl n w = (Inr cs, w')" and "db_ok (db w)" and "canonical E (db w)"
  defines "rs \<equiv> next_pending (if n = 0 then 1 else n) (now w) (db w)"
  shows "db w' = upd_runs (\<lambda>r. r_run_id r \<in> r_run_id ` set rs) (claim ttl (now w)) (db w)"
    and "cs = map (\<lambda>r. \<lparr>cl_Run = scanRun (claim ttl (now w) r), cl_Attempt = r_attempt r + 1\<rparr>) rs"
proof -
  let ?P = "\<lambda>r. r_run_id r \<in> r_run_id ` set rs"
  let ?d = "upd_runs ?P (claim ttl (now w)) (db w)"
  have sub: "set rs \<subseteq> set (runs (db w))"
    using next_pending_set unfolding rs_def by fast
  from assms(1) obtain ids w1 where
      ids: "ids = map r_run_id rs" and re: "refetch E ids w1 = (Inr cs, w')" and
      w1: "db w1 = ?d" "now w1 = now w"
    by (auto simp: run_Next_def res_iff int8_arg_def rs_def Let_def split: if_splits)
  have ok1: "db_ok (db w1)"
    using w1(1) upd_runs_ok[OF same_keys_claim assms(2)] by simp
  let ?cl = "claim ttl (now w)"
  have "ids = map r_run_id (map ?cl rs)"
    using ids by (simp add: claim_def)
  moreover have "set (map ?cl rs) \<subseteq> set (runs (db w1))"
    using w1(1) sub by (auto simp: image_iff)
  moreover have "\<forall>r \<in> set (map ?cl rs). pg_uuid E (r_run_id r) = Some (r_run_id r)"
    using assms(3) sub by (auto simp: canonical_def claim_def)
  ultimately have "cs = map (\<lambda>r. \<lparr>cl_Run = scanRun r, cl_Attempt = r_attempt r\<rparr>) (map ?cl rs) \<and> db w' = db w1"
    using refetch_Inr[of E "map ?cl rs" w1 cs w'] re ok1 by simp
  then show "db w' = ?d"
    and "cs = map (\<lambda>r. \<lparr>cl_Run = scanRun (claim ttl (now w) r), cl_Attempt = r_attempt r + 1\<rparr>) rs"
    using w1(1) by (auto simp: claim_def)
qed

lemma refetch_run:
  assumes "faults w = []" and "db_ok (db w)" and "set rs \<subseteq> set (runs (db w))"
    and "\<forall>r \<in> set rs. pg_uuid E (r_run_id r) = Some (r_run_id r)"
  shows "refetch E (map r_run_id rs) w = (Inr (map (\<lambda>r. \<lparr>cl_Run = scanRun r, cl_Attempt = r_attempt r\<rparr>) rs), w)"
  using assms(3,4)
proof (induction rs)
  case Nil
  show ?case by (simp add: ret_def)
next
  case (Cons r rs)
  have "filter (\<lambda>r'. r_run_id r' = r_run_id r) (runs (db w)) = [r]"
    using assms(2) Cons.prems(1) by (intro filter_key_single) (auto simp: db_ok_def keys_ok_def)
  then have "run_Get E (r_run_id r) [] [] w = (Inr (scanRun r), w)"
    using Cons.prems(2) assms(1,2)
    by (simp add: run_Get_by_id query_run bnd_def first_row_def ret_def cast_uuid_def)
  with Cons show ?case
    by (simp add: bnd_def ret_def scanRun_def)
qed

lemma run_Next_run:
  assumes "faults w = []" and "db_ok (db w)" and "canonical E (db w)" and "n < 2 ^ 63"
  shows "\<exists>w'. run_Next E ttl n w =
    (Inr (map (\<lambda>r. \<lparr>cl_Run = scanRun (claim ttl (now w) r), cl_Attempt = r_attempt r + 1\<rparr>)
       (next_pending (if n = 0 then 1 else n) (now w) (db w))), w')"
proof -
  define l where "l = (if n = 0 then 1 else n)"
  have l: "int8_arg l = Inr l" using assms(4) by (simp add: int8_arg_def l_def)
  define rs where "rs = next_pending l (now w) (db w)"
  let ?ids = "map r_run_id rs" and ?cl = "claim ttl (now w)"
  define v where "v = w\<lparr>db := upd_runs (\<lambda>r. r_run_id r \<in> set ?ids) ?cl (db w)\<rparr>"
  have sub: "set rs \<subseteq> set (runs (db w))"
    using next_pending_set unfolding rs_def by fast
  have "refetch E (map r_run_id (map ?cl rs)) v =
    (Inr (map (\<lambda>r. \<lparr>cl_Run = scanRun r, cl_Attempt = r_attempt r\<rparr>) (map ?cl rs)), v)"
  proof (rule refetch_run)
    show "faults v = []" using assms(1) by (simp add: v_def)
    show "db_ok (db v)" using upd_runs_ok[OF same_keys_claim assms(2)] by (simp add: v_def)
    show "set (map ?cl rs) \<subseteq> set (runs (db v))" using upd_runs_hits[OF sub] by (simp add: v_def)
    show "\<forall>r \<in> set (map ?cl rs). pg_uuid E (r_run_id r) = Some (r_run_id r)"
      using assms(3) sub by (auto simp: canonical_def)
  qed
  then have re: "refetch E ?ids v =
    (Inr (map (\<lambda>r. \<lparr>cl_Run = scanRun (?cl r), cl_Attempt = r_attempt r + 1\<rparr>) rs), v)"
    by (simp add: comp_def)
  have "run_Next E ttl n w = refetch E ?ids (if rs = [] then w else v)"
    using assms(1) unfolding run_Next_def Let_def l_def[symmetric]
    by (simp add: bnd_def in_tx_run query_run stmt_run l ret_def rs_def[symmetric] v_def)
  then show ?thesis
    using re by (cases "rs = []") (auto simp: ret_def rs_def[symmetric] l_def[symmetric])
qed

lemma sample_canonical: "canonical sample_env (db sample_world)"
  by (simp add: canonical_def sample_defs)

lemma sample_claimable: "claimable 100 sample_db row_r1" 
  by (simp add: claimable_def sample_defs)



text \<open>
  Liveness of the queue: while the database answers, \<^verbatim>\<open>Next\<close> returns at least one run whenever
  some run is claimable (the limit must fit a \<^verbatim>\<open>bigint\<close>).
\<close>

theorem next_progress:
  assumes "faults w = []" and "db_ok (db w)" and "canonical E (db w)" and "n < 2 ^ 63"
    and "r \<in> set (runs (db w))" and "claimable (now w) (db w) r"
  shows "\<exists>cs w'. run_Next E ttl n w = (Inr cs, w') \<and> cs \<noteq> []"
proof -
  have "next_pending (if n = 0 then 1 else n) (now w) (db w) \<noteq> []"
    using next_pending_nonempty[OF _ assms(5,6)] by simp
  moreover obtain w' where "run_Next E ttl n w =
    (Inr (map (\<lambda>r. \<lparr>cl_Run = scanRun (claim ttl (now w) r), cl_Attempt = r_attempt r + 1\<rparr>)
       (next_pending (if n = 0 then 1 else n) (now w) (db w))), w')"
    using run_Next_run[OF assms(1-4)] by blast
  ultimately show ?thesis by simp
qed

theorem next_progress_witness: "\<exists>cs w'. run_Next sample_env 30 1 sample_world = (Inr cs, w') \<and> cs \<noteq> []"
  by (rule next_progress[OF sample_faults sample_ok sample_canonical, where r = row_r1])
    (simp_all add: sample_claimable sample_world_def, simp add: sample_defs)

section \<open>Thread isolation\<close>

text \<open>At most one run of a thread is running.\<close>

definition one_running :: "db \<Rightarrow> bool" where
  "one_running d = (\<forall>r \<in> set (runs d). \<forall>r' \<in> set (runs d).
     r_status r = ''running'' \<and> r_status r' = ''running'' \<and> r_thread_id r = r_thread_id r' \<longrightarrow>
     r_run_id r = r_run_id r')"

lemma claim_one_running:
  assumes "one_running d" and "claimable t d r" and "db_ok d" and "r \<in> set (runs d)"
  shows "one_running (upd_runs (\<lambda>x. r_run_id x = r_run_id r) (claim ttl t) d)"
proof -
  have new: "x = r" if "x \<in> set (runs d)" "r_run_id x = r_run_id r" for x
    using assms(3,4) that by (auto simp: db_ok_def keys_ok_def dest: distinct_key_unique)
  have free: "\<not> (r_thread_id x = r_thread_id r \<and> r_status x = ''running'')" if "x \<in> set (runs d)" for x
    using assms(2) that by (auto simp: claimable_def list_ex_iff)
  show ?thesis
    unfolding one_running_def
  proof (intro ballI impI)
    fix a b
    assume ab: "a \<in> set (runs (upd_runs (\<lambda>x. r_run_id x = r_run_id r) (claim ttl t) d))"
        "b \<in> set (runs (upd_runs (\<lambda>x. r_run_id x = r_run_id r) (claim ttl t) d))"
      and eq: "r_status a = ''running'' \<and> r_status b = ''running'' \<and> r_thread_id a = r_thread_id b"
    have cases: "x = claim ttl t r \<or> (x \<in> set (runs d) \<and> r_run_id x \<noteq> r_run_id r)"
      if "x \<in> set (runs (upd_runs (\<lambda>x. r_run_id x = r_run_id r) (claim ttl t) d))" for x
      using that new by (auto split: if_splits)
    have "r_thread_id (claim ttl t r) = r_thread_id r" by (simp add: claim_def)
    with cases[OF ab(1)] cases[OF ab(2)] eq free assms(1) show "r_run_id a = r_run_id b"
      unfolding one_running_def by metis
  qed
qed

lemma next_pending_one: "length (next_pending 1 t d) \<le> 1"
  using next_pending_length[of 1] .

lemma next_one_running:
  assumes "n \<le> 1" and "db_ok (db w)" and "one_running (db w)"
  shows "one_running (db (snd (run_Next E ttl n w)))"
proof -
  have l: "(if n = 0 then 1 else n) = 1" using assms(1) by simp
  let ?I = "\<lambda>d. d = db w \<or> (\<exists>r \<in> set (runs (db w)). claimable (now w) (db w) r \<and>
              d = upd_runs (\<lambda>x. r_run_id x = r_run_id r) (claim ttl (now w)) (db w))"
  obtain r1 w1 where tx: "in_tx (
           bnd (query (\<lambda>t d. rb (int8_arg 1) (\<lambda>l. Inr (map r_run_id (next_pending l t d))))) (\<lambda>ids.
           if ids = [] then ret (CommitIgn [])
           else bnd (stmt (\<lambda>t d. Inr ((), upd_runs (\<lambda>r. r_run_id r \<in> set ids) (claim ttl t) d)))
                  (\<lambda>_. ret (Commit ids)))) w = (r1, w1)"
    by fastforce
  have "?I (db w1)"
  proof (cases r1)
    case (Inl e)
    with tx show ?thesis by (simp add: in_tx_atomic)
  next
    case (Inr ids)
    show ?thesis
    proof (cases "next_pending 1 (now w) (db w)")
      case Nil
      with tx Inr show ?thesis by (auto simp: res_iff int8_arg_def split: if_splits)
    next
      case (Cons r rs)
      then have "next_pending 1 (now w) (db w) = [r]"
        using next_pending_one[of "now w" "db w"] by simp
      moreover have "r \<in> set (runs (db w))" "claimable (now w) (db w) r"
        using next_pending_set[of 1 "now w" "db w"] Cons by auto
      ultimately show ?thesis
        using tx Inr by (auto simp: res_iff int8_arg_def split: if_splits)
    qed
  qed
  then have one: "one_running (db w1)"
    using assms(2,3) by (elim disjE bexE conjE) (simp_all add: claim_one_running)
  have "run_Next E ttl n w = (case r1 of Inl e \<Rightarrow> (Inl e, w1) | Inr ids \<Rightarrow> refetch E ids w1)"
    using tx by (simp add: run_Next_def l bnd_def)
  moreover have "one_running (db (snd (refetch E ids w1)))" for ids
    using one keeps_refetch[of one_running E ids] by (simp add: keeps_def)
  ultimately show ?thesis
    using one by (cases r1) auto
qed

text \<open>
  Isolation: with a limit of at most one, \<^verbatim>\<open>Next\<close> keeps "at most one running run per thread",
  whatever it returns and wherever the database fails.
\<close>

theorem next_one_keeps_isolation:
  assumes "n \<le> 1" and "db_ok (db w)" and "one_running (db w)"
  shows "one_running (db (snd (run_Next E ttl n w)))"
  using next_one_running[OF assms] .

theorem next_one_keeps_isolation_witness: "one_running (db (snd (run_Next sample_env 30 1 sample_world)))"
  by (rule next_one_keeps_isolation[OF _ sample_ok]) (simp_all add: one_running_def sample_defs)

lemma sample_next_two: "next_pending 2 100 sample_db = [row_r1, sample_run ''r2'' ''t1'' ''pending'' 20]"
  by (simp add: next_pending_def claimable_def by_created_asc_def sample_defs)

text \<open>
  The limit matters: with \<^verbatim>\<open>limit = 2\<close> one call of \<^verbatim>\<open>Next\<close> hands out two pending runs of the same thread, since
  the guard of the query only looks at runs that are already running. Both are then running at once.
\<close>

theorem next_two_breaks_isolation:
  "db_ok (db sample_world) \<and> one_running (db sample_world) \<and>
   (\<exists>cs w'. run_Next sample_env 30 2 sample_world = (Inr cs, w') \<and> map (RunID \<circ> cl_Run) cs = [''r1'', ''r2''] \<and>
      \<not> one_running (db w'))"
proof -
  obtain w' where run: "run_Next sample_env 30 2 sample_world =
      (Inr (map (\<lambda>r. \<lparr>cl_Run = scanRun (claim 30 100 r), cl_Attempt = r_attempt r + 1\<rparr>)
         [row_r1, sample_run ''r2'' ''t1'' ''pending'' 20]), w')"
    using run_Next_run[OF sample_faults sample_ok sample_canonical, of 2 30] sample_next_two
    by (auto simp: sample_world_def)
  have "db w' = upd_runs (\<lambda>r. r_run_id r \<in> {''r1'', ''r2''}) (claim 30 100) sample_db"
    using run_Next_Inr(1)[OF run sample_ok sample_canonical] sample_next_two
    by (simp add: sample_world_def) (simp add: sample_defs)
  then have "\<not> one_running (db w')"
    by (simp add: one_running_def sample_defs claim_def)
  moreover have "one_running (db sample_world)"
    by (simp add: one_running_def sample_defs)
  ultimately show ?thesis
    using run sample_ok by (simp add: scanRun_def) (simp add: sample_defs)
qed

section \<open>Sweep\<close>

lemma requeue_simps [simp]:
  "r_run_id (requeue t r) = r_run_id r" "r_thread_id (requeue t r) = r_thread_id r"
  "r_status (requeue t r) = ''pending''" "r_attempt (requeue t r) = r_attempt r"
  "r_lease_generation (requeue t r) = r_lease_generation r + 1"
  by (simp_all add: requeue_def)

lemma not_expired_requeue [simp]: "\<not> expired t (requeue t' r)"
  by (simp add: expired_def)

text \<open>One candidate: reported as swept exactly if it was expired and the reset was committed.\<close>

lemma sweep_one_spec:
  assumes "sweep_one i w = (res, w')"
  shows "now w' = now w"
    and "res = Inr True \<Longrightarrow> (\<exists>r rs. filter (\<lambda>r. r_run_id r = i) (runs (db w)) = r # rs \<and> expired (now w) r) \<and>
           db w' = upd_runs (\<lambda>r. r_run_id r = i) (requeue (now w)) (db w)"
    and "res \<noteq> Inr True \<Longrightarrow> db w' = db w"
proof -
  show "res = Inr True \<Longrightarrow> (\<exists>r rs. filter (\<lambda>r. r_run_id r = i) (runs (db w)) = r # rs \<and> expired (now w) r) \<and>
           db w' = upd_runs (\<lambda>r. r_run_id r = i) (requeue (now w)) (db w)"
    using assms by (auto simp: sweep_one_def res_iff split: if_splits)
  show "db w' = db w" if "res \<noteq> Inr True"
  proof (cases res)
    case (Inl e)
    with assms show ?thesis by (simp add: sweep_one_def in_tx_atomic)
  next
    case (Inr b)
    with assms that show ?thesis by (auto simp: sweep_one_def res_iff split: if_splits)
  qed
  show "now w' = now w"
    using assms
    by (auto simp: sweep_one_def in_tx_alt bnd_def query_def stmt_alt first_row_def ret_def throw_def
        split: option.splits sum.splits txend.splits prod.splits if_splits list.splits)
qed


lemma upd_runs_insert:
  assumes "same_keys f" and "i \<notin> K"
  shows "upd_runs (\<lambda>r. r_run_id r \<in> K) f (upd_runs (\<lambda>r. r_run_id r = i) f d) =
         upd_runs (\<lambda>r. r_run_id r \<in> insert i K) f d"
  using assms by (simp add: upd_runs_def same_keys_def)

lemma sweep_loop_spec:
  assumes "sweep_loop is sw w = (res, w')" and "distinct is"
  shows "\<exists>e ks. res = Inr (e, sw @ ks) \<and> set ks \<subseteq> set is \<and>
     set ks \<subseteq> r_run_id ` {r \<in> set (runs (db w)). expired (now w) r} \<and>
     db w' = upd_runs (\<lambda>r. r_run_id r \<in> set ks) (requeue (now w)) (db w)"
  using assms
proof (induction "is" arbitrary: sw w)
  case Nil
  then show ?case by (auto simp: ret_def)
next
  case (Cons i "is")
  obtain r1 w1 where one: "sweep_one i w = (r1, w1)" by fastforce
  note spec = sweep_one_spec[OF one]
  show ?case
  proof (cases "fst (tick w)")
    case (Some e)
    with Cons.prems(1) have "res = Inr (Some (DbErr e), sw)" "db w' = db w" by auto
    then show ?thesis by (intro exI[of _ "Some (DbErr e)"] exI[of _ "[]"]) simp
  next
    case None
    let ?sw = "case r1 of Inr True \<Rightarrow> sw @ [i] | _ \<Rightarrow> sw"
    from None Cons.prems(1) one have rest: "sweep_loop is ?sw w1 = (res, w')"
      by (simp add: bnd_def attempt_def)
    from Cons.IH[OF rest] Cons.prems(2) obtain e ks where
        k: "res = Inr (e, ?sw @ ks)" "set ks \<subseteq> set is"
          "set ks \<subseteq> r_run_id ` {r \<in> set (runs (db w1)). expired (now w1) r}"
          "db w' = upd_runs (\<lambda>r. r_run_id r \<in> set ks) (requeue (now w1)) (db w1)" by auto
    show ?thesis
    proof (cases "r1 = Inr True")
      case True
      obtain r where r: "r \<in> set (runs (db w))" "r_run_id r = i" "expired (now w) r"
        using spec(2)[OF True] by (metis (mono_tags, lifting) filter_eq_Cons_iff in_set_conv_decomp)
      have "set ks \<subseteq> r_run_id ` {r \<in> set (runs (db w)). expired (now w) r}"
        using k(3) spec(1) spec(2)[OF True] by (force split: if_splits)
      moreover have "db w' = upd_runs (\<lambda>r. r_run_id r \<in> insert i (set ks)) (requeue (now w)) (db w)"
        using k(2,4) Cons.prems(2) spec(1) spec(2)[OF True] by (subst upd_runs_insert[symmetric]) auto
      ultimately show ?thesis
        using k(1,2) True r by (intro exI[of _ e] exI[of _ "i # ks"]) auto
    next
      case False
      then have "?sw = sw" by (auto split: sum.splits bool.splits)
      with k spec(1) spec(3)[OF False] show ?thesis by (intro exI[of _ e] exI[of _ ks]) auto
    qed
  qed
qed

text \<open>Neither the queries nor the transactions of the store talk to Redis.\<close>

lemma sweep_one_redis: "sweep_one i w = (res, w') \<Longrightarrow> redis w' = redis w"
  by (auto simp: sweep_one_def in_tx_alt bnd_def query_def stmt_alt first_row_def ret_def throw_def
      split: option.splits sum.splits txend.splits prod.splits if_splits list.splits)

lemma sweep_loop_redis: "sweep_loop is sw w = (res, w') \<Longrightarrow> redis w' = redis w"
proof (induction "is" arbitrary: sw w)
  case Nil
  then show ?case by (simp add: ret_def)
next
  case (Cons i "is")
  obtain r1 w1 where one: "sweep_one i w = (r1, w1)" by fastforce
  with Cons.prems have "redis w' = redis w1 \<or> redis w' = redis w"
    by (auto simp: bnd_def attempt_def split: option.splits dest: Cons.IH)
  with sweep_one_redis[OF one] show ?case by auto
qed

lemma sweep_redis: "run_Sweep w = (res, w') \<Longrightarrow> redis w' = redis w"
  by (auto simp: run_Sweep_def query_def stmt_alt split: option.splits dest: sweep_loop_redis)

lemma sweep_one_run:
  assumes "faults w = []" and "filter (\<lambda>r. r_run_id r = i) (runs (db w)) = [r]" and "expired (now w) r"
  shows "sweep_one i w = (Inr True, w\<lparr>db := upd_runs (\<lambda>r. r_run_id r = i) (requeue (now w)) (db w)\<rparr>)"
  using assms by (simp add: sweep_one_def bnd_def in_tx_run query_run stmt_run first_row_def ret_def)

lemma filter_other_key:
  assumes "i \<noteq> j" and "same_keys f"
  shows "filter (\<lambda>r. r_run_id r = j) (runs (upd_runs (\<lambda>r. r_run_id r = i) f d)) =
         filter (\<lambda>r. r_run_id r = j) (runs d)"
proof -
  have "filter (\<lambda>r. r_run_id r = j) (map (\<lambda>r. if r_run_id r = i then f r else r) rs) =
        filter (\<lambda>r. r_run_id r = j) rs" for rs
    using assms by (induction rs) (auto simp: same_keys_def)
  then show ?thesis by simp
qed

lemma sweep_loop_run:
  assumes "faults w = []" and "distinct is"
    and "\<forall>i \<in> set is. \<exists>r. filter (\<lambda>r. r_run_id r = i) (runs (db w)) = [r] \<and> expired (now w) r"
  shows "fst (sweep_loop is sw w) = Inr (None, sw @ is)"
  using assms
proof (induction "is" arbitrary: sw w)
  case Nil
  then show ?case by (simp add: ret_def)
next
  case (Cons i "is")
  let ?w = "w\<lparr>db := upd_runs (\<lambda>r. r_run_id r = i) (requeue (now w)) (db w)\<rparr>"
  have "sweep_one i w = (Inr True, ?w)"
    using sweep_one_run[OF Cons.prems(1)] Cons.prems(3) by auto
  moreover have "fst (sweep_loop is (sw @ [i]) ?w) = Inr (None, (sw @ [i]) @ is)"
  proof (rule Cons.IH)
    have "filter (\<lambda>r. r_run_id r = j) (runs (db ?w)) = filter (\<lambda>r. r_run_id r = j) (runs (db w))" if "j \<in> set is" for j
      using Cons.prems(2) that filter_other_key[OF _ same_keys_requeue, of i j "now w" "db w"] by auto
    then show "\<forall>j \<in> set is. \<exists>r. filter (\<lambda>r. r_run_id r = j) (runs (db ?w)) = [r] \<and> expired (now ?w) r"
      using Cons.prems(3) by simp
  qed (use Cons.prems in auto)
  ultimately show ?case
    using Cons.prems(1) by (simp add: bnd_def attempt_def)
qed

lemma upd_runs_none: "(\<And>r. r \<in> set (runs d) \<Longrightarrow> \<not> P r) \<Longrightarrow> upd_runs P f d = d"
  by (simp add: upd_runs_def map_idI)

lemma sweep_spec:
  assumes "db_ok (db w)"
  shows "\<exists>e ks w'. run_Sweep w = (Inr (e, ks), w') \<and>
     set ks \<subseteq> r_run_id ` {r \<in> set (runs (db w)). expired (now w) r} \<and>
     db w' = upd_runs (\<lambda>r. r_run_id r \<in> set ks) (requeue (now w)) (db w) \<and>
     (faults w = [] \<longrightarrow> e = None \<and> ks = map r_run_id (filter (expired (now w)) (runs (db w))))"
proof -
  let ?c = "map r_run_id (filter (expired (now w)) (runs (db w)))"
  have d: "distinct ?c"
    using assms by (simp add: db_ok_def keys_ok_def distinct_map_filter)
  have nf: "\<forall>i \<in> set ?c. \<exists>r. filter (\<lambda>r. r_run_id r = i) (runs (db w)) = [r] \<and> expired (now w) r"
    using assms filter_key_single[of r_run_id "runs (db w)"] by (auto simp: db_ok_def keys_ok_def)
  show ?thesis
  proof (cases "fst (tick w)")
    case (Some e)
    then have "faults w \<noteq> []" by (auto simp: tick_def)
    with Some show ?thesis
      by (intro exI[of _ "Some (DbErr e)"] exI[of _ "[]"] exI[of _ "after w"])
        (simp add: run_Sweep_def query_def stmt_alt)
  next
    case None
    obtain res w' where l: "sweep_loop ?c [] (after w) = (res, w')" by fastforce
    then have run: "run_Sweep w = (res, w')"
      using None by (simp add: run_Sweep_def query_def stmt_alt)
    have "res = Inr (None, ?c)" if "faults w = []"
      using sweep_loop_run[OF that d nf, of "[]"] l that by simp
    with sweep_loop_spec[OF l d] run show ?thesis by auto
  qed
qed

text \<open>
  (C5) \<^verbatim>\<open>Sweep\<close> under every fault schedule: it always returns a list, the list holds ids of runs whose lease had run out,
  and exactly the listed runs were returned to the queue (pending, no holder, no expiry, next generation). While the
  database answers it reports no error and the list is that of all expired runs.
\<close>

theorem sweep_exact:
  assumes "db_ok (db w)"
  shows "\<exists>e ks w'. run_Sweep w = (Inr (e, ks), w') \<and>
     set ks \<subseteq> r_run_id ` {r \<in> set (runs (db w)). expired (now w) r} \<and>
     db w' = upd_runs (\<lambda>r. r_run_id r \<in> set ks) (requeue (now w)) (db w) \<and>
     (faults w = [] \<longrightarrow> e = None \<and> ks = map r_run_id (filter (expired (now w)) (runs (db w))))"
  using sweep_spec[OF assms] .

lemma sample_expired: "filter (expired 100) (runs sample_db) =
  [(sample_run ''r3'' ''t2'' ''running'' 5)\<lparr>r_lease_expires_at := Some 50, r_lease_generation := 1, r_attempt := 1\<rparr>]"
  by (simp add: expired_def sample_defs)

theorem sweep_exact_witness: "\<exists>w'. run_Sweep sample_world = (Inr (None, [''r3'']), w')"
  using sweep_exact[OF sample_ok] sample_expired sample_faults
  by (auto simp: sample_world_def) (simp add: sample_defs)

lemma swept_not_extended:
  assumes "db_ok (db w)" and "run_Sweep w = (Inr (e, ks), w')" and "pg_uuid E s = Some i" and "i \<in> set ks"
    and "faults w' = []"
  shows "run_ExtendLease E ttl s holder w' = (Inl ErrNotFound, w')"
proof -
  have d: "db w' = upd_runs (\<lambda>r. r_run_id r \<in> set ks) (requeue (now w)) (db w)"
    using sweep_spec[OF assms(1)] assms(2) by auto
  have free: "\<not> (r_run_id r = i \<and> r_status r = ''running'')" if "r \<in> set (runs (db w'))" for r
    using that assms(4) by (auto simp: d split: if_splits)
  have none: "filter (\<lambda>r. r_run_id r = i \<and> Q r \<and> r_status r = ''running'') (runs (db w')) = []"
    and upd: "upd_runs (\<lambda>r. r_run_id r = i \<and> Q r \<and> r_status r = ''running'') f (db w') = db w'" for Q f
    using free by (auto simp: filter_empty_conv intro!: upd_runs_none)
  show ?thesis
    using assms(3,5) none[of "\<lambda>_. True"] upd[of "\<lambda>_. True"] none[of "\<lambda>r. r_lease_holder_id r = Some holder"]
      upd[of "\<lambda>r. r_lease_holder_id r = Some holder"]
    by (cases "holder = []") (simp_all add: run_ExtendLease_def bnd_def stmt_run cast_uuid_def throw_def)
qed

text \<open>
  Fencing: once \<^verbatim>\<open>Sweep\<close> has listed a run, the heartbeat of its former worker is
  refused, with or without a holder id, and changes nothing.
\<close>

theorem sweep_fences:
  assumes "db_ok (db w)" and "run_Sweep w = (Inr (e, ks), w')" and "pg_uuid E s = Some i" and "i \<in> set ks"
    and "faults w' = []"
  shows "run_ExtendLease E ttl s holder w' = (Inl ErrNotFound, w')"
  using swept_not_extended[OF assms] .

theorem sweep_fences_witness:
  "\<exists>w'. run_Sweep sample_world = (Inr (None, [''r3'']), w') \<and>
     run_ExtendLease sample_env 30 ''r3'' ''worker-1'' w' = (Inl ErrNotFound, w')"
proof -
  obtain w' where run: "run_Sweep sample_world = (Inr (None, [''r3'']), w')"
    using sweep_spec[OF sample_ok] sample_expired sample_faults
    by (auto simp: sample_world_def) (simp add: sample_defs)
  moreover have "faults (snd (run_Sweep sample_world)) = []"
    by code_simp
  ultimately show ?thesis
    using sweep_fences[OF sample_ok run, of sample_env "''r3''" "''r3''"] by (simp add: sample_env_def)
qed

end
