(* ===== verification/Streams.thy ===== *)
theory Streams
  imports Db
begin

text \<open>
  Redis from the server's side: the names of keys and channels (\<^verbatim>\<open>internal/stream/keys.go\<close>), the
  wrappers of the stream commands (\<^verbatim>\<open>internal/stream/stream.go\<close>) and the cache service
  (\<^verbatim>\<open>internal/cache\<close>, \<^verbatim>\<open>internal/auth/userid.go\<close>). What Redis answers is an argument (\<open>reply\<close>); ids are canonical UUID texts.
\<close>

section \<open>Keys and channels\<close>

definition RunStreamKey :: "uuid \<Rightarrow> string" where
  "RunStreamKey runID = ''run:'' @ runID @ '':stream''"

definition ThreadStreamKey :: "uuid \<Rightarrow> string" where
  "ThreadStreamKey threadID = ''thread:'' @ threadID @ '':events''"

definition RunControlChannel :: "uuid \<Rightarrow> string" where
  "RunControlChannel runID = ''run:'' @ runID @ '':control''"

definition RunTerminalChannel :: "uuid \<Rightarrow> string" where
  "RunTerminalChannel runID = ''run:'' @ runID @ '':terminal''"

definition RunQueueKey :: string where
  "RunQueueKey = ''run:queue''"

definition CacheKey :: "string \<Rightarrow> string \<Rightarrow> string" where
  "CacheKey userID key = ''cache:'' @ userID @ '':'' @ key"

section \<open>Streams\<close>

datatype 'a reply = Reply 'a | RedisNil | RedisErr string

record stream_entry =
  en_ID :: string
  en_Fields :: "(string \<times> string) list"

definition XAdd :: "(redis_cmd \<Rightarrow> string reply) \<Rightarrow> string \<Rightarrow> (string \<times> string) list \<Rightarrow> int \<Rightarrow> string + string" where
  "XAdd redisf key flds maxLen =
     (case redisf (XAddEntry key flds maxLen) of
        Reply i \<Rightarrow> Inr i | RedisNil \<Rightarrow> Inl ''redis: nil'' | RedisErr e \<Rightarrow> Inl e)"

text \<open>\<^verbatim>\<open>LastID\<close>: the reply to \<^verbatim>\<open>XREVRANGE key + - COUNT 1\<close>.\<close>

definition LastID :: "stream_entry list reply \<Rightarrow> string + string" where
  "LastID rep =
     (case rep of
        RedisNil \<Rightarrow> Inl ''redis: nil''
      | RedisErr e \<Rightarrow> Inl e
      | Reply entries \<Rightarrow> (case entries of [] \<Rightarrow> Inr ''0-0'' | e # _ \<Rightarrow> Inr (en_ID e)))"

text \<open>The \<^verbatim>\<open>Block\<close> argument of \<^verbatim>\<open>XREAD\<close> in milliseconds; \<open>None\<close> (a negative duration) leaves the option out.\<close>

definition xread_block :: "int \<Rightarrow> int option" where
  "xread_block blockMillis = (if blockMillis \<le> 0 then None else Some blockMillis)"

definition XReadFrom :: "stream_entry list list reply \<Rightarrow> string + stream_entry list" where
  "XReadFrom rep =
     (case rep of
        RedisNil \<Rightarrow> Inr []
      | RedisErr e \<Rightarrow> Inl e
      | Reply results \<Rightarrow> (case results of [] \<Rightarrow> Inr [] | msgs # _ \<Rightarrow> Inr msgs))"

section \<open>Subscriptions\<close>

text \<open>
  A subscription: its channels, and whether its \<^verbatim>\<open>sync.Once\<close> has run. \<open>receive\<close> is the acknowledgement of Redis, \<open>err\<close> what the client says to
  the first \<^verbatim>\<open>Close\<close>; the connection of a subscription that is not acknowledged is closed before the error is returned.
\<close>

record Subscription =
  sub_channels :: "string list"
  sub_closed :: bool

definition Subscribe :: "(string list \<Rightarrow> string option) \<Rightarrow> string list \<Rightarrow> string + Subscription" where
  "Subscribe receive channels =
     (case receive channels of Some e \<Rightarrow> Inl e | None \<Rightarrow> Inr \<lparr>sub_channels = channels, sub_closed = False\<rparr>)"

definition sub_Close :: "string option \<Rightarrow> Subscription \<Rightarrow> string option \<times> Subscription" where
  "sub_Close err s = (if sub_closed s then (None, s) else (err, s\<lparr>sub_closed := True\<rparr>))"

definition stream_Publish :: "(redis_cmd \<Rightarrow> unit reply) \<Rightarrow> string \<Rightarrow> string \<Rightarrow> string + unit" where
  "stream_Publish redisf channel payload =
     (case redisf (PublishMsg channel payload) of Reply _ \<Rightarrow> Inr () | RedisNil \<Rightarrow> Inl ''redis: nil'' | RedisErr e \<Rightarrow> Inl e)"

text \<open>A second \<^verbatim>\<open>Close\<close> does nothing and reports nothing, whatever the first one reported.\<close>

lemma sub_Close_idempotent: "sub_Close e' (snd (sub_Close e s)) = (None, snd (sub_Close e s))"
  by (simp add: sub_Close_def)

section \<open>Cache\<close>

text \<open>The incoming gRPC metadata: \<open>None\<close> without metadata, else the values of each header.\<close>

type_synonym grpc_md = "(string \<Rightarrow> string list) option"

definition UserIDFromContext :: "grpc_md \<Rightarrow> string + string" where
  "UserIDFromContext md =
     (case md of
        None \<Rightarrow> Inl ''no gRPC metadata in context''
      | Some m \<Rightarrow> (case m ''x-user-id'' of
          [] \<Rightarrow> Inl ''missing or empty metadata header''
        | v # _ \<Rightarrow> if v = [] then Inl ''missing or empty metadata header'' else Inr v))"

text \<open>The guards of both handlers, in their order; the result is the key sent to Redis.\<close>

definition cache_key_of :: "grpc_md \<Rightarrow> string \<Rightarrow> status + string" where
  "cache_key_of md key =
     rb (ValidateKey key) (\<lambda>_.
     case UserIDFromContext md of
       Inl _ \<Rightarrow> Inl (StatusError Unauthenticated)
     | Inr userID \<Rightarrow> rb (ValidateKey userID) (\<lambda>_. Inr (CacheKey userID key)))"

text \<open>\<^verbatim>\<open>Cache.Set\<close> and the handler \<^verbatim>\<open>Set\<close>: the command sent and its outcome. A TTL is in nanoseconds, 0 for none.\<close>

definition cache_svc_Set :: "(string \<Rightarrow> string \<Rightarrow> int \<Rightarrow> unit reply) \<Rightarrow> grpc_md \<Rightarrow> string \<Rightarrow> string \<Rightarrow> int option \<Rightarrow> status + unit" where
  "cache_svc_Set redis_set md key v ttl =
     rb (cache_key_of md key) (\<lambda>namespacedKey.
     case redis_set namespacedKey v (case ttl of None \<Rightarrow> 0 | Some t \<Rightarrow> t) of
       Reply _ \<Rightarrow> Inr () | _ \<Rightarrow> Inl (StatusError Internal))"

definition cache_Get :: "(string \<Rightarrow> string reply) \<Rightarrow> string \<Rightarrow> err + string" where
  "cache_Get redis_get k =
     (case redis_get k of Reply v \<Rightarrow> Inr v | RedisNil \<Rightarrow> Inl ErrNotFound | RedisErr e \<Rightarrow> Inl (DbErr e))"

definition cache_svc_Get :: "(string \<Rightarrow> string reply) \<Rightarrow> grpc_md \<Rightarrow> string \<Rightarrow> status + string option" where
  "cache_svc_Get redis_get md key =
     rb (cache_key_of md key) (\<lambda>namespacedKey.
     case cache_Get redis_get namespacedKey of
       Inr v \<Rightarrow> Inr (Some v)
     | Inl ErrNotFound \<Rightarrow> Inr None
     | Inl _ \<Rightarrow> Inl (StatusError Internal))"

section \<open>Separation of names\<close>

text \<open>Composed keys: a prefix, an id without the separator, a suffix that starts with the separator.\<close>

definition no_colon :: "string \<Rightarrow> bool" where
  "no_colon s = list_all (\<lambda>c. c \<noteq> CHR '':'') s"

lemma no_colon_split:
  "no_colon a \<Longrightarrow> no_colon b \<Longrightarrow> a @ CHR '':'' # x = b @ CHR '':'' # y \<Longrightarrow> a = b \<and> x = y"
proof (induction a arbitrary: b)
  case Nil
  then show ?case by (cases b) (auto simp: no_colon_def)
next
  case (Cons c a)
  then show ?case by (cases b) (auto simp: no_colon_def)
qed

lemma run_key_neq:
  "no_colon a \<Longrightarrow> no_colon b \<Longrightarrow> x \<noteq> y \<Longrightarrow> ''run:'' @ a @ CHR '':'' # x \<noteq> ''run:'' @ b @ CHR '':'' # y"
  by (metis no_colon_split same_append_eq)

lemma queue_no_colon: "''queue'' \<noteq> a @ CHR '':'' # x"
proof
  assume "''queue'' = a @ CHR '':'' # x"
  then have "CHR '':'' \<in> set ''queue''" by (metis in_set_conv_decomp)
  then show False by simp
qed

lemmas key_defs = RunStreamKey_def ThreadStreamKey_def RunControlChannel_def RunTerminalChannel_def RunQueueKey_def CacheKey_def

text \<open>The interface of a keyspace: a key per id, from which the id can be read back.\<close>

locale keyspace =
  fixes key :: "uuid \<Rightarrow> string"
  assumes key_inj: "no_colon a \<Longrightarrow> no_colon b \<Longrightarrow> key a = key b \<Longrightarrow> a = b"
begin

lemma distinct_keys: "\<forall>i \<in> set is. no_colon i \<Longrightarrow> distinct is \<Longrightarrow> distinct (map key is)"
  by (auto simp: distinct_map inj_on_def dest: key_inj)

lemma image_disjoint:
  "\<forall>i \<in> A \<union> B. no_colon i \<Longrightarrow> A \<inter> B = {} \<Longrightarrow> key ` A \<inter> key ` B = {}"
  by (auto dest: key_inj)

end

interpretation run_stream: keyspace RunStreamKey
  by unfold_locales (auto simp: key_defs dest: no_colon_split)

interpretation thread_stream: keyspace ThreadStreamKey
  by unfold_locales (auto simp: key_defs dest: no_colon_split)

interpretation run_control: keyspace RunControlChannel
  by unfold_locales (auto simp: key_defs dest: no_colon_split)

interpretation run_terminal: keyspace RunTerminalChannel
  by unfold_locales (auto simp: key_defs dest: no_colon_split)

interpretation user_cache: keyspace "\<lambda>u. CacheKey u k" for k
  by unfold_locales (auto simp: key_defs dest: no_colon_split)

lemma key_char_no_colon_list: "list_all key_char s \<Longrightarrow> no_colon s"
  by (auto simp: no_colon_def list_all_iff dest: key_char_no_colon)

text \<open>
  No two uses of Redis collide: for ids without a colon, as every UUID text is, the stream, control and terminal names of any two runs, the
  stream of any thread and the work queue are all different names, and equal names of one kind belong to one id.
\<close>

theorem redis_names_disjoint:
  assumes "no_colon r" and "no_colon r'" and "no_colon t"
  shows "distinct [RunStreamKey r, RunControlChannel r', RunTerminalChannel r, ThreadStreamKey t, RunQueueKey] \<and>
    RunStreamKey r \<noteq> RunTerminalChannel r' \<and>
    (RunStreamKey r = RunStreamKey r' \<longleftrightarrow> r = r') \<and> (RunControlChannel r = RunControlChannel r' \<longleftrightarrow> r = r') \<and>
    (RunTerminalChannel r = RunTerminalChannel r' \<longleftrightarrow> r = r')"
proof -
  have "RunStreamKey r \<noteq> RunControlChannel r'" "RunControlChannel r' \<noteq> RunTerminalChannel r"
    "RunStreamKey r \<noteq> RunTerminalChannel r'" "RunStreamKey r \<noteq> RunTerminalChannel r"
    unfolding RunStreamKey_def RunControlChannel_def RunTerminalChannel_def
    by (rule run_key_neq; simp add: assms)+
  moreover have "RunQueueKey \<noteq> RunStreamKey r" "RunQueueKey \<noteq> RunControlChannel r'" "RunQueueKey \<noteq> RunTerminalChannel r"
    using queue_no_colon[of r "''stream''"] queue_no_colon[of r' "''control''"] queue_no_colon[of r "''terminal''"]
    by (simp_all only: key_defs append.simps list.inject simp_thms not_False_eq_True)
  moreover have "RunStreamKey r \<noteq> ThreadStreamKey t" "RunControlChannel r' \<noteq> ThreadStreamKey t"
    "RunTerminalChannel r \<noteq> ThreadStreamKey t" "RunQueueKey \<noteq> ThreadStreamKey t"
    by (simp_all add: key_defs)
  ultimately show ?thesis
    using assms run_stream.key_inj run_control.key_inj run_terminal.key_inj by auto
qed

theorem redis_names_disjoint_witness:
  "RunStreamKey ''0a'' \<noteq> RunControlChannel ''0b'' \<and> RunControlChannel ''0a'' \<noteq> RunControlChannel ''0b''"
  using redis_names_disjoint[of "''0a''" "''0b''" "''0c''"] by (simp add: no_colon_def)

text \<open>
  (C19) Tenants of the cache are separated: whenever two requests are accepted and reach the same Redis key, they come from the same user and name the
  same key. So no user can read or overwrite an entry of another, whatever keys the requests choose.
\<close>

theorem cache_tenants_separate:
  assumes "cache_key_of (Some md) key = Inr k" and "cache_key_of (Some md') key' = Inr k"
  shows "hd (md ''x-user-id'') = hd (md' ''x-user-id'') \<and> key = key'"
proof -
  have u: "\<exists>u. u \<noteq> [] \<and> list_all key_char u \<and> hd (m ''x-user-id'') = u \<and> k = CacheKey u q"
    if "cache_key_of (Some m) q = Inr k" for m q
    using that by (auto simp: cache_key_of_def UserIDFromContext_def res_iff split: list.splits if_splits)
  obtain u where 1: "list_all key_char u" "hd (md ''x-user-id'') = u" "k = CacheKey u key"
    using u[OF assms(1)] by blast
  obtain u' where 2: "list_all key_char u'" "hd (md' ''x-user-id'') = u'" "k = CacheKey u' key'"
    using u[OF assms(2)] by blast
  have "u @ CHR '':'' # key = u' @ CHR '':'' # key'"
    using 1(3) 2(3) by (simp add: CacheKey_def)
  with no_colon_split key_char_no_colon_list 1 2 show ?thesis by blast
qed

theorem cache_tenants_separate_witness:
  "\<exists>k. cache_key_of (Some (\<lambda>_. [''ann''])) ''a.b'' = Inr k \<and> hd [''ann''] = ''ann''"
proof -
  have "cache_key_of (Some (\<lambda>_. [''ann''])) ''a.b'' = Inr (CacheKey ''ann'' ''a.b'')"
    by (simp add: cache_key_of_def ValidateKey_def key_char_def UserIDFromContext_def)
  with cache_tenants_separate[OF this this] show ?thesis by auto
qed

text \<open>
  The cache handlers reject before they talk to Redis: without a valid key, a user id in the metadata and a valid user id, no command is sent, and the
  code of the error tells which guard failed. A miss is a successful, empty answer.
\<close>

theorem cache_get_cases:
  "cache_svc_Get redis_get md key =
     (if \<not> (key \<noteq> [] \<and> list_all key_char key) then Inl (StatusError InvalidArgument)
      else case UserIDFromContext md of
        Inl _ \<Rightarrow> Inl (StatusError Unauthenticated)
      | Inr u \<Rightarrow> if \<not> list_all key_char u then Inl (StatusError InvalidArgument)
          else case redis_get (CacheKey u key) of
            Reply v \<Rightarrow> Inr (Some v) | RedisNil \<Rightarrow> Inr None | RedisErr _ \<Rightarrow> Inl (StatusError Internal))"
proof -
  have "u \<noteq> []" if "UserIDFromContext md = Inr u" for u
    using that by (auto simp: UserIDFromContext_def split: option.splits list.splits if_splits)
  then show ?thesis
    by (auto simp: cache_svc_Get_def cache_key_of_def cache_Get_def ValidateKey_def split: sum.splits reply.splits)
qed

end
