(* ===== verification/Config_Env.thy ===== *)
theory Config_Env
  imports Prelude
begin

text \<open>
  The configuration (\<^verbatim>\<open>internal/config/config.go\<close>): settings read from environment variables, with the
  decimal parser of \<^verbatim>\<open>strconv.Atoi\<close> and \<^verbatim>\<open>strconv.ParseInt(v, 10, 64)\<close> (\<^verbatim>\<open>int\<close> is 64 bits wide). The environment is a function
  from names to values, the empty text for a variable that is not set. Durations are nanoseconds in an
  \<^verbatim>\<open>int64\<close>, so their multiplication wraps.
\<close>

section \<open>Decimal integers\<close>

definition is_digit :: "char \<Rightarrow> bool" where
  "is_digit c = (48 \<le> (of_char c :: nat) \<and> (of_char c :: nat) \<le> 57)"

definition digits_val :: "string \<Rightarrow> nat" where
  "digits_val s = foldl (\<lambda>n c. 10 * n + (of_char c - 48)) 0 s"

definition parse_uint :: "string \<Rightarrow> nat option" where
  "parse_uint s = (if s \<noteq> [] \<and> list_all is_digit s then Some (digits_val s) else None)"

text \<open>\<^verbatim>\<open>ParseInt(s, 10, 64)\<close>: an optional sign, digits, and a value in the range of \<^verbatim>\<open>int64\<close>.\<close>

definition ParseInt :: "string \<Rightarrow> int option" where
  "ParseInt s =
     (case s of
        [] \<Rightarrow> None
      | c # r \<Rightarrow>
          (let neg = (c = CHR ''-''); body = (if c = CHR ''-'' \<or> c = CHR ''+'' then r else s)
           in case parse_uint body of
                None \<Rightarrow> None
              | Some n \<Rightarrow> let i = (if neg then - int n else int n)
                          in if - (2 ^ 63) \<le> i \<and> i < 2 ^ 63 then Some i else None))"

section \<open>Settings\<close>

type_synonym environ = "string \<Rightarrow> string"

definition getEnv :: "environ \<Rightarrow> string \<Rightarrow> string \<Rightarrow> string" where
  "getEnv env key def = (if env key \<noteq> [] then env key else def)"

definition getEnvInt :: "environ \<Rightarrow> string \<Rightarrow> int \<Rightarrow> int" where
  "getEnvInt env key def =
     (if env key = [] then def
      else case ParseInt (env key) of None \<Rightarrow> def | Some n \<Rightarrow> if n \<le> 0 then def else n)"

definition getEnvInt64 :: "environ \<Rightarrow> string \<Rightarrow> int \<Rightarrow> int" where
  "getEnvInt64 env key def =
     (if env key = [] then def
      else case ParseInt (env key) of None \<Rightarrow> def | Some n \<Rightarrow> if n \<le> 0 then def else n)"

definition int64_wrap :: "int \<Rightarrow> int" where
  "int64_wrap i = (i + 2 ^ 63) mod 2 ^ 64 - 2 ^ 63"

definition Second :: int where
  "Second = 1000000000"

definition getEnvSeconds :: "environ \<Rightarrow> string \<Rightarrow> int \<Rightarrow> int" where
  "getEnvSeconds env key def =
     (if env key = [] then def
      else case ParseInt (env key) of None \<Rightarrow> def
           | Some n \<Rightarrow> if n \<le> 0 then def else int64_wrap (n * Second))"

record Config =
  DatabaseURL :: string
  DBPoolMaxConns :: int
  RedisURL :: string
  RedisPoolSize :: int
  GRPCAddr :: string
  MetricsAddr :: string
  LeaseTTL :: int
  HeartbeatInterval :: int
  ReaperInterval :: int
  NextPollInterval :: int
  ThreadTTLSweepInterval :: int
  CronInterval :: int
  LogLevel :: string
  Env :: string
  StreamMaxLen :: int
  StreamReadBlockMs :: int
  StreamReplayBatch :: int

definition Load :: "environ \<Rightarrow> string + Config" where
  "Load env =
     (let dburl = env ''LSD_DATABASE_URL'' in
      if dburl = [] then Inl ''LSD_DATABASE_URL is required''
      else let redisURL = env ''LSD_REDIS_URL'' in
      if redisURL = [] then Inl ''LSD_REDIS_URL is required''
      else Inr \<lparr>
        DatabaseURL = dburl,
        DBPoolMaxConns = getEnvInt env ''LSD_DB_POOL_MAX_CONNS'' 50,
        RedisURL = redisURL,
        RedisPoolSize = getEnvInt env ''LSD_REDIS_POOL_SIZE'' 100,
        GRPCAddr = getEnv env ''LSD_GRPC_ADDR'' '':50051'',
        MetricsAddr = getEnv env ''LSD_METRICS_ADDR'' '':9090'',
        LeaseTTL = getEnvSeconds env ''LSD_LEASE_TTL_SECONDS'' (30 * Second),
        HeartbeatInterval = getEnvSeconds env ''LSD_HEARTBEAT_INTERVAL_SECONDS'' (5 * Second),
        ReaperInterval = getEnvSeconds env ''LSD_REAPER_INTERVAL_SECONDS'' (2 * Second),
        NextPollInterval = getEnvSeconds env ''LSD_NEXT_POLL_INTERVAL_SECONDS'' (1 * Second),
        ThreadTTLSweepInterval = getEnvSeconds env ''LSD_THREAD_TTL_SWEEP_INTERVAL_SECONDS'' (60 * Second),
        CronInterval = getEnvSeconds env ''LSD_CRON_INTERVAL_SECONDS'' (5 * Second),
        LogLevel = getEnv env ''LSD_LOG_LEVEL'' ''info'',
        Env = getEnv env ''LSD_ENV'' ''prod'',
        StreamMaxLen = getEnvInt64 env ''LSD_STREAM_MAX_LEN'' 1000,
        StreamReadBlockMs = getEnvInt env ''LSD_STREAM_READ_BLOCK_MS'' 5000,
        StreamReplayBatch = getEnvInt64 env ''LSD_STREAM_REPLAY_BATCH'' 100\<rparr>)"

section \<open>The parser inverts the printer\<close>

lemma digit_char_digit: "d < 10 \<Longrightarrow> is_digit (digit_char d)"
  by (simp add: is_digit_def digit_char_def)

lemma digit_char_val: "d < 10 \<Longrightarrow> of_char (digit_char d) - 48 = d"
  by (simp add: digit_char_def)

lemma digits_val_snoc: "digits_val (s @ [c]) = 10 * digits_val s + (of_char c - 48)"
  by (simp add: digits_val_def)

lemma nat_str_parse: "list_all is_digit (nat_str n) \<and> digits_val (nat_str n) = n"
proof (induction n rule: nat_str.induct)
  case (1 n)
  show ?case
  proof (cases "n < 10")
    case True
    then show ?thesis
      by (subst (1 2) nat_str.simps) (simp add: digit_char_digit digits_val_def digit_char_val)
  next
    case False
    with 1 have "list_all is_digit (nat_str (n div 10)) \<and> digits_val (nat_str (n div 10)) = n div 10"
      by simp
    with False show ?thesis
      by (subst (1 2) nat_str.simps) (simp add: digit_char_digit digits_val_snoc digit_char_val)
  qed
qed

lemma parse_uint_nat_str: "parse_uint (nat_str n) = Some n"
  using nat_str_parse[of n] by (simp add: parse_uint_def)

lemma digit_no_sign: "is_digit c \<Longrightarrow> c \<noteq> CHR ''-'' \<and> c \<noteq> CHR ''+''"
  by (auto simp: is_digit_def)

lemma ParseInt_int_str:
  assumes "- (2 ^ 63) \<le> i" and "i < 2 ^ 63"
  shows "ParseInt (int_str i) = Some i"
proof (cases "i < 0")
  case True
  with assms show ?thesis
    by (simp add: ParseInt_def int_str_def parse_uint_nat_str Let_def)
next
  case False
  obtain c r where cr: "nat_str (nat i) = c # r" by (cases "nat_str (nat i)") auto
  with nat_str_parse[of "nat i"] have "is_digit c" by simp
  with False cr assms parse_uint_nat_str[of "nat i"] show ?thesis
    by (simp add: ParseInt_def int_str_def digit_no_sign Let_def)
qed

section \<open>Properties\<close>

text \<open>
  The settings of the pools and the streams are positive whatever the environment holds: a value that is not a decimal
  integer, is out of range or not positive falls back to the default, and one that is a positive integer in range is taken.
\<close>

theorem config_int_positive:
  assumes "Load env = Inr cfg"
  shows "0 < DBPoolMaxConns cfg \<and> 0 < RedisPoolSize cfg \<and> 0 < StreamMaxLen cfg \<and>
    0 < StreamReadBlockMs cfg \<and> 0 < StreamReplayBatch cfg \<and>
    (\<forall>n. 0 < n \<and> n < 2 ^ 63 \<and> env ''LSD_STREAM_MAX_LEN'' = int_str n \<longrightarrow> StreamMaxLen cfg = n)"
proof -
  have pos: "0 < d \<Longrightarrow> 0 < getEnvInt env k d \<and> 0 < getEnvInt64 env k d" for k d
    by (simp add: getEnvInt_def getEnvInt64_def split: option.splits)
  have taken: "getEnvInt64 env k d = n" if "0 < n" "n < 2 ^ 63" "env k = int_str n" for k d n
  proof -
    have "ParseInt (env k) = Some n" using ParseInt_int_str[of n] that by simp
    moreover from this have "env k \<noteq> []" by (auto simp: ParseInt_def)
    ultimately show ?thesis using that(1) by (simp add: getEnvInt64_def)
  qed
  from assms have "cfg = projr (Load env)" by simp
  with assms pos taken show ?thesis
    by (auto simp: Load_def Let_def split: if_splits)
qed

theorem config_int_positive_witness:
  "\<exists>cfg. Load (\<lambda>k. if k = ''LSD_STREAM_MAX_LEN'' then ''250'' else ''x'') = Inr cfg \<and> StreamMaxLen cfg = 250"
proof -
  let ?env = "\<lambda>k. if k = ''LSD_STREAM_MAX_LEN'' then ''250'' else ''x''"
  obtain cfg where l: "Load ?env = Inr cfg" by (simp add: Load_def Let_def)
  have "int_str 250 = ''250''" by (simp add: int_str_def nat_str.simps digit_char_def) code_simp
  with config_int_positive[OF l] l show ?thesis by auto
qed

text \<open>
  A duration is not: the seconds are multiplied into an \<^verbatim>\<open>int64\<close> of nanoseconds, which wraps. A lease time of
  9223372037 seconds is read as a negative duration, although \<^verbatim>\<open>getEnvSeconds\<close> rejects values that are not positive.
  Up to 9223372036 seconds the duration is exact.
\<close>

theorem config_seconds_wrap:
  "getEnvSeconds (\<lambda>_. ''9223372037'') ''LSD_LEASE_TTL_SECONDS'' (30 * Second) < 0 \<and>
   (\<forall>n \<in> {1..9223372036}. getEnvSeconds (\<lambda>_. int_str n) k d = n * Second)"
proof
  show "getEnvSeconds (\<lambda>_. ''9223372037'') ''LSD_LEASE_TTL_SECONDS'' (30 * Second) < 0"
    by (simp add: getEnvSeconds_def ParseInt_def parse_uint_def is_digit_def digits_val_def int64_wrap_def Second_def)
  show "\<forall>n \<in> {1..9223372036}. getEnvSeconds (\<lambda>_. int_str n) k d = n * Second"
  proof
    fix n :: int assume n: "n \<in> {1..9223372036}"
    then have p: "ParseInt (int_str n) = Some n" by (intro ParseInt_int_str) auto
    then have "int_str n \<noteq> []" by (auto simp: ParseInt_def)
    moreover have "int64_wrap (n * Second) = n * Second"
      using n by (simp add: int64_wrap_def Second_def)
    ultimately show "getEnvSeconds (\<lambda>_. int_str n) k d = n * Second"
      using n p by (simp add: getEnvSeconds_def)
  qed
qed

theorem config_seconds_wrap_witness:
  "getEnvSeconds (\<lambda>_. int_str 30) ''LSD_LEASE_TTL_SECONDS'' 0 = 30 * Second"
  using config_seconds_wrap[of "''LSD_LEASE_TTL_SECONDS''" 0] by auto

end
