(* ===== verification/Runs_Service.thy ===== *)
theory Runs_Service
  imports Runs_Write Runs_Lease Streams Config_Env
begin

text \<open>
  The run service (\<^verbatim>\<open>internal/runs/service.go\<close>, \<^verbatim>\<open>reaper.go\<close>): the handlers on top of the store. A handler is a function on the
  world that answers with a gRPC status or a value; Redis commands are appended to the log of the
  world unless Redis refuses them (\<open>sv_redis_err\<close>). The two streaming handlers, \<open>Enter\<close> and \<open>Stream\<close>, are loops over the
  events their \<^verbatim>\<open>select\<close> statements receive, in any order.
\<close>

section \<open>Enums of the wire format\<close>

definition RunStatus_name :: enum_table where
  "RunStatus_name = [(0, ''pending''), (1, ''running''), (2, ''error''), (3, ''success''), (4, ''timeout''),
     (5, ''interrupted''), (6, ''rollback'')]"

definition MultitaskStrategy_name :: enum_table where
  "MultitaskStrategy_name = [(0, ''reject''), (1, ''rollback''), (2, ''interrupt''), (3, ''enqueue'')]"

definition ControlSignal_name :: enum_table where
  "ControlSignal_name = [(0, ''unknown''), (1, ''interrupt''), (2, ''rollback''), (3, ''done''), (4, ''subscribed'')]"

definition StreamMode_name :: enum_table where
  "StreamMode_name = [(0, ''unknown''), (1, ''values''), (2, ''updates''), (3, ''checkpoints''), (4, ''tasks''),
     (5, ''debug''), (6, ''messages''), (7, ''custom''), (8, ''events''), (9, ''messages_tuple'')]"

interpretation RunStatus_enum: enum RunStatus_name
  by unfold_locales (simp_all add: RunStatus_name_def)

interpretation MultitaskStrategy_enum: enum MultitaskStrategy_name
  by unfold_locales (simp_all add: MultitaskStrategy_name_def)

interpretation ControlSignal_enum: enum ControlSignal_name
  by unfold_locales (simp_all add: ControlSignal_name_def)

interpretation StreamMode_enum: enum StreamMode_name
  by unfold_locales (simp_all add: StreamMode_name_def)

section \<open>Service\<close>

record svc =
  sv_rdb :: bool
  sv_streamer :: bool
  sv_cfg :: "Config option"
  sv_redis_err :: "redis_cmd \<Rightarrow> string option"

text \<open>\<^verbatim>\<open>NewServiceWithStream\<close>: the lease time of the store, in whole seconds (\<^verbatim>\<open>LeaseTTL\<close> is in nanoseconds, and the
  conversion truncates towards zero).\<close>

definition svc_lease :: "svc \<Rightarrow> int" where
  "svc_lease S = NewStoreWithLeaseTTL (case sv_cfg S of None \<Rightarrow> 30
     | Some c \<Rightarrow> (if LeaseTTL c < 0 then - ((- LeaseTTL c) div Second) else LeaseTTL c div Second))"

type_synonym 'a rpc = "world \<Rightarrow> (status + 'a) \<times> world"

definition answer :: "'a \<Rightarrow> 'a rpc" where
  "answer x w = (Inr x, w)"

definition refuse :: "code \<Rightarrow> 'a rpc" where
  "refuse c w = (Inl (StatusError c), w)"

definition call :: "'a op \<Rightarrow> (err \<Rightarrow> code) \<Rightarrow> ('a \<Rightarrow> 'b rpc) \<Rightarrow> 'b rpc" where
  "call m h k w = (case m w of (Inl e, w') \<Rightarrow> refuse (h e) w' | (Inr x, w') \<Rightarrow> k x w')"

text \<open>Redis commands whose errors are ignored (\<^verbatim>\<open>_ = ...Err()\<close>).\<close>

definition fire :: "svc \<Rightarrow> redis_cmd \<Rightarrow> world \<Rightarrow> world" where
  "fire S c w = (if sv_redis_err S c = None then w\<lparr>redis := redis w @ [c]\<rparr> else w)"

definition fire_all :: "svc \<Rightarrow> redis_cmd list \<Rightarrow> world \<Rightarrow> world" where
  "fire_all S cs w = fold (fire S) cs w"

definition mapErr :: "err \<Rightarrow> code" where
  "mapErr e = (case e of ErrNotFound \<Rightarrow> NotFound | ErrForbidden \<Rightarrow> NotFound | _ \<Rightarrow> Internal)"

definition runStatusTextToEnum :: "string \<Rightarrow> int" where
  "runStatusTextToEnum s = (case enum_value RunStatus_name s of Some v \<Rightarrow> v | None \<Rightarrow> 0)"

definition multitaskTextToEnum :: "string \<Rightarrow> int" where
  "multitaskTextToEnum s = (case enum_value MultitaskStrategy_name s of Some v \<Rightarrow> v | None \<Rightarrow> 0)"

record RunPB =
  pb_RunId :: string
  pb_ThreadId :: string
  pb_AssistantId :: string
  pb_Status :: int
  pb_MultitaskStrategy :: int
  pb_CreatedAt :: int
  pb_UpdatedAt :: int
  pb_Metadata :: json
  pb_KwargsJson :: json

definition runs_toPB :: "Run \<Rightarrow> RunPB" where
  "runs_toPB r = \<lparr>pb_RunId = RunID r, pb_ThreadId = RunThreadID r, pb_AssistantId = RunAssistantID r,
     pb_Status = runStatusTextToEnum (RunStatus r), pb_MultitaskStrategy = multitaskTextToEnum (RunMultitaskStrategy r),
     pb_CreatedAt = RunCreatedAt r, pb_UpdatedAt = RunUpdatedAt r, pb_Metadata = RunMetadata r,
     pb_KwargsJson = RunKwargs r\<rparr>"

section \<open>Reads\<close>

definition runs_svc_Get :: "env \<Rightarrow> string \<Rightarrow> string \<Rightarrow> auth_filter list \<Rightarrow> RunPB rpc" where
  "runs_svc_Get E runId threadId filters = call (run_Get E runId threadId filters) mapErr (\<lambda>r. answer (runs_toPB r))"

definition runs_svc_Search :: "env \<Rightarrow> string option \<Rightarrow> int option \<Rightarrow> nat \<Rightarrow> nat \<Rightarrow> auth_filter list \<Rightarrow> RunPB list rpc" where
  "runs_svc_Search E threadId st limit offset filters =
     call (run_Search E \<lparr>rs_ThreadID = (case threadId of None \<Rightarrow> [] | Some t \<Rightarrow> t),
             rs_Statuses = (case st of None \<Rightarrow> [] | Some s \<Rightarrow> [enum_String RunStatus_name s]),
             rs_MetadataFilter = [], rs_Limit = limit, rs_Offset = offset\<rparr> filters)
       mapErr (\<lambda>rows. answer (map runs_toPB rows))"

definition runs_svc_Count :: "env \<Rightarrow> string option \<Rightarrow> string list \<Rightarrow> nat rpc" where
  "runs_svc_Count E threadId statuses =
     call (run_Count E \<lparr>rs_ThreadID = (case threadId of None \<Rightarrow> [] | Some t \<Rightarrow> t), rs_Statuses = statuses,
             rs_MetadataFilter = [], rs_Limit = 0, rs_Offset = 0\<rparr> []) mapErr answer"

definition runs_svc_Stats :: "RunStats rpc" where
  "runs_svc_Stats = call run_Stats (\<lambda>_. Internal) answer"

section \<open>Signals\<close>

definition publishCancelSignals :: "env \<Rightarrow> svc \<Rightarrow> CancelResult list \<Rightarrow> string \<Rightarrow> redis_cmd list" where
  "publishCancelSignals E S results action = concat (map (\<lambda>r.
     if cx_Deleted r then []
     else case go_uuid E (cx_RunID r) of
       None \<Rightarrow> []
     | Some u \<Rightarrow>
         (if sv_rdb S then [SetKey (RunControlChannel u) action 60] else []) @
         (if sv_streamer S then [PublishMsg (RunControlChannel u) (go_marshal E (JObj [(''signal'', JStr action)]))]
          else [])) results)"

definition publishTerminalDone :: "env \<Rightarrow> svc \<Rightarrow> string \<Rightarrow> redis_cmd list" where
  "publishTerminalDone E S runID =
     (if \<not> sv_streamer S then []
      else case go_uuid E runID of None \<Rightarrow> [] | Some u \<Rightarrow> [PublishMsg (RunTerminalChannel u) ''done''])"

definition publishCancelTerminals :: "env \<Rightarrow> svc \<Rightarrow> CancelResult list \<Rightarrow> redis_cmd list" where
  "publishCancelTerminals E S results =
     concat (map (\<lambda>r. publishTerminalDone E S (cx_RunID r)) (filter cx_Terminal results))"

text \<open>
  \<^verbatim>\<open>json.Unmarshal\<close> into \<^verbatim>\<open>struct { Signal string }\<close>: the text of the field (empty if absent or null), or an error for a
  value that is not an object or a field that is not a string. Field names match up to the case folding of
  \<^verbatim>\<open>encoding/json\<close>: ASCII case, and the two other characters that fold to an ASCII letter, U+212A to k and U+017F to s. The last
  matching field counts.
\<close>

definition lower :: "char \<Rightarrow> char" where
  "lower c = (if 65 \<le> (of_char c :: nat) \<and> (of_char c :: nat) \<le> 90 then char_of ((of_char c :: nat) + 32) else c)"

fun fold_name :: "string \<Rightarrow> string" where
  "fold_name [] = []"
| "fold_name (c # cs) =
     (if c = CHR 0xE2 \<and> take 2 cs = [CHR 0x84, CHR 0xAA] then CHR ''k'' # fold_name (drop 2 cs)
      else if c = CHR 0xC5 \<and> take 1 cs = [CHR 0xBF] then CHR ''s'' # fold_name (drop 1 cs)
      else lower c # fold_name cs)"

fun signal_field :: "(string \<times> json) list \<Rightarrow> string \<Rightarrow> string option" where
  "signal_field [] s = Some s"
| "signal_field ((k, v) # kvs) s =
     (if fold_name k = ''signal''
      then (case v of JStr t \<Rightarrow> signal_field kvs t | JNull \<Rightarrow> signal_field kvs s | _ \<Rightarrow> None)
      else signal_field kvs s)"

definition unmarshal_signal :: "json option \<Rightarrow> string option" where
  "unmarshal_signal j = (case j of Some (JObj kvs) \<Rightarrow> signal_field kvs [] | Some JNull \<Rightarrow> Some [] | _ \<Rightarrow> None)"

definition parseControlSignal :: "env \<Rightarrow> string \<Rightarrow> int" where
  "parseControlSignal E payload =
     (let plain = (case enum_value ControlSignal_name payload of Some v \<Rightarrow> v | None \<Rightarrow> 0)
      in case unmarshal_signal (go_json E payload) of
           None \<Rightarrow> plain
         | Some sig \<Rightarrow> if sig = [] then plain
                       else (case enum_value ControlSignal_name sig of Some v \<Rightarrow> v | None \<Rightarrow> plain))"

section \<open>Create, delete, cancel\<close>

text \<open>The request; \<open>cq_EncryptionContext\<close> is what \<^verbatim>\<open>jsonbutil.Marshal\<close> makes of the message, if there is one.\<close>

record CreateRunRequest =
  cq_RunId :: "string option"
  cq_ThreadId :: string
  cq_AssistantId :: string
  cq_Status :: int
  cq_KwargsJson :: "string option"
  cq_MetadataJson :: "string option"
  cq_MultitaskStrategy :: int
  cq_AfterSeconds :: nat
  cq_UserId :: string
  cq_IfNotExists :: int
  cq_EncryptionContext :: "(string + string) option"
  cq_ThreadFilters :: "auth_filter list"
  cq_AssistantFilters :: "auth_filter list"

definition create_in :: "CreateRunRequest \<Rightarrow> string option \<Rightarrow> CreateRunInput" where
  "create_in rq enc = \<lparr>ci_RunID = (case cq_RunId rq of None \<Rightarrow> [] | Some i \<Rightarrow> i), ci_ThreadID = cq_ThreadId rq,
     ci_AssistantID = cq_AssistantId rq, ci_Status = enum_String RunStatus_name (cq_Status rq),
     ci_KwargsJSON = cq_KwargsJson rq, ci_Metadata = cq_MetadataJson rq,
     ci_MultitaskStrategy = enum_String MultitaskStrategy_name (cq_MultitaskStrategy rq),
     ci_AfterSeconds = cq_AfterSeconds rq, ci_EncryptionContext = enc, ci_UserID = cq_UserId rq,
     ci_IfNotExists = cq_IfNotExists rq\<rparr>"

text \<open>The runs the new one displaces: cancelled as \<^verbatim>\<open>Cancel\<close> would, a failure of that is ignored.\<close>

definition displace :: "env \<Rightarrow> svc \<Rightarrow> string \<Rightarrow> uuid \<Rightarrow> uuid list \<Rightarrow> world \<Rightarrow> world" where
  "displace E S strategy threadID ids w =
     (if (strategy = ''interrupt'' \<or> strategy = ''rollback'') \<and> ids \<noteq> []
      then (case run_CancelWithAction E ids threadID strategy [] w of
              (Inl e, w1) \<Rightarrow> w1
            | (Inr results, w1) \<Rightarrow>
                fire_all S (publishCancelSignals E S results strategy @ publishCancelTerminals E S results) w1)
      else w)"

definition runs_svc_Create :: "env \<Rightarrow> svc \<Rightarrow> string \<Rightarrow> uuid \<Rightarrow> CreateRunRequest \<Rightarrow> RunPB list rpc" where
  "runs_svc_Create E S new_tid gen rq =
     (let strategy = enum_String MultitaskStrategy_name (cq_MultitaskStrategy rq);
          go = (\<lambda>enc. call (run_Create E new_tid gen (create_in rq enc) (cq_ThreadFilters rq) (cq_AssistantFilters rq))
            (\<lambda>e. if e = ErrInflight then AlreadyExists else mapErr e) (\<lambda>res w.
              let r = cr_Run res;
                  w1 = (if sv_rdb S \<and> cq_AfterSeconds rq = 0 then fire S (RPush RunQueueKey (RunID r)) w else w);
                  w2 = displace E S strategy (RunThreadID r) (cr_InflightRunIDs res) w1
              in answer [runs_toPB r] w2))
      in case cq_EncryptionContext rq of
           None \<Rightarrow> go None
         | Some (Inl _) \<Rightarrow> refuse Internal
         | Some (Inr b) \<Rightarrow> go (Some b))"

definition runs_svc_Delete :: "env \<Rightarrow> string \<Rightarrow> string \<Rightarrow> auth_filter list \<Rightarrow> uuid rpc" where
  "runs_svc_Delete E runId threadId filters = call (run_Delete E runId threadId filters) mapErr answer"

definition cancelStatusToRunStatuses :: "int \<Rightarrow> string list" where
  "cancelStatusToRunStatuses cs =
     (if cs = 0 then [''pending''] else if cs = 1 then [''running'']
      else if cs = 2 then [''pending'', ''running''] else [])"

datatype cancel_target = CancelRunIds "string list" "string option" | CancelStatus int | CancelNothing

definition runs_svc_Cancel :: "env \<Rightarrow> svc \<Rightarrow> int option \<Rightarrow> cancel_target \<Rightarrow> auth_filter list \<Rightarrow> unit rpc" where
  "runs_svc_Cancel E S act target filters =
     (let action = (if act = Some 1 then ''rollback'' else ''interrupt'')
      in case target of
           CancelRunIds runIDs threadId \<Rightarrow>
             call (run_CancelWithAction E runIDs (case threadId of None \<Rightarrow> [] | Some t \<Rightarrow> t) action filters) mapErr
               (\<lambda>results w.
                 let w1 = fire_all S (publishCancelSignals E S results action @ publishCancelTerminals E S results) w
                 in if list_all (\<lambda>i. i \<in> cx_RunID ` set results) runIDs then answer () w1 else refuse NotFound w1)
         | CancelStatus cs \<Rightarrow>
             (let statuses = cancelStatusToRunStatuses cs
              in if statuses = [] then refuse InvalidArgument
                 else call (run_CancelByStatus E statuses filters) mapErr (\<lambda>ids w.
                   answer () (fire_all S (publishCancelSignals E S
                     (map (\<lambda>i. \<lparr>cx_RunID = i, cx_Deleted = False, cx_Terminal = False\<rparr>) ids) ''interrupt'') w)))
         | CancelNothing \<Rightarrow> refuse InvalidArgument)"

section \<open>Status, queue\<close>

definition runs_svc_SetStatus :: "env \<Rightarrow> svc \<Rightarrow> string \<Rightarrow> int \<Rightarrow> unit rpc" where
  "runs_svc_SetStatus E S runId st =
     (let newStatus = enum_String RunStatus_name st
      in call (run_SetStatus E runId newStatus) mapErr (\<lambda>_ w.
           answer () (fire_all S
             ((if isTerminalStatus newStatus then publishTerminalDone E S runId else []) @
              (if newStatus = ''pending'' \<and> sv_rdb S then [RPush RunQueueKey runId] else [])) w)))"

definition runs_svc_MarkDone :: "env \<Rightarrow> svc \<Rightarrow> string \<Rightarrow> unit rpc" where
  "runs_svc_MarkDone E S runId =
     call (run_MarkDone E runId) mapErr (\<lambda>_ w. answer () (fire_all S (publishTerminalDone E S runId) w))"

text \<open>\<open>wait\<close> is what happens to the world while \<^verbatim>\<open>BLPop\<close> blocks; \<open>dec\<close> decodes a stored encryption context.\<close>

definition runs_svc_Next :: "env \<Rightarrow> svc \<Rightarrow> (json \<Rightarrow> 'c option) \<Rightarrow> nat \<Rightarrow> bool \<Rightarrow> (world \<Rightarrow> world) \<Rightarrow>
    (RunPB \<times> int \<times> 'c option) list rpc" where
  "runs_svc_Next E S dec limit0 wait_flag wait =
     (let limit = (if limit0 = 0 then 1 else limit0);
          out = (\<lambda>claimed. answer (map (\<lambda>c. (runs_toPB (cl_Run c), cl_Attempt c,
                   Option.bind (RunEncryptionContext (cl_Run c)) dec)) claimed))
      in call (run_Next E (svc_lease S) limit) mapErr (\<lambda>claimed.
           if claimed = [] \<and> wait_flag \<and> sv_rdb S
           then (\<lambda>w. call (run_Next E (svc_lease S) limit) mapErr out (wait w))
           else out claimed))"

definition runs_svc_Sweep :: "svc \<Rightarrow> uuid list rpc" where
  "runs_svc_Sweep S w =
     (case run_Sweep w of
        (Inl e, w1) \<Rightarrow> refuse Internal w1
      | (Inr (Some e, swept), w1) \<Rightarrow> refuse Internal w1
      | (Inr (None, swept), w1) \<Rightarrow>
          answer swept (if sv_rdb S then fire_all S (map (RPush RunQueueKey) swept) w1 else w1))"

text \<open>One tick of \<^verbatim>\<open>RunReaper\<close>.\<close>

definition reaper_tick :: "svc \<Rightarrow> world \<Rightarrow> world" where
  "reaper_tick S w =
     (case run_Sweep w of
        (Inl e, w1) \<Rightarrow> w1
      | (Inr (Some e, reaped), w1) \<Rightarrow> w1
      | (Inr (None, reaped), w1) \<Rightarrow> if sv_rdb S then fire_all S (map (RPush RunQueueKey) reaped) w1 else w1)"

section \<open>Publish\<close>

text \<open>\<open>fmt.Sprintf("%t", b)\<close>\<close>

definition bool_str :: "bool \<Rightarrow> string" where
  "bool_str b = (if b then ''true'' else ''false'')"

text \<open>An \<^verbatim>\<open>XADD\<close> whose error is looked at: the error, or the world with the command logged.\<close>

definition xadd :: "svc \<Rightarrow> string \<Rightarrow> (string \<times> string) list \<Rightarrow> int \<Rightarrow> (unit \<Rightarrow> 'a rpc) \<Rightarrow> 'a rpc" where
  "xadd S key flds maxLen k w =
     (let c = XAddEntry key flds maxLen
      in if sv_redis_err S c = None then k () (w\<lparr>redis := redis w @ [c]\<rparr>) else refuse Internal w)"

definition stream_maxlen :: "svc \<Rightarrow> int" where
  "stream_maxlen S = (case sv_cfg S of None \<Rightarrow> 1000 | Some c \<Rightarrow> if StreamMaxLen c > 0 then StreamMaxLen c else 1000)"

definition runs_svc_Publish :: "env \<Rightarrow> svc \<Rightarrow> string \<Rightarrow> string option \<Rightarrow> string \<Rightarrow> string \<Rightarrow> bool \<Rightarrow> unit rpc" where
  "runs_svc_Publish E S threadID runId event_type message resumable =
     (if \<not> sv_streamer S then refuse Unavailable
      else case go_uuid E threadID of
        None \<Rightarrow> refuse InvalidArgument
      | Some threadUUID \<Rightarrow>
          (let runID = (case runId of None \<Rightarrow> [] | Some r \<Rightarrow> r)
           in if runId = None \<or> runID = [] \<or> runID = ''*'' then
                xadd S (ThreadStreamKey threadUUID)
                  [(''event_type'', event_type), (''message'', message), (''resumable'', bool_str resumable)]
                  (stream_maxlen S) answer
              else case go_uuid E runID of
                None \<Rightarrow> refuse InvalidArgument
              | Some runUUID \<Rightarrow> (\<lambda>w.
                  case PublishExistsAndAuth E runID threadID [] w of
                    (Inl e, w1) \<Rightarrow> if e = ErrNotFound \<or> e = ErrForbidden then answer () w1 else refuse Internal w1
                  | (Inr _, w1) \<Rightarrow>
                      (let flds = [(''event_type'', event_type), (''message'', message), (''run_id'', runID),
                                   (''resumable'', bool_str resumable)]
                       in xadd S (RunStreamKey runUUID) flds (stream_maxlen S) (\<lambda>_ w2.
                            answer () (fire S (XAddEntry (ThreadStreamKey threadUUID) flds (stream_maxlen S)) w2)) w1))))"

section \<open>Enter\<close>

text \<open>
  The worker's control stream. Events of the \<^verbatim>\<open>select\<close> of the main loop and of the heartbeat goroutine, in the order they are
  chosen: the ticker fires, the main loop takes the error the heartbeat left, a message arrives (and can or cannot
  be sent on), the subscription is closed, the context ends.
\<close>

datatype enter_ev = HeartbeatTick | TakeHeartbeatErr | ControlMsg string bool | SubClosed | CtxDone

datatype stream_end = Finished | CtxErr | RecvErr | SendErr | EndStatus status

record enter_state =
  es_beating :: bool
  es_lost :: bool
  es_sent :: "int list"

text \<open>The part before the loop: the guards, and the control key left by an earlier cancellation (\<open>val\<close>, and whether it can be sent).\<close>

definition enter_setup :: "env \<Rightarrow> svc \<Rightarrow> string \<Rightarrow> bool \<Rightarrow> string option \<Rightarrow> bool \<Rightarrow> stream_end + enter_state" where
  "enter_setup E S runID subscribe_ok val send_ok =
     (if \<not> sv_streamer S then Inl (EndStatus (StatusError Unavailable))
      else if go_uuid E runID = None then Inl (EndStatus (StatusError InvalidArgument))
      else if \<not> subscribe_ok then Inl (EndStatus (StatusError Internal))
      else case (if sv_rdb S then val else None) of
        None \<Rightarrow> Inr \<lparr>es_beating = True, es_lost = False, es_sent = []\<rparr>
      | Some v \<Rightarrow>
          if v = [] then Inr \<lparr>es_beating = True, es_lost = False, es_sent = []\<rparr>
          else if send_ok then Inr \<lparr>es_beating = True, es_lost = False, es_sent = [parseControlSignal E v]\<rparr>
          else Inl SendErr)"

text \<open>One event: the stream ends, or goes on in a new state. An event that is not enabled changes nothing.\<close>

definition enter_step :: "env \<Rightarrow> svc \<Rightarrow> string \<Rightarrow> enter_ev \<Rightarrow> enter_state \<Rightarrow> world \<Rightarrow> (stream_end + enter_state) \<times> world" where
  "enter_step E S runID ev st w =
     (case ev of
        HeartbeatTick \<Rightarrow>
          if es_beating st then
            (case run_ExtendLease E (svc_lease S) runID [] w of
               (Inl ErrNotFound, w') \<Rightarrow> (Inr (st\<lparr>es_beating := False, es_lost := True\<rparr>), w')
             | (_, w') \<Rightarrow> (Inr st, w'))
          else (Inr st, w)
      | TakeHeartbeatErr \<Rightarrow> if es_lost st then (Inl (EndStatus (StatusError Aborted)), w) else (Inr st, w)
      | ControlMsg payload send_ok \<Rightarrow>
          if send_ok then (Inr (st\<lparr>es_sent := es_sent st @ [parseControlSignal E payload]\<rparr>), w) else (Inl SendErr, w)
      | SubClosed \<Rightarrow> (Inl Finished, w)
      | CtxDone \<Rightarrow> (Inl CtxErr, w))"

fun enter_loop :: "env \<Rightarrow> svc \<Rightarrow> string \<Rightarrow> enter_ev list \<Rightarrow> enter_state \<Rightarrow> world \<Rightarrow> (stream_end + enter_state) \<times> world" where
  "enter_loop E S runID [] st w = (Inr st, w)"
| "enter_loop E S runID (ev # evs) st w =
     (case enter_step E S runID ev st w of
        (Inl e, w') \<Rightarrow> (Inl e, w')
      | (Inr st', w') \<Rightarrow> enter_loop E S runID evs st' w')"

section \<open>Stream\<close>

text \<open>Events sent to the client; control events carry no stream id.\<close>

record stream_event =
  se_type :: string
  se_message :: string
  se_id :: "string option"

definition modeFilter :: "int list \<Rightarrow> string set option" where
  "modeFilter modes = (if modes = [] then None else Some (enum_String StreamMode_name ` set modes))"

definition field :: "stream_entry \<Rightarrow> string \<Rightarrow> string" where
  "field e k = (case map_of (en_Fields e) k of None \<Rightarrow> [] | Some v \<Rightarrow> v)"

text \<open>\<^verbatim>\<open>sendEntry\<close>: nothing for an entry of another mode.\<close>

definition sendEntry :: "string set option \<Rightarrow> stream_entry \<Rightarrow> stream_event list" where
  "sendEntry mf e =
     (let eventType = field e ''event_type''
      in if mf \<noteq> None \<and> eventType \<notin> the mf then []
         else [\<lparr>se_type = eventType, se_message = field e ''message'', se_id = Some (en_ID e)\<rparr>])"

text \<open>The reader goroutine: one batch moves the cursor to its last entry; an error ends it.\<close>

definition read_batch :: "string \<Rightarrow> stream_entry list list reply \<Rightarrow> (string \<times> stream_entry list) option" where
  "read_batch cursor rep =
     (case XReadFrom rep of Inl _ \<Rightarrow> None
      | Inr es \<Rightarrow> Some (if es = [] then cursor else en_ID (last es), es))"

definition start_cursor :: "string option \<Rightarrow> stream_entry list reply \<Rightarrow> string" where
  "start_cursor lastEventId rep =
     (let lastEventID = (case lastEventId of None \<Rightarrow> [] | Some i \<Rightarrow> i)
      in if lastEventID \<noteq> [] then lastEventID else (case LastID rep of Inl _ \<Rightarrow> ''0-0'' | Inr i \<Rightarrow> i))"

definition checkRunFinished :: "env \<Rightarrow> string \<Rightarrow> string \<Rightarrow> world \<Rightarrow> bool \<times> world" where
  "checkRunFinished E runID threadID w =
     (case run_Get E runID threadID [] w of
        (Inl e, w') \<Rightarrow> (True, w')
      | (Inr r, w') \<Rightarrow> (RunStatus r \<noteq> ''pending'' \<and> RunStatus r \<noteq> ''running'', w'))"

text \<open>The join message, as far as it is used.\<close>

record JoinRunRequest =
  jr_Filters :: "auth_filter list"
  jr_IgnoreRunNotFound :: bool
  jr_CancelOnDisconnect :: bool
  jr_LastEventId :: "string option"
  jr_StreamModes :: "int list"

datatype client_msg = SubscribeMsg string string | JoinMsg JoinRunRequest | OtherMsg

definition control_event :: "string \<Rightarrow> stream_event" where
  "control_event m = \<lparr>se_type = ''control'', se_message = m, se_id = None\<rparr>"

text \<open>
  The handshake: first \<^verbatim>\<open>Subscribe\<close>, answered by a control event, then \<^verbatim>\<open>Join\<close>, checked against the store. \<open>None\<close> as a
  message is a failed \<^verbatim>\<open>Recv\<close>. The result is what was sent and the end of the stream, or the ids and the join request.
\<close>

definition stream_join :: "env \<Rightarrow> string \<Rightarrow> string \<Rightarrow> client_msg option \<Rightarrow> world \<Rightarrow> (stream_end + JoinRunRequest) \<times> world" where
  "stream_join E runID threadID m2 w =
     (case m2 of
        None \<Rightarrow> (Inl RecvErr, w)
      | Some (JoinMsg jr) \<Rightarrow>
          (case PublishExistsAndAuth E runID threadID (jr_Filters jr) w of
             (Inr _, w') \<Rightarrow> (Inr jr, w')
           | (Inl ErrForbidden, w') \<Rightarrow> (Inl (EndStatus (StatusError NotFound)), w')
           | (Inl ErrNotFound, w') \<Rightarrow>
               (Inl (if jr_IgnoreRunNotFound jr then Finished else EndStatus (StatusError NotFound)), w')
           | (Inl _, w') \<Rightarrow> (Inl (EndStatus (StatusError Internal)), w'))
      | Some _ \<Rightarrow> (Inl (EndStatus (StatusError InvalidArgument)), w))"

definition stream_subscribe :: "env \<Rightarrow> svc \<Rightarrow> client_msg option \<Rightarrow> bool \<Rightarrow> bool \<Rightarrow> stream_end + string \<times> string" where
  "stream_subscribe E S m1 subscribe_ok send_ok =
     (if \<not> sv_streamer S then Inl (EndStatus (StatusError Unavailable))
      else case m1 of
        None \<Rightarrow> Inl RecvErr
      | Some (SubscribeMsg runID threadID) \<Rightarrow>
          if go_uuid E runID = None then Inl (EndStatus (StatusError InvalidArgument))
          else if \<not> subscribe_ok then Inl (EndStatus (StatusError Internal))
          else if \<not> send_ok then Inl SendErr
          else Inr (runID, threadID)
      | Some _ \<Rightarrow> Inl (EndStatus (StatusError InvalidArgument)))"

text \<open>Events of the main loop, and of the drain that follows the end of a run. When no event is left, the drain times out.\<close>

datatype stream_ev =
    Disconnected
  | StatusTick
  | TerminalMsg bool
  | EntryMsg stream_entry bool
  | EntriesClosed
  | DrainTimeout

fun drainAndClose :: "string set option \<Rightarrow> stream_ev list \<Rightarrow> stream_event list \<Rightarrow> stream_event list \<times> stream_end" where
  "drainAndClose mf [] sent = (sent, Finished)"
| "drainAndClose mf (ev # evs) sent =
     (case ev of
        EntryMsg e ok \<Rightarrow>
          if ok \<or> sendEntry mf e = [] then drainAndClose mf evs (sent @ sendEntry mf e) else (sent, SendErr)
      | EntriesClosed \<Rightarrow> (sent, Finished)
      | DrainTimeout \<Rightarrow> (sent, Finished)
      | _ \<Rightarrow> drainAndClose mf evs sent)"

text \<open>\<^verbatim>\<open>cancel_on_disconnect\<close>: what \<^verbatim>\<open>Cancel\<close> would do with action interrupt, errors ignored.\<close>

definition disconnect_cancel :: "env \<Rightarrow> svc \<Rightarrow> string \<Rightarrow> string \<Rightarrow> world \<Rightarrow> world" where
  "disconnect_cancel E S runID threadID w =
     (case run_CancelWithAction E [runID] threadID ''interrupt'' [] w of
        (Inl e, w1) \<Rightarrow> w1
      | (Inr results, w1) \<Rightarrow>
          fire_all S (publishCancelSignals E S results ''interrupt'' @ publishCancelTerminals E S results) w1)"

text \<open>The main loop on a list of events; \<open>None\<close> while it is still running.\<close>

fun stream_loop :: "env \<Rightarrow> svc \<Rightarrow> string \<Rightarrow> string \<Rightarrow> JoinRunRequest \<Rightarrow> stream_ev list \<Rightarrow> stream_event list \<Rightarrow> world \<Rightarrow>
    (stream_event list \<times> stream_end option) \<times> world" where
  "stream_loop E S runID threadID jr [] sent w = ((sent, None), w)"
| "stream_loop E S runID threadID jr (ev # evs) sent w =
     (let mf = modeFilter (jr_StreamModes jr)
      in case ev of
           Disconnected \<Rightarrow>
             ((sent, Some CtxErr), if jr_CancelOnDisconnect jr then disconnect_cancel E S runID threadID w else w)
         | StatusTick \<Rightarrow>
             (case checkRunFinished E runID threadID w of (fin, w') \<Rightarrow>
                if fin then (case drainAndClose mf evs sent of (sent', e) \<Rightarrow> ((sent', Some e), w'))
                else stream_loop E S runID threadID jr evs sent w')
         | TerminalMsg ok \<Rightarrow>
             if \<not> ok then ((sent, Some Finished), w)
             else ((sent @ [control_event ''done''], Some Finished), w)
         | EntryMsg e ok \<Rightarrow>
             if ok \<or> sendEntry mf e = [] then stream_loop E S runID threadID jr evs (sent @ sendEntry mf e) w
             else ((sent, Some SendErr), w)
         | EntriesClosed \<Rightarrow> ((sent, Some Finished), w)
         | DrainTimeout \<Rightarrow> stream_loop E S runID threadID jr evs sent w)"

definition runs_svc_Stream :: "env \<Rightarrow> svc \<Rightarrow> client_msg option \<Rightarrow> bool \<Rightarrow> bool \<Rightarrow> client_msg option \<Rightarrow> stream_ev list \<Rightarrow> world \<Rightarrow>
    (stream_event list \<times> stream_end option) \<times> world" where
  "runs_svc_Stream E S m1 subscribe_ok send_ok m2 evs w =
     (case stream_subscribe E S m1 subscribe_ok send_ok of
        Inl e \<Rightarrow> (([], Some e), w)
      | Inr (runID, threadID) \<Rightarrow>
          (let sent = [control_event ''subscribed'']
           in case stream_join E runID threadID m2 w of
                (Inl e, w') \<Rightarrow> ((sent, Some e), w')
              | (Inr jr, w') \<Rightarrow>
                  (case checkRunFinished E runID threadID w' of (fin, w1) \<Rightarrow>
                     if fin then (case drainAndClose (modeFilter (jr_StreamModes jr)) evs sent of (sent', e) \<Rightarrow>
                       ((sent', Some e), w1))
                     else stream_loop E S runID threadID jr evs sent w1)))"

end
