(* ===== verification/Checkpoint_Service.thy ===== *)
theory Checkpoint_Service
  imports Checkpoint_Store Runs_Service
begin

text \<open>
  The checkpointer service (\<^verbatim>\<open>internal/checkpointer/service.go\<close>): the handlers, and the translation between the messages of
  the protocol and the rows of the store. A message is a record; a map of the protocol is an association list read with
  \<open>map_of\<close>. \<^verbatim>\<open>proto.Marshal\<close> and \<^verbatim>\<open>proto.Unmarshal\<close> of a channel value, and the results Go leaves to the machine when a
  \<^verbatim>\<open>float64\<close> does not fit an integer, are arguments (\<open>pbenv\<close>).
\<close>

section \<open>Messages\<close>

type_synonym smap = "(string \<times> string) list"

datatype Send = Send (send_node: string) (send_encoding: string) (send_value: "string option")

datatype channel_value =
    CVUnset
  | CVSerialized string "string option"
  | CVSends "Send list"
  | CVMissing

record Checkpoint =
  ck_V :: nat
  ck_Id :: string
  ck_ChannelValues :: "(string \<times> channel_value) list"
  ck_ChannelVersions :: smap
  ck_VersionsSeen :: "(string \<times> smap) list"
  ck_Ts :: string
  ck_UpdatedChannels :: "string list"

record CheckpointMetadata =
  cm_Source :: int
  cm_Step :: int
  cm_Parents :: smap
  cm_RunId :: "string option"
  cm_Extras :: "(string \<times> string) list"

text \<open>The fields of \<^verbatim>\<open>EngineRunnableConfig\<close> the service reads or writes.\<close>

record EngineConfig =
  ec_ThreadId :: "string option"
  ec_CheckpointNs :: "string option"
  ec_CheckpointId :: "string option"
  ec_RunId :: "string option"

record PendingWrite =
  pn_TaskId :: string
  pn_Channel :: string
  pn_Value :: channel_value

record CheckpointTuple =
  tp_Config :: EngineConfig
  tp_Checkpoint :: Checkpoint
  tp_Metadata :: CheckpointMetadata
  tp_ParentConfig :: "EngineConfig option"
  tp_PendingWrites :: "PendingWrite list"

record pbenv =
  pb_marshal :: "channel_value \<Rightarrow> string option"
  pb_unmarshal :: "string \<Rightarrow> channel_value option"
  f2u64 :: "rat \<Rightarrow> nat"
  f2i32 :: "rat \<Rightarrow> int"

text \<open>Getters of a possibly nil message or unset field.\<close>

definition str_of :: "string option \<Rightarrow> string" where
  "str_of s = (case s of None \<Rightarrow> [] | Some x \<Rightarrow> x)"

definition cfg_get :: "(EngineConfig \<Rightarrow> string option) \<Rightarrow> EngineConfig option \<Rightarrow> string" where
  "cfg_get f cfg = (case cfg of None \<Rightarrow> [] | Some c \<Rightarrow> str_of (f c))"

text \<open>Insertion into a Go map.\<close>

definition mput :: "'k \<Rightarrow> 'v \<Rightarrow> ('k \<times> 'v) list \<Rightarrow> ('k \<times> 'v) list" where
  "mput k v m = (k, v) # filter (\<lambda>p. fst p \<noteq> k) m"

section \<open>Numbers and bytes\<close>

definition trunc :: "rat \<Rightarrow> int" where
  "trunc r = (if r < 0 then - \<lfloor>- r\<rfloor> else \<lfloor>r\<rfloor>)"

definition to_uint64 :: "pbenv \<Rightarrow> rat \<Rightarrow> nat" where
  "to_uint64 G r = (if -1 < r \<and> r < 2 ^ 64 then nat (trunc r) else f2u64 G r)"

definition to_int32 :: "pbenv \<Rightarrow> rat \<Rightarrow> int" where
  "to_int32 G r = (if - (2 ^ 31) - 1 < r \<and> r < 2 ^ 31 then trunc r else f2i32 G r)"

text \<open>\<^verbatim>\<open>json.Marshal\<close> prints a byte slice in base64.\<close>

definition base64_char :: "nat \<Rightarrow> char" where
  "base64_char n = (if n < 26 then char_of (65 + n) else if n < 52 then char_of (71 + n)
     else if n < 62 then char_of (n - 4) else if n = 62 then CHR ''+'' else CHR ''/'')"

fun base64 :: "string \<Rightarrow> string" where
  "base64 [] = []"
| "base64 [a] = (let n = of_char a * 16 in [base64_char (n div 64), base64_char (n mod 64), CHR ''='', CHR ''=''])"
| "base64 [a, b] = (let n = (of_char a * 256 + of_char b) * 4
     in [base64_char (n div 4096), base64_char (n div 64 mod 64), base64_char (n mod 64), CHR ''=''])"
| "base64 (a # b # c # s) = (let n = (of_char a * 256 + of_char b) * 256 + of_char c
     in [base64_char (n div 262144), base64_char (n div 4096 mod 64), base64_char (n div 64 mod 64), base64_char (n mod 64)]
        @ base64 s)"

section \<open>Documents\<close>

definition str_obj :: "smap \<Rightarrow> json" where
  "str_obj m = JObj (map (\<lambda>(k, v). (k, JStr v)) m)"

text \<open>A nil slice or map is printed as null.\<close>

definition checkpoint_json :: "Checkpoint \<Rightarrow> json" where
  "checkpoint_json cp = JObj [
     (''v'', JNum (of_nat (ck_V cp))),
     (''id'', JStr (ck_Id cp)),
     (''ts'', JStr (ck_Ts cp)),
     (''channel_versions'', str_obj (ck_ChannelVersions cp)),
     (''versions_seen'', JObj (map (\<lambda>(n, m). (n, str_obj m)) (ck_VersionsSeen cp))),
     (''updated_channels'', if ck_UpdatedChannels cp = [] then JNull else JArr (map JStr (ck_UpdatedChannels cp)))]"

definition marshalCheckpoint :: "env \<Rightarrow> Checkpoint option \<Rightarrow> string" where
  "marshalCheckpoint E cp = (case cp of None \<Rightarrow> ''{}'' | Some c \<Rightarrow> go_marshal E (checkpoint_json c))"

definition sourceIntToString :: "int \<Rightarrow> string option" where
  "sourceIntToString = map_of [(2, ''input''), (1, ''loop''), (3, ''update''), (4, ''fork'')]"

definition sourceStringToInt :: "string \<Rightarrow> int option" where
  "sourceStringToInt = map_of [(''input'', 2), (''loop'', 1), (''update'', 3), (''fork'', 4)]"

text \<open>The extras are written last, so an extra with the name of a standard key replaces it.\<close>

definition metadata_json :: "env \<Rightarrow> CheckpointMetadata \<Rightarrow> json" where
  "metadata_json E md = JObj (obj_merge
     ([(''step'', JNum (of_int (cm_Step md))),
       (''parents'', if cm_Parents md = [] then JNull else str_obj (cm_Parents md))] @
      (case sourceIntToString (cm_Source md) of None \<Rightarrow> [] | Some s \<Rightarrow> [(''source'', JStr s)]) @
      (case cm_RunId md of None \<Rightarrow> [] | Some r \<Rightarrow> if r = [] then [] else [(''run_id'', JStr r)]))
     (map (\<lambda>(k, v). (k, case go_json E v of Some j \<Rightarrow> j | None \<Rightarrow> JStr (base64 v))) (cm_Extras md)))"

definition marshalMetadata :: "env \<Rightarrow> CheckpointMetadata option \<Rightarrow> string" where
  "marshalMetadata E md = (case md of None \<Rightarrow> ''{}'' | Some m \<Rightarrow> go_marshal E (metadata_json E m))"

definition cloneConfig :: "EngineConfig option \<Rightarrow> EngineConfig" where
  "cloneConfig cfg = (case cfg of
     None \<Rightarrow> \<lparr>ec_ThreadId = None, ec_CheckpointNs = None, ec_CheckpointId = None, ec_RunId = None\<rparr>
   | Some c \<Rightarrow> \<lparr>ec_ThreadId = Some (str_of (ec_ThreadId c)), ec_CheckpointNs = Some (str_of (ec_CheckpointNs c)),
                ec_CheckpointId = None, ec_RunId = None\<rparr>)"

section \<open>Channel values\<close>

definition channelValueProtoEncoding :: string where
  "channelValueProtoEncoding = ''__lsd_channel_value_pb__''"

definition encodeWriteValue :: "pbenv \<Rightarrow> channel_value option \<Rightarrow> string + string \<times> string option" where
  "encodeWriteValue G cv =
     (case cv of
        Some (CVSerialized enc v) \<Rightarrow> Inr (enc, Some (str_of v))
      | Some CVUnset \<Rightarrow> Inr ([], Some [])
      | None \<Rightarrow> Inr ([], Some [])
      | Some c \<Rightarrow> (case pb_marshal G c of None \<Rightarrow> Inl ''marshal channel value''
                   | Some b \<Rightarrow> Inr (channelValueProtoEncoding, Some b)))"

definition decodeWriteValue :: "pbenv \<Rightarrow> string \<Rightarrow> string option \<Rightarrow> string + channel_value" where
  "decodeWriteValue G encoding blob =
     (if encoding = channelValueProtoEncoding
      then of_opt ''unmarshal channel value'' (pb_unmarshal G (str_of blob))
      else Inr (CVSerialized encoding blob))"

definition writesIdxMap :: "string \<Rightarrow> int option" where
  "writesIdxMap = map_of [(''__error__'', -1), (''__scheduled__'', -2), (''__interrupt__'', -3), (''__resume__'', -4)]"

section \<open>Rows to messages\<close>

text \<open>The entries of a decoded JSON object, in the order of the document, each key once.\<close>

definition obj_entries :: "(json \<Rightarrow> 'a option) \<Rightarrow> (string \<times> json) list \<Rightarrow> (string \<times> 'a) list" where
  "obj_entries f kvs = concat (map (\<lambda>k. case Option.bind (map_of kvs k) f of Some x \<Rightarrow> [(k, x)] | None \<Rightarrow> [])
     (remdups (map fst kvs)))"

fun j_str :: "json \<Rightarrow> string option" where
  "j_str (JStr s) = Some s"
| "j_str _ = None"

fun j_num :: "json \<Rightarrow> rat option" where
  "j_num (JNum r) = Some r"
| "j_num _ = None"

fun j_smap :: "json \<Rightarrow> smap option" where
  "j_smap (JObj kvs) = Some (obj_entries j_str kvs)"
| "j_smap _ = None"

text \<open>Decoding into \<^verbatim>\<open>map[string]any\<close>: an object, or null for the nil map.\<close>

definition decode_map :: "env \<Rightarrow> string \<Rightarrow> string + (string \<times> json) list" where
  "decode_map E s = (case go_json E s of Some (JObj kvs) \<Rightarrow> Inr kvs | Some JNull \<Rightarrow> Inr [] | _ \<Rightarrow> Inl ''decode json'')"

fun channel_values :: "pbenv \<Rightarrow> smap \<Rightarrow> BlobRow list \<Rightarrow> (string \<times> channel_value) list \<Rightarrow>
    string + (string \<times> channel_value) list" where
  "channel_values G vers [] acc = Inr acc"
| "channel_values G vers (b # bs) acc =
     (if map_of vers (br_Channel b) \<noteq> Some (br_Version b) \<or> br_Encoding b = ''empty'' then channel_values G vers bs acc
      else rb (decodeWriteValue G (br_Encoding b) (br_Blob b)) (\<lambda>cv.
           channel_values G vers bs (mput (br_Channel b) cv acc)))"

fun pending_sends :: "pbenv \<Rightarrow> SendRow list \<Rightarrow> string + Send list" where
  "pending_sends G [] = Inr []"
| "pending_sends G (s # ss) =
     rb (decodeWriteValue G (sr_Encoding s) (Some (sr_Blob s))) (\<lambda>cv.
     rb (pending_sends G ss) (\<lambda>rest.
     Inr ((case cv of CVSends xs \<Rightarrow> xs | CVSerialized enc v \<Rightarrow> [Send [] enc v] | _ \<Rightarrow> []) @ rest)))"

fun pending_writes :: "pbenv \<Rightarrow> WriteRow list \<Rightarrow> string + PendingWrite list" where
  "pending_writes G [] = Inr []"
| "pending_writes G (x # xs) =
     rb (decodeWriteValue G (wr_Encoding x) (Some (wr_Blob x))) (\<lambda>cv.
     rb (pending_writes G xs) (\<lambda>rest.
     Inr (\<lparr>pn_TaskId = wr_TaskID x, pn_Channel = wr_Channel x, pn_Value = cv\<rparr> # rest)))"

definition checkpoint_of :: "pbenv \<Rightarrow> string \<Rightarrow> (string \<times> json) list \<Rightarrow> (string \<times> channel_value) list \<Rightarrow> Checkpoint" where
  "checkpoint_of G cid m vals =
     \<lparr>ck_V = (case map_of m ''v'' of Some (JNum r) \<Rightarrow> to_uint64 G r | _ \<Rightarrow> 0),
      ck_Id = cid,
      ck_ChannelValues = vals,
      ck_ChannelVersions = (case map_of m ''channel_versions'' of Some (JObj kvs) \<Rightarrow> obj_entries j_str kvs | _ \<Rightarrow> []),
      ck_VersionsSeen = (case map_of m ''versions_seen'' of Some (JObj kvs) \<Rightarrow> obj_entries j_smap kvs | _ \<Rightarrow> []),
      ck_Ts = (case map_of m ''ts'' of Some (JStr s) \<Rightarrow> s | _ \<Rightarrow> []),
      ck_UpdatedChannels = (case map_of m ''updated_channels'' of
         Some (JArr xs) \<Rightarrow> List.map_filter j_str xs | _ \<Rightarrow> [])\<rparr>"

definition metadata_of :: "env \<Rightarrow> pbenv \<Rightarrow> (string \<times> json) list \<Rightarrow> CheckpointMetadata" where
  "metadata_of E G m =
     \<lparr>cm_Source = (case map_of m ''source'' of
         Some (JStr s) \<Rightarrow> (case sourceStringToInt s of Some n \<Rightarrow> n | None \<Rightarrow> 0)
       | Some (JNum r) \<Rightarrow> to_int32 G r | _ \<Rightarrow> 0),
      cm_Step = (case map_of m ''step'' of Some (JNum r) \<Rightarrow> to_int32 G r | _ \<Rightarrow> 0),
      cm_Parents = (case map_of m ''parents'' of Some (JObj kvs) \<Rightarrow> obj_entries j_str kvs | _ \<Rightarrow> []),
      cm_RunId = (case map_of m ''run_id'' of Some (JStr s) \<Rightarrow> if s = [] then None else Some s | _ \<Rightarrow> None),
      cm_Extras = obj_entries (\<lambda>j. Some (go_marshal E j))
        (filter (\<lambda>kv. fst kv \<notin> {''source'', ''step'', ''parents'', ''run_id''}) m)\<rparr>"

definition id_config :: "string \<Rightarrow> string \<Rightarrow> string \<Rightarrow> EngineConfig" where
  "id_config tid ns cid = \<lparr>ec_ThreadId = Some tid, ec_CheckpointNs = Some ns, ec_CheckpointId = Some cid, ec_RunId = None\<rparr>"

definition rowToTuple :: "env \<Rightarrow> pbenv \<Rightarrow> CheckpointRow \<Rightarrow> string + CheckpointTuple" where
  "rowToTuple E G row =
     rb (decode_map E (cr_CheckpointJSON row)) (\<lambda>cpMap.
     let vers = ck_ChannelVersions (checkpoint_of G [] cpMap []) in
     rb (channel_values G vers (cr_Blobs row) []) (\<lambda>vals.
     rb (pending_sends G (cr_PendingSends row)) (\<lambda>sends.
     let vals = (if sends = [] then vals else mput tasksChannelConst (CVSends sends) vals) in
     rb (decode_map E (cr_MetadataJSON row)) (\<lambda>mdMap.
     rb (pending_writes G (cr_Writes row)) (\<lambda>ws.
     Inr \<lparr>tp_Config = id_config (cr_ThreadID row) (cr_CheckpointNS row) (cr_CheckpointID row),
          tp_Checkpoint = checkpoint_of G (cr_CheckpointID row) cpMap vals,
          tp_Metadata = metadata_of E G mdMap,
          tp_ParentConfig = (if cr_ParentCheckpointID row = [] then None
             else Some (id_config (cr_ThreadID row) (cr_CheckpointNS row) (cr_ParentCheckpointID row))),
          tp_PendingWrites = ws\<rparr>)))))"

section \<open>Handlers\<close>

definition put_blobs_of :: "Checkpoint option \<Rightarrow> smap \<Rightarrow> BlobInput list" where
  "put_blobs_of cp newVersions =
     (case cp of None \<Rightarrow> []
      | Some c \<Rightarrow> List.map_filter (\<lambda>(ch, cv). case cv of
          CVSerialized enc v \<Rightarrow> Some \<lparr>bi_Channel = ch, bi_Version = str_of (map_of newVersions ch),
                                     bi_Encoding = enc, bi_Blob = v\<rparr>
        | _ \<Rightarrow> None) (ck_ChannelValues c))"

definition put_in :: "env \<Rightarrow> EngineConfig option \<Rightarrow> Checkpoint option \<Rightarrow> CheckpointMetadata option \<Rightarrow> smap \<Rightarrow> PutInput" where
  "put_in E cfg cp md newVersions =
     (let cfgRun = cfg_get ec_RunId cfg
      in \<lparr>pi_ThreadID = cfg_get ec_ThreadId cfg, pi_CheckpointNS = cfg_get ec_CheckpointNs cfg,
          pi_CheckpointID = (case cp of None \<Rightarrow> [] | Some c \<Rightarrow> ck_Id c),
          pi_ParentCheckpointID = cfg_get ec_CheckpointId cfg,
          pi_RunID = (if cfgRun = [] then (case md of None \<Rightarrow> [] | Some m \<Rightarrow> str_of (cm_RunId m)) else cfgRun),
          pi_CheckpointJSON = marshalCheckpoint E cp, pi_MetadataJSON = marshalMetadata E md,
          pi_Blobs = put_blobs_of cp newVersions\<rparr>)"

definition cpsvc_Put :: "env \<Rightarrow> EngineConfig option \<Rightarrow> Checkpoint option \<Rightarrow> CheckpointMetadata option \<Rightarrow> smap \<Rightarrow>
    EngineConfig rpc" where
  "cpsvc_Put E cfg cp md newVersions =
     call (cp_Put E (put_in E cfg cp md newVersions)) (\<lambda>_. Internal)
       (\<lambda>_. answer ((cloneConfig cfg)\<lparr>ec_CheckpointId := Some (case cp of None \<Rightarrow> [] | Some c \<Rightarrow> ck_Id c)\<rparr>))"

text \<open>The index of a write: its position, or the fixed index of a sentinel channel.\<close>

definition write_input :: "pbenv \<Rightarrow> nat \<Rightarrow> string \<times> channel_value option \<Rightarrow> string + WriteInput" where
  "write_input G i x =
     rb (encodeWriteValue G (snd x)) (\<lambda>(enc, blob).
     Inr \<lparr>wi_Idx = (case writesIdxMap (fst x) of Some s \<Rightarrow> s | None \<Rightarrow> int i), wi_Channel = fst x,
          wi_Encoding = enc, wi_Blob = blob\<rparr>)"

definition write_inputs :: "pbenv \<Rightarrow> (string \<times> channel_value option) list \<Rightarrow> string + WriteInput list" where
  "write_inputs G xs = res_map (\<lambda>(i, x). write_input G i x) (enumerate 0 xs)"

definition cpsvc_PutWrites :: "env \<Rightarrow> pbenv \<Rightarrow> EngineConfig option \<Rightarrow> string \<Rightarrow> string \<Rightarrow>
    (string \<times> channel_value option) list \<Rightarrow> unit rpc" where
  "cpsvc_PutWrites E G cfg taskId taskPath xs =
     (case write_inputs G xs of
        Inl _ \<Rightarrow> refuse Internal
      | Inr ws \<Rightarrow> call (cp_PutWrites E \<lparr>pw_ThreadID = cfg_get ec_ThreadId cfg, pw_CheckpointNS = cfg_get ec_CheckpointNs cfg,
            pw_CheckpointID = cfg_get ec_CheckpointId cfg, pw_TaskID = taskId, pw_TaskPath = taskPath, pw_Writes = ws\<rparr>)
          (\<lambda>_. Internal) answer)"

definition cpsvc_List :: "env \<Rightarrow> pbenv \<Rightarrow> EngineConfig option \<Rightarrow> EngineConfig option \<Rightarrow> int option \<Rightarrow> string \<Rightarrow>
    CheckpointTuple list rpc" where
  "cpsvc_List E G cfg before limit filterJSON =
     call (cp_List E (cfg_get ec_ThreadId cfg) (cfg_get ec_CheckpointNs cfg) (cfg_get ec_CheckpointId before) limit filterJSON)
       (\<lambda>_. Internal) (\<lambda>rows. case res_map (rowToTuple E G) rows of Inl _ \<Rightarrow> refuse Internal | Inr ts \<Rightarrow> answer ts)"

definition cpsvc_GetTuple :: "env \<Rightarrow> pbenv \<Rightarrow> EngineConfig option \<Rightarrow> CheckpointTuple option rpc" where
  "cpsvc_GetTuple E G cfg =
     call (cp_GetTuple E (cfg_get ec_ThreadId cfg) (cfg_get ec_CheckpointNs cfg) (cfg_get ec_CheckpointId cfg))
       (\<lambda>_. Internal) (\<lambda>row. case row of None \<Rightarrow> answer None
          | Some r \<Rightarrow> (case rowToTuple E G r of Inl _ \<Rightarrow> refuse Internal | Inr t \<Rightarrow> answer (Some t)))"

definition cpsvc_DeleteThread :: "env \<Rightarrow> string \<Rightarrow> unit rpc" where
  "cpsvc_DeleteThread E threadId = call (cp_DeleteThread E threadId) (\<lambda>_. Internal) answer"

definition cpsvc_DeleteForRuns :: "env \<Rightarrow> string list \<Rightarrow> unit rpc" where
  "cpsvc_DeleteForRuns E runIds = call (cp_DeleteForRuns E runIds) (\<lambda>_. Internal) answer"

definition cpsvc_CopyThread :: "env \<Rightarrow> string \<Rightarrow> string \<Rightarrow> unit rpc" where
  "cpsvc_CopyThread E src dst = call (cp_CopyThread E src dst) (\<lambda>_. Internal) answer"

definition cpsvc_Prune :: "env \<Rightarrow> string list \<Rightarrow> int \<Rightarrow> unit rpc" where
  "cpsvc_Prune E threadIds strategy = call (cp_Prune E threadIds strategy) (\<lambda>_. Internal) answer"

end
