(* ===== verification/Crons_Payload.thy ===== *)
theory Crons_Payload
  imports Checkpoint_Service
begin

text \<open>
  The codec between the payload of a cron (or the config of an assistant) as a message of the protocol and as the JSON
  object the columns store (\<^verbatim>\<open>internal/crons/payload.go\<close>). A \<^verbatim>\<open>map[string]any\<close> is an association list read with
  \<open>map_of\<close>; \<^verbatim>\<open>nil\<close> is \<open>JNull\<close>. How \<^verbatim>\<open>fmt.Sprint\<close> prints numbers, arrays and objects is an argument (\<open>sp\<close>).
\<close>

type_synonym dict = "(string \<times> json) list"

section \<open>Messages\<close>

datatype static_interrupt = InterruptAll bool | InterruptNodes "string list" | InterruptUnset

record RunnableConfig =
  rc_RunAttempt :: "int option"
  rc_ServerRunId :: "string option"
  rc_MetadataJson :: "(string \<times> string) list"
  rc_RunName :: "string option"
  rc_RunId :: "string option"
  rc_MaxConcurrency :: "int option"
  rc_RecursionLimit :: "int option"
  rc_Tags :: "string list"
  rc_Resuming :: "bool option"
  rc_TaskId :: "string option"
  rc_ThreadId :: "string option"
  rc_CheckpointMap :: smap
  rc_CheckpointId :: "string option"
  rc_CheckpointNs :: "string option"
  rc_Durability :: "int option"
  rc_RootStreamModes :: "int list"
  rc_TracingProject :: "string option"
  rc_TracingExampleId :: "string option"
  rc_GraphId :: "string option"
  rc_ExtraConfigurableJson :: "(string \<times> string) list"
  rc_ExtraJson :: "(string \<times> string) list"

record CronPayload =
  cy_AssistantId :: string
  cy_InputJson :: string
  cy_ContextJson :: string
  cy_MetadataJson :: string
  cy_Webhook :: "string option"
  cy_Config :: "RunnableConfig option"
  cy_InterruptBefore :: "static_interrupt option"
  cy_InterruptAfter :: "static_interrupt option"
  cy_MultitaskStrategy :: "int option"
  cy_ExtraJson :: "(string \<times> string) list"

section \<open>Values\<close>

definition sprint :: "(json \<Rightarrow> string) \<Rightarrow> json \<Rightarrow> string" where
  "sprint sp v = (case v of JStr s \<Rightarrow> s | JBool b \<Rightarrow> if b then ''true'' else ''false'' | JNull \<Rightarrow> ''<nil>'' | _ \<Rightarrow> sp v)"

text \<open>A key that is present with a value other than nil.\<close>

definition nn :: "dict \<Rightarrow> string \<Rightarrow> json option" where
  "nn m k = (case map_of m k of Some JNull \<Rightarrow> None | x \<Rightarrow> x)"

definition put_opt :: "string \<Rightarrow> json option \<Rightarrow> dict \<Rightarrow> dict" where
  "put_opt k v m = (case v of Some x \<Rightarrow> mput k x m | None \<Rightarrow> m)"

definition toInt32 :: "pbenv \<Rightarrow> json option \<Rightarrow> int option" where
  "toInt32 G v = map_option (to_int32 G) (Option.bind v j_num)"

definition toStringSlice :: "(json \<Rightarrow> string) \<Rightarrow> json \<Rightarrow> string list option" where
  "toStringSlice sp v = (case v of JArr xs \<Rightarrow> Some (map (sprint sp) xs) | _ \<Rightarrow> None)"

definition durabilityToProto :: "string \<Rightarrow> int option" where
  "durabilityToProto s = map_of [(''async'', 1), (''sync'', 2), (''exit'', 3)] s"

definition durabilityFromProto :: "int \<Rightarrow> string option" where
  "durabilityFromProto d = map_of [(1, ''async''), (2, ''sync''), (3, ''exit'')] d"

definition j_obj :: "json option \<Rightarrow> dict option" where
  "j_obj v = (case v of Some (JObj m) \<Rightarrow> Some m | _ \<Rightarrow> None)"

section \<open>Config to message\<close>

definition restrictedReservedConfigurableKeys :: "string list" where
  "restrictedReservedConfigurableKeys = [''__pregel_send'', ''__pregel_read'', ''__pregel_scratchpad'', ''__pregel_call'',
     ''__pregel_checkpointer'', ''__pregel_stream'', ''__pregel_cache'', ''__pregel_runner_submit'',
     ''__pregel_root_stream_modes'']"

definition knownConfigTopLevelKeys :: "string list" where
  "knownConfigTopLevelKeys = [''metadata'', ''run_name'', ''run_id'', ''max_concurrency'', ''recursion_limit'', ''tags'',
     ''configurable'', ''callbacks'']"

text \<open>The keys of \<^verbatim>\<open>configurable\<close> with a field of their own.\<close>

definition configurable_fields :: "string list" where
  "configurable_fields = [''__pregel_resuming'', ''__pregel_task_id'', ''thread_id'', ''checkpoint_map'', ''checkpoint_id'',
     ''checkpoint_ns'', ''__pregel_durability'', ''__pregel_root_stream_modes'', ''__langsmith_project__'',
     ''__langsmith_example_id__'']"

definition empty_config :: RunnableConfig where
  "empty_config = \<lparr>rc_RunAttempt = None, rc_ServerRunId = None, rc_MetadataJson = [], rc_RunName = None, rc_RunId = None,
     rc_MaxConcurrency = None, rc_RecursionLimit = None, rc_Tags = [], rc_Resuming = None, rc_TaskId = None,
     rc_ThreadId = None, rc_CheckpointMap = [], rc_CheckpointId = None, rc_CheckpointNs = None, rc_Durability = None,
     rc_RootStreamModes = [], rc_TracingProject = None, rc_TracingExampleId = None, rc_GraphId = None,
     rc_ExtraConfigurableJson = [], rc_ExtraJson = []\<rparr>"

definition injectConfigurableIntoProto :: "env \<Rightarrow> (json \<Rightarrow> string) \<Rightarrow> dict \<Rightarrow> RunnableConfig \<Rightarrow> RunnableConfig" where
  "injectConfigurableIntoProto E sp c pb =
     (let txt = (\<lambda>k. map_option (sprint sp) (nn c k))
      in pb\<lparr>rc_Resuming := (case nn c ''__pregel_resuming'' of Some (JBool b) \<Rightarrow> Some b | _ \<Rightarrow> None),
            rc_TaskId := txt ''__pregel_task_id'',
            rc_ThreadId := txt ''thread_id'',
            rc_CheckpointMap := (case nn c ''checkpoint_map'' of Some (JObj m) \<Rightarrow> obj_entries (\<lambda>v. Some (sprint sp v)) m | _ \<Rightarrow> []),
            rc_CheckpointId := txt ''checkpoint_id'',
            rc_CheckpointNs := txt ''checkpoint_ns'',
            rc_Durability := Option.bind (Option.bind (nn c ''__pregel_durability'') j_str) durabilityToProto,
            rc_RootStreamModes := (case Option.bind (nn c ''__pregel_root_stream_modes'') (toStringSlice sp) of
               Some ms \<Rightarrow> List.map_filter (enum_value StreamMode_name) ms | None \<Rightarrow> []),
            rc_TracingProject := txt ''__langsmith_project__'',
            rc_TracingExampleId := txt ''__langsmith_example_id__'',
            rc_ExtraConfigurableJson := obj_entries (\<lambda>v. if v = JNull then None else Some (go_marshal E v))
               (filter (\<lambda>kv. fst kv \<notin> set configurable_fields \<and> fst kv \<notin> set restrictedReservedConfigurableKeys) c)\<rparr>)"

definition config_run_id :: "(json \<Rightarrow> string) \<Rightarrow> dict \<Rightarrow> string" where
  "config_run_id sp cfg =
     (let top = (case nn cfg ''run_id'' of Some v \<Rightarrow> sprint sp v | None \<Rightarrow> [])
      in if top \<noteq> [] then top
         else case j_obj (map_of cfg ''configurable'') of
           Some c \<Rightarrow> (case nn c ''run_id'' of Some v \<Rightarrow> sprint sp v | None \<Rightarrow> [])
         | None \<Rightarrow> [])"

definition ConfigDictToProto :: "env \<Rightarrow> pbenv \<Rightarrow> (json \<Rightarrow> string) \<Rightarrow> dict \<Rightarrow> RunnableConfig option" where
  "ConfigDictToProto E G sp cfg =
     (if cfg = [] then None
      else let
        meta = (case j_obj (map_of cfg ''metadata'') of Some m \<Rightarrow> m | None \<Rightarrow> []);
        nonzero = (\<lambda>k. case toInt32 G (map_of cfg k) of Some n \<Rightarrow> if n \<noteq> 0 then Some n else None | None \<Rightarrow> None);
        runID = config_run_id sp cfg;
        pb = empty_config\<lparr>
          rc_RunAttempt := toInt32 G (map_of meta ''run_attempt''),
          rc_ServerRunId := map_option (sprint sp) (map_of meta ''run_id''),
          rc_MetadataJson := obj_entries (\<lambda>v. Some (go_marshal E v)) (filter (\<lambda>kv. fst kv \<notin> {''run_attempt'', ''run_id''}) meta),
          rc_RunName := (case map_of cfg ''run_name'' of Some (JStr s) \<Rightarrow> if s \<noteq> [] then Some s else None | _ \<Rightarrow> None),
          rc_RunId := (if runID \<noteq> [] then Some runID else None),
          rc_MaxConcurrency := nonzero ''max_concurrency'',
          rc_RecursionLimit := nonzero ''recursion_limit'',
          rc_Tags := (case map_of cfg ''tags'' of Some (JArr ts) \<Rightarrow> map (sprint sp) ts | _ \<Rightarrow> [])\<rparr>;
        pb = (case j_obj (map_of cfg ''configurable'') of Some c \<Rightarrow> injectConfigurableIntoProto E sp c pb | None \<Rightarrow> pb)
      in Some (pb\<lparr>rc_ExtraJson := obj_entries (\<lambda>v. Some (go_marshal E v))
           (filter (\<lambda>kv. fst kv \<notin> set knownConfigTopLevelKeys) cfg)\<rparr>))"

section \<open>Config from message\<close>

text \<open>Entries that decode, written over what is there.\<close>

definition put_json :: "env \<Rightarrow> (string \<times> string) list \<Rightarrow> dict \<Rightarrow> dict" where
  "put_json E kvs m = fold (\<lambda>(k, v). put_opt k (go_json E v)) kvs m"

definition nonempty_str :: "string option \<Rightarrow> json option" where
  "nonempty_str s = (case s of Some x \<Rightarrow> if x \<noteq> [] then Some (JStr x) else None | None \<Rightarrow> None)"

definition configurableFromProto :: "env \<Rightarrow> RunnableConfig \<Rightarrow> dict" where
  "configurableFromProto E pb =
     put_opt ''__langsmith_example_id__'' (nonempty_str (rc_TracingExampleId pb))
     (put_opt ''__langsmith_project__'' (nonempty_str (rc_TracingProject pb))
     (put_opt ''run_id'' (nonempty_str (rc_RunId pb))
     (put_json E (rc_ExtraConfigurableJson pb)
     (put_opt ''checkpoint_map'' (if rc_CheckpointMap pb = [] then None else Some (str_obj (rc_CheckpointMap pb)))
     (put_opt ''__pregel_root_stream_modes'' (if rc_RootStreamModes pb = [] then None
        else Some (JArr (map JStr (List.map_filter (map_of StreamMode_name) (rc_RootStreamModes pb)))))
     (put_opt ''graph_id'' (map_option JStr (rc_GraphId pb))
     (put_opt ''__pregel_durability'' (map_option JStr (Option.bind (rc_Durability pb) durabilityFromProto))
     (put_opt ''checkpoint_ns'' (map_option JStr (rc_CheckpointNs pb))
     (put_opt ''checkpoint_id'' (nonempty_str (rc_CheckpointId pb))
     (put_opt ''thread_id'' (map_option JStr (rc_ThreadId pb))
     (put_opt ''__pregel_task_id'' (map_option JStr (rc_TaskId pb))
     (put_opt ''__pregel_resuming'' (map_option JBool (rc_Resuming pb)) []))))))))))))"

definition ConfigProtoToDict :: "env \<Rightarrow> RunnableConfig option \<Rightarrow> dict" where
  "ConfigProtoToDict E pb =
     (case pb of None \<Rightarrow> [] | Some pb \<Rightarrow>
       let configurable = configurableFromProto E pb;
           meta = put_opt ''run_id'' (map_option JStr (rc_ServerRunId pb))
             (put_opt ''run_attempt'' (map_option (\<lambda>n. JNum (of_int n)) (rc_RunAttempt pb)) (put_json E (rc_MetadataJson pb) []))
       in put_json E (rc_ExtraJson pb)
          (put_opt ''recursion_limit'' (map_option (\<lambda>n. JNum (of_int n)) (rc_RecursionLimit pb))
          (put_opt ''max_concurrency'' (map_option (\<lambda>n. JNum (of_int n)) (rc_MaxConcurrency pb))
          (put_opt ''run_name'' (map_option JStr (rc_RunName pb))
          (put_opt ''metadata'' (if meta = [] then None else Some (JObj meta))
          (put_opt ''tags'' (if rc_Tags pb = [] then None else Some (JArr (map JStr (rc_Tags pb))))
          (put_opt ''configurable'' (if configurable = [] then None else Some (JObj configurable)) [])))))))"

section \<open>Payload\<close>

definition simplePayloadKeys :: "string list" where
  "simplePayloadKeys = [''assistant_id'', ''input'', ''context'', ''metadata'', ''webhook'', ''config'']"

definition payloadDictToProto :: "env \<Rightarrow> pbenv \<Rightarrow> (json \<Rightarrow> string) \<Rightarrow> dict \<Rightarrow> CronPayload" where
  "payloadDictToProto E G sp payload =
     (let doc = (\<lambda>k. case nn payload k of Some v \<Rightarrow> go_marshal E v | None \<Rightarrow> [])
      in \<lparr>cy_AssistantId = (case nn payload ''assistant_id'' of Some v \<Rightarrow> sprint sp v | None \<Rightarrow> []),
          cy_InputJson = doc ''input'', cy_ContextJson = doc ''context'', cy_MetadataJson = doc ''metadata'',
          cy_Webhook = map_option (sprint sp) (nn payload ''webhook''),
          cy_Config = Option.bind (j_obj (nn payload ''config'')) (ConfigDictToProto E G sp),
          cy_InterruptBefore = None, cy_InterruptAfter = None, cy_MultitaskStrategy = None,
          cy_ExtraJson = obj_entries (\<lambda>v. if v = JNull then None else Some (go_marshal E v))
            (filter (\<lambda>kv. fst kv \<notin> set simplePayloadKeys) payload)\<rparr>)"

definition staticInterruptConfigFromProto :: "static_interrupt option \<Rightarrow> json option" where
  "staticInterruptConfigFromProto c =
     (case c of Some (InterruptAll b) \<Rightarrow> Some (JStr ''*'') | Some (InterruptNodes ns) \<Rightarrow> Some (JArr (map JStr ns)) | _ \<Rightarrow> None)"

definition payloadProtoToDict :: "env \<Rightarrow> CronPayload option \<Rightarrow> dict" where
  "payloadProtoToDict E p =
     (case p of None \<Rightarrow> [] | Some p \<Rightarrow>
       let doc = (\<lambda>s. if s = [] then None else go_json E s)
       in put_json E (cy_ExtraJson p)
          (put_opt ''multitask_strategy'' (map_option JStr (Option.bind (cy_MultitaskStrategy p) (map_of MultitaskStrategy_name)))
          (put_opt ''interrupt_after'' (staticInterruptConfigFromProto (cy_InterruptAfter p))
          (put_opt ''interrupt_before'' (staticInterruptConfigFromProto (cy_InterruptBefore p))
          (put_opt ''config'' (map_option (\<lambda>c. JObj (ConfigProtoToDict E (Some c))) (cy_Config p))
          (put_opt ''webhook'' (map_option JStr (cy_Webhook p))
          (put_opt ''metadata'' (doc (cy_MetadataJson p))
          (put_opt ''context'' (doc (cy_ContextJson p))
          (put_opt ''input'' (doc (cy_InputJson p))
          (put_opt ''assistant_id'' (if cy_AssistantId p = [] then None else Some (JStr (cy_AssistantId p))) []))))))))))"

definition isLegacyPayloadShape :: "dict \<Rightarrow> bool" where
  "isLegacyPayloadShape m = (map_of m ''input_json'' \<noteq> None \<or> map_of m ''extra_json'' \<noteq> None)"

end
