(* ===== verification/Crons_Store.thy ===== *)
theory Crons_Store
  imports Crons_Payload "HOL-Library.Option_ord"
begin

text \<open>
  The cron store (\<^verbatim>\<open>internal/crons/store.go\<close>). The parser of schedules (\<^verbatim>\<open>robfig/cron\<close>) and the time zone database are
  arguments (\<open>cronenv\<close>), as is the clock of the host, from which \<^verbatim>\<open>Create\<close> and \<^verbatim>\<open>Patch\<close> compute the next run. The decoder of a payload in the
  older \<^verbatim>\<open>protojson\<close> shape is the argument \<open>pj\<close>.
\<close>

section \<open>Schedules\<close>

record cronenv =
  ce_location :: "string \<Rightarrow> string option"
  ce_parse :: "string \<Rightarrow> (string \<Rightarrow> int \<Rightarrow> int) option"

definition computeNextRunFrom :: "cronenv \<Rightarrow> string \<Rightarrow> string \<Rightarrow> int \<Rightarrow> err + int" where
  "computeNextRunFrom C schedule timezone base =
     rb (if timezone = [] then Inr ''UTC''
         else of_opt (DbErr (''schedule parse: load timezone '' @ timezone)) (ce_location C timezone)) (\<lambda>loc.
     rb (of_opt (DbErr (''schedule parse: '' @ schedule)) (ce_parse C schedule)) (\<lambda>sched.
     Inr (sched loc base)))"

definition computeNextRun :: "cronenv \<Rightarrow> int \<Rightarrow> string \<Rightarrow> string \<Rightarrow> err + int" where
  "computeNextRun C clock schedule timezone = computeNextRunFrom C schedule timezone clock"

section \<open>Reads\<close>

record Cron =
  CronID :: string
  CronThreadID :: string
  CronUserID :: string
  CronAssistantID :: string
  CronSchedule :: string
  CronNextRunDate :: "int option"
  CronEndTime :: "int option"
  CronPayloadJSON :: string
  CronMetadata :: string
  CronCreatedAt :: int
  CronUpdatedAt :: int
  CronEnabled :: bool
  CronTimezone :: string
  CronOnRunCompleted :: string
  CronEncryptionContext :: "string option"

definition cronCols :: "env \<Rightarrow> cron_row \<Rightarrow> Cron" where
  "cronCols E k =
     \<lparr>CronID = k_cron_id k, CronThreadID = uuid_or_empty (k_thread_id k), CronUserID = str_of (k_user_id k),
      CronAssistantID = k_assistant_id k, CronSchedule = k_schedule k, CronNextRunDate = k_next_run_date k,
      CronEndTime = k_end_time k, CronPayloadJSON = pg_text E (k_payload k), CronMetadata = pg_text E (k_metadata k),
      CronCreatedAt = k_created_at k, CronUpdatedAt = k_updated_at k, CronEnabled = k_enabled k,
      CronTimezone = k_timezone k, CronOnRunCompleted = str_of (k_on_run_completed k),
      CronEncryptionContext = map_option (pg_text E) (k_encryption_context k)\<rparr>"

record CronSearchInput =
  ks_AssistantID :: string
  ks_ThreadID :: string
  ks_ThreadFilters :: "auth_filter list"
  ks_Limit :: nat
  ks_Offset :: nat
  ks_SortBy :: string
  ks_SortOrder :: string
  ks_Enabled :: "bool option"

definition cronsSortColumns :: "string \<Rightarrow> string option" where
  "cronsSortColumns s = (if s \<in> set [''cron_id'', ''assistant_id'', ''thread_id'', ''next_run_date'', ''end_time'',
     ''created_at'', ''updated_at''] then Some s else None)"

definition cronsSortClause :: "string \<Rightarrow> string \<Rightarrow> string" where
  "cronsSortClause sortBy sortOrder =
     (let (col, order) = (case cronsSortColumns sortBy of Some c \<Rightarrow> (c, sortOrder) | None \<Rightarrow> (''created_at'', ''desc''))
      in col @ (if order = ''asc'' then '' ASC NULLS FIRST'' else '' DESC NULLS LAST''))"

text \<open>
  \<^verbatim>\<open>ORDER BY\<close> with the nullable columns as options, NULL below every value. A name that is not a column of the output is looked up in the joined
  tables, and \<^verbatim>\<open>thread_id\<close>, whose output column is a \<^verbatim>\<open>COALESCE\<close> without name, is in both.
\<close>

definition cron_order_by :: "bool \<Rightarrow> string \<Rightarrow> string + (cron_row list \<Rightarrow> cron_row list)" where
  "cron_order_by join clause =
     (if join \<and> clause \<in> {''thread_id ASC NULLS FIRST'', ''thread_id DESC NULLS LAST''}
      then Inl ''column reference thread_id is ambiguous''
      else of_opt ''syntax error'' (map_of
        [(''cron_id ASC NULLS FIRST'', sort_key k_cron_id), (''cron_id DESC NULLS LAST'', sort_desc k_cron_id),
         (''assistant_id ASC NULLS FIRST'', sort_key k_assistant_id), (''assistant_id DESC NULLS LAST'', sort_desc k_assistant_id),
         (''thread_id ASC NULLS FIRST'', sort_key k_thread_id), (''thread_id DESC NULLS LAST'', sort_desc k_thread_id),
         (''next_run_date ASC NULLS FIRST'', sort_key k_next_run_date), (''next_run_date DESC NULLS LAST'', sort_desc k_next_run_date),
         (''end_time ASC NULLS FIRST'', sort_key k_end_time), (''end_time DESC NULLS LAST'', sort_desc k_end_time),
         (''created_at ASC NULLS FIRST'', sort_key k_created_at), (''created_at DESC NULLS LAST'', sort_desc k_created_at),
         (''updated_at ASC NULLS FIRST'', sort_key k_updated_at), (''updated_at DESC NULLS LAST'', sort_desc k_updated_at)] clause))"

datatype cron_arg = KText string | KBool bool | KTime int

fun karg_text :: "cron_arg \<Rightarrow> string" where
  "karg_text (KText s) = s"
| "karg_text _ = []"

definition karg :: "cron_arg list \<Rightarrow> nat \<Rightarrow> cron_arg option" where
  "karg args i = (if 1 \<le> i \<and> i \<le> length args then Some (args ! (i - 1)) else None)"

definition bind_text :: "cron_arg list \<Rightarrow> nat \<Rightarrow> string + string" where
  "bind_text args i = (case karg args i of Some (KText s) \<Rightarrow> Inr s | _ \<Rightarrow> Inl ''cannot bind argument'')"

definition bind_bool :: "cron_arg list \<Rightarrow> nat \<Rightarrow> string + bool" where
  "bind_bool args i = (case karg args i of Some (KBool b) \<Rightarrow> Inr b | _ \<Rightarrow> Inl ''cannot bind argument'')"

definition bind_time :: "cron_arg list \<Rightarrow> nat \<Rightarrow> string + int" where
  "bind_time args i = (case karg args i of Some (KTime t) \<Rightarrow> Inr t | _ \<Rightarrow> Inl ''cannot bind argument'')"

datatype cron_cond =
    KTrue
  | KAssistant nat
  | KThread nat
  | KEnabledIs nat
  | KAuth frag
  | KThreadAuth frag

definition cron_whereArgs :: "CronSearchInput \<Rightarrow> auth_filter list \<Rightarrow> err + (bool \<times> cron_cond list \<times> cron_arg list \<times> nat)" where
  "cron_whereArgs si filters =
     (let join = (ks_ThreadFilters si \<noteq> []); cp = (if join then ''c.'' else []);
          args = []; wheres = [KTrue]; idx = (1::nat);
          (wheres, args, idx) = (if ks_AssistantID si \<noteq> []
             then (wheres @ [KAssistant idx], args @ [KText (ks_AssistantID si)], idx + 1) else (wheres, args, idx));
          (wheres, args, idx) = (if ks_ThreadID si \<noteq> []
             then (wheres @ [KThread idx], args @ [KText (ks_ThreadID si)], idx + 1) else (wheres, args, idx));
          (wheres, args, idx) = (case ks_Enabled si of
             Some b \<Rightarrow> (wheres @ [KEnabledIs idx], args @ [KBool b], idx + 1) | None \<Rightarrow> (wheres, args, idx))
      in rb (ApplyToQuery filters (cp @ ''metadata'') idx) (\<lambda>(authSQL, authArgs).
         let (wheres, args, idx) = (if authSQL \<noteq> FragNone
               then (wheres @ [KAuth authSQL], args @ map KText authArgs, idx + length authArgs) else (wheres, args, idx))
         in if \<not> join then Inr (join, wheres, args, idx)
            else rb (ApplyToQuery (ks_ThreadFilters si) ''t.metadata'' idx) (\<lambda>(threadSQL, threadArgs).
                 if threadSQL \<noteq> FragNone
                 then Inr (join, wheres @ [KThreadAuth threadSQL], args @ map KText threadArgs, idx + length threadArgs)
                 else Inr (join, wheres, args, idx))))"

text \<open>A row of \<^verbatim>\<open>cron c LEFT JOIN thread t ON c.thread_id = t.thread_id\<close>; without a thread its metadata is NULL, for which no
  containment holds.\<close>

definition cron_left_join :: "db \<Rightarrow> (cron_row \<times> thread_row option) list" where
  "cron_left_join d = concat (map (\<lambda>k.
     (case filter (\<lambda>t. k_thread_id k = Some (t_thread_id t)) (threads d) of
        [] \<Rightarrow> [(k, None)] | ts \<Rightarrow> map (\<lambda>t. (k, Some t)) ts)) (crons d))"

definition thread_meta :: "thread_row option \<Rightarrow> json" where
  "thread_meta t = (case t of None \<Rightarrow> JNull | Some th \<Rightarrow> t_metadata th)"

fun cron_cond_where :: "env \<Rightarrow> cron_arg list \<Rightarrow> cron_cond \<Rightarrow> string + (cron_row \<times> thread_row option \<Rightarrow> bool)" where
  "cron_cond_where E args KTrue = Inr (\<lambda>_. True)"
| "cron_cond_where E args (KAssistant i) =
     rb (bind_text args i) (\<lambda>s. rb (cast_uuid E s) (\<lambda>u. Inr (\<lambda>(k, t). k_assistant_id k = u)))"
| "cron_cond_where E args (KThread i) =
     rb (bind_text args i) (\<lambda>s. rb (cast_uuid E s) (\<lambda>u. Inr (\<lambda>(k, t). k_thread_id k = Some u)))"
| "cron_cond_where E args (KEnabledIs i) = rb (bind_bool args i) (\<lambda>b. Inr (\<lambda>(k, t). k_enabled k = b))"
| "cron_cond_where E args (KAuth fr) =
     rb (auth_where E (map karg_text args) fr) (\<lambda>ok. Inr (\<lambda>(k, t). ok (\<lambda>_. k_metadata k)))"
| "cron_cond_where E args (KThreadAuth fr) =
     rb (auth_where E (map karg_text args) fr) (\<lambda>ok. Inr (\<lambda>(k, t). k_thread_id k = None \<or> ok (\<lambda>_. thread_meta t)))"

definition cron_from_where :: "env \<Rightarrow> bool \<Rightarrow> cron_cond list \<Rightarrow> cron_arg list \<Rightarrow> db \<Rightarrow> string + cron_row list" where
  "cron_from_where E join conds args d =
     rb (res_map (cron_cond_where E args) conds) (\<lambda>ps.
       Inr (map fst (filter (\<lambda>kt. list_all (\<lambda>p. p kt) ps)
         (if join then cron_left_join d else map (\<lambda>k. (k, None)) (crons d)))))"

definition cron_Search :: "env \<Rightarrow> CronSearchInput \<Rightarrow> auth_filter list \<Rightarrow> Cron list op" where
  "cron_Search E si filters =
     bnd (lift (cron_whereArgs si filters)) (\<lambda>(join, conds, args, idx).
     let limit = (if ks_Limit si = 0 then 100 else ks_Limit si)
     in query (\<lambda>_ d.
          rb (cron_order_by join (cronsSortClause (ks_SortBy si) (ks_SortOrder si))) (\<lambda>ord.
          rb (int8_arg limit) (\<lambda>l. rb (int8_arg (ks_Offset si)) (\<lambda>off.
          rb (cron_from_where E join conds args d) (\<lambda>rows.
          Inr (map (cronCols E) (take l (drop off (ord rows))))))))))"

definition cron_Count :: "env \<Rightarrow> CronSearchInput \<Rightarrow> auth_filter list \<Rightarrow> nat op" where
  "cron_Count E si filters =
     bnd (lift (cron_whereArgs si filters)) (\<lambda>(join, conds, args, idx).
     query (\<lambda>_ d. rb (cron_from_where E join conds args d) (\<lambda>rows. Inr (length rows))))"

section \<open>Create\<close>

record CreateCronInput =
  kc_CronID :: string
  kc_AssistantID :: string
  kc_ThreadID :: string
  kc_UserID :: string
  kc_Schedule :: string
  kc_Timezone :: string
  kc_Enabled :: bool
  kc_EndTime :: "int option"
  kc_Payload :: "string option"
  kc_Metadata :: "string option"
  kc_OnRunCompleted :: string
  kc_EncryptionContext :: "string option"
  kc_Filters :: "auth_filter list"
  kc_AssistantFilters :: "auth_filter list"
  kc_ThreadFilters :: "auth_filter list"

definition opt_arg :: "cron_arg option \<Rightarrow> cron_arg list \<Rightarrow> cron_arg list \<times> nat option" where
  "opt_arg a args = (case a of Some v \<Rightarrow> (args @ [v], Some (length args + 1)) | None \<Rightarrow> (args, None))"

definition text_arg :: "string \<Rightarrow> cron_arg option" where
  "text_arg s = (if s = [] then None else Some (KText s))"

text \<open>The placeholders of the optional columns, \<open>None\<close> for a literal NULL.\<close>

record cron_slots =
  sl_base :: nat
  sl_thread :: "nat option"
  sl_user :: "nat option"
  sl_end :: "nat option"
  sl_orc :: "nat option"
  sl_enc :: "nat option"

definition cron_create_args :: "string \<Rightarrow> int \<Rightarrow> CreateCronInput \<Rightarrow> cron_arg list \<times> cron_slots" where
  "cron_create_args cronID nextRun ci =
     (let args = [KText cronID]; base = length args + 1;
          args = args @ [KText (kc_AssistantID ci), KText (kc_Schedule ci), KText (kc_Timezone ci), KBool (kc_Enabled ci), KTime nextRun,
            KText (case kc_Payload ci of None \<Rightarrow> ''{}'' | Some p \<Rightarrow> p), KText (case kc_Metadata ci of None \<Rightarrow> ''{}'' | Some m \<Rightarrow> m)];
          (args, th) = opt_arg (text_arg (kc_ThreadID ci)) args;
          (args, us) = opt_arg (text_arg (kc_UserID ci)) args;
          (args, en) = opt_arg (map_option KTime (kc_EndTime ci)) args;
          (args, orc) = opt_arg (text_arg (kc_OnRunCompleted ci)) args;
          (args, enc) = opt_arg (map_option KText (kc_EncryptionContext ci)) args
      in (args, \<lparr>sl_base = base, sl_thread = th, sl_user = us, sl_end = en, sl_orc = orc, sl_enc = enc\<rparr>))"

definition bind_opt :: "(nat \<Rightarrow> string + 'a) \<Rightarrow> nat option \<Rightarrow> string + 'a option" where
  "bind_opt f slot = (case slot of None \<Rightarrow> Inr None | Some i \<Rightarrow> rb (f i) (\<lambda>x. Inr (Some x)))"

text \<open>The row of the \<^verbatim>\<open>SELECT\<close> that feeds the \<^verbatim>\<open>INSERT\<close>.\<close>

definition cron_new_row :: "env \<Rightarrow> cron_arg list \<Rightarrow> cron_slots \<Rightarrow> int \<Rightarrow> string + cron_row" where
  "cron_new_row E args sl t =
     (let b = sl_base sl; uuid_at = (\<lambda>i. rb (bind_text args i) (cast_uuid E)); json_at = (\<lambda>i. rb (bind_text args i) (cast_jsonb E)) in
     rb (uuid_at 1) (\<lambda>cid. rb (uuid_at b) (\<lambda>aid. rb (bind_opt uuid_at (sl_thread sl)) (\<lambda>th.
     rb (bind_opt (bind_text args) (sl_user sl)) (\<lambda>us. rb (bind_text args (b + 1)) (\<lambda>schedule.
     rb (bind_text args (b + 2)) (\<lambda>tz. rb (bind_bool args (b + 3)) (\<lambda>en. rb (bind_time args (b + 4)) (\<lambda>nx.
     rb (bind_opt (bind_time args) (sl_end sl)) (\<lambda>e. rb (json_at (b + 5)) (\<lambda>payload. rb (json_at (b + 6)) (\<lambda>meta.
     rb (bind_opt (bind_text args) (sl_orc sl)) (\<lambda>orc. rb (bind_opt json_at (sl_enc sl)) (\<lambda>enc.
     Inr \<lparr>k_cron_id = cid, k_thread_id = th, k_user_id = us, k_assistant_id = aid, k_schedule = schedule,
          k_next_run_date = Some nx, k_end_time = e, k_payload = payload, k_metadata = meta, k_created_at = t, k_updated_at = t,
          k_enabled = en, k_timezone = tz, k_on_run_completed = orc, k_encryption_context = enc\<rparr>))))))))))))))"

definition opt_auth :: "env \<Rightarrow> string list \<Rightarrow> frag option \<Rightarrow> string + ((string \<Rightarrow> json) \<Rightarrow> bool) option" where
  "opt_auth E args fr = (case fr of None \<Rightarrow> Inr None | Some f \<Rightarrow> rb (auth_where E args f) (\<lambda>ok. Inr (Some ok)))"

text \<open>
  The one statement of \<^verbatim>\<open>Create\<close>: an insert gated by the optional \<^verbatim>\<open>WITH\<close> clauses, \<^verbatim>\<open>ON CONFLICT (cron_id) DO NOTHING\<close>, and the row that was there
  before, if the filters accept it. Both halves read the tables as they were when the statement began.
\<close>

definition cron_create_stmt :: "env \<Rightarrow> cron_arg list \<Rightarrow> cron_slots \<Rightarrow> frag option \<Rightarrow> frag option \<Rightarrow> frag \<Rightarrow> int \<Rightarrow> db \<Rightarrow>
    string + Cron list \<times> db" where
  "cron_create_stmt E args sl aSQL tSQL fSQL t d =
     rb (cron_new_row E args sl t) (\<lambda>row.
     rb (opt_auth E (map karg_text args) aSQL) (\<lambda>okA. rb (opt_auth E (map karg_text args) tSQL) (\<lambda>okT.
     rb (auth_where E (map karg_text args) fSQL) (\<lambda>okF.
     let as = (case okA of None \<Rightarrow> [k_assistant_id row]
           | Some ok \<Rightarrow> map a_assistant_id (filter (\<lambda>a. a_assistant_id a = k_assistant_id row \<and> ok (\<lambda>_. a_metadata a)) (assistants d)));
         ts = (case okT of None \<Rightarrow> [k_thread_id row]
           | Some ok \<Rightarrow> map (\<lambda>th. Some (t_thread_id th)) (filter (\<lambda>th. Some (t_thread_id th) = k_thread_id row \<and> ok (\<lambda>_. t_metadata th)) (threads d)));
         rows = concat (map (\<lambda>a. map (\<lambda>th. row\<lparr>k_assistant_id := a, k_thread_id := th\<rparr>) ts) as);
         old = filter (\<lambda>k. k_cron_id k = k_cron_id row) (crons d);
         seen = filter (\<lambda>k. okF (\<lambda>_. k_metadata k)) old
     in if rows = [] \<or> old \<noteq> [] then Inr (map (cronCols E) (take 1 seen), d)
        else if \<not> list_ex (\<lambda>a. a_assistant_id a = k_assistant_id (hd rows)) (assistants d) then Inl fk_violation
        else Inr ([cronCols E (hd rows)], d\<lparr>crons := crons d @ [hd rows]\<rparr>)))))"

definition cron_Create :: "cronenv \<Rightarrow> env \<Rightarrow> int \<Rightarrow> string \<Rightarrow> CreateCronInput \<Rightarrow> Cron op" where
  "cron_Create C E clock newUUID ci =
     (let cronID = (if kc_CronID ci = [] then newUUID else kc_CronID ci) in
     bnd (lift (computeNextRun C clock (kc_Schedule ci) (kc_Timezone ci))) (\<lambda>nextRun.
     let (args, sl) = cron_create_args cronID nextRun ci; idx = length args + 1 in
     bnd (lift (if kc_AssistantFilters ci = [] then Inr (None, args, idx)
           else rb (ApplyToQuery (kc_AssistantFilters ci) ''assistant.metadata'' idx) (\<lambda>(aSQL, aArgs).
                Inr (Some aSQL, args @ map KText aArgs, idx + length aArgs)))) (\<lambda>(aSQL, args, idx).
     bnd (lift (if kc_ThreadID ci = [] \<or> kc_ThreadFilters ci = [] then Inr (None, args, idx)
           else rb (ApplyToQuery (kc_ThreadFilters ci) ''thread.metadata'' idx) (\<lambda>(tSQL, tArgs).
                Inr (Some tSQL, args @ map KText tArgs, idx + length tArgs)))) (\<lambda>(tSQL, args, idx).
     bnd (lift (ApplyToQuery (kc_Filters ci) ''c.metadata'' idx)) (\<lambda>(fSQL, fArgs).
     bnd (stmt (cron_create_stmt E (args @ map KText fArgs) sl aSQL tSQL fSQL)) (first_row ErrNotFound))))))"

section \<open>Patch\<close>

record PatchCronInput =
  kp_Schedule :: string
  kp_Timezone :: string
  kp_Enabled :: "bool option"
  kp_EndTime :: "int option"
  kp_Payload :: string
  kp_Metadata :: string
  kp_OnRunCompleted :: "string option"

definition upd_crons :: "(cron_row \<Rightarrow> bool) \<Rightarrow> (cron_row \<Rightarrow> cron_row) \<Rightarrow> db \<Rightarrow> db" where
  "upd_crons P f d = d\<lparr>crons := map (\<lambda>k. if P k then f k else k) (crons d)\<rparr>"

definition cron_where :: "env \<Rightarrow> string \<Rightarrow> frag \<Rightarrow> string list \<Rightarrow> string + (cron_row \<Rightarrow> bool)" where
  "cron_where E cronID authSQL args =
     rb (cast_uuid E cronID) (\<lambda>cid. rb (auth_where E args authSQL) (\<lambda>ok.
     Inr (\<lambda>k. k_cron_id k = cid \<and> ok (\<lambda>_. k_metadata k))))"

text \<open>The new next run when the schedule or the time zone is patched, from the stored value of the other.\<close>

definition cron_patch_next :: "cronenv \<Rightarrow> env \<Rightarrow> int \<Rightarrow> string \<Rightarrow> PatchCronInput \<Rightarrow> int option op" where
  "cron_patch_next C E clock cronID pin =
     (if kp_Schedule pin = [] \<and> kp_Timezone pin = [] then ret None
      else bnd (if kp_Schedule pin = [] \<or> kp_Timezone pin = []
            then bnd (query (\<lambda>_ d. rb (cast_uuid E cronID) (\<lambda>cid.
                   Inr (map (\<lambda>k. (k_schedule k, k_timezone k)) (filter (\<lambda>k. k_cron_id k = cid) (crons d)))))) (\<lambda>rows.
                 bnd (first_row ErrNotFound rows) (\<lambda>(s, z).
                 ret (if kp_Schedule pin = [] then s else kp_Schedule pin, if kp_Timezone pin = [] then z else kp_Timezone pin)))
            else ret (kp_Schedule pin, kp_Timezone pin)) (\<lambda>(s, z).
           bnd (lift (computeNextRun C clock s z)) (\<lambda>n. ret (Some n))))"

text \<open>
  A nil map is \<open>None\<close>: \<^verbatim>\<open>json.Unmarshal\<close> of a null leaves one, and writing into it panics.
\<close>

definition mergePayload :: "env \<Rightarrow> (string \<Rightarrow> CronPayload option) \<Rightarrow> string \<Rightarrow> string \<Rightarrow> err + string" where
  "mergePayload E pj rawStored patch =
     (let base = (case go_json E rawStored of
            Some (JObj flds) \<Rightarrow> Some (if isLegacyPayloadShape flds
              then (case pj rawStored of Some p \<Rightarrow> payloadProtoToDict E (Some p) | None \<Rightarrow> flds) else flds)
          | Some JNull \<Rightarrow> None
          | _ \<Rightarrow> Some [])
      in rb (case go_json E patch of Some (JObj p) \<Rightarrow> Inr p | Some JNull \<Rightarrow> Inr [] | _ \<Rightarrow> Inl (DbErr ''payload patch'')) (\<lambda>patchFields.
         case base of
           Some b \<Rightarrow> Inr (go_marshal E (JObj (obj_merge b patchFields)))
         | None \<Rightarrow> if patchFields = [] then Inr (go_marshal E JNull) else Inl (DbErr ''panic: assignment to entry in nil map'')))"

datatype cron_set =
    KSetNext nat
  | KSetSchedule nat
  | KSetTimezone nat
  | KSetEnabled nat
  | KSetEndTime nat
  | KSetPayload nat
  | KSetMetadata nat
  | KSetOnRunCompleted nat

definition add_set :: "(nat \<Rightarrow> cron_set) \<Rightarrow> cron_arg option \<Rightarrow> cron_set list \<times> cron_arg list \<times> nat \<Rightarrow> cron_set list \<times> cron_arg list \<times> nat" where
  "add_set mk a = (\<lambda>(sets, args, idx). case a of None \<Rightarrow> (sets, args, idx) | Some v \<Rightarrow> (sets @ [mk idx], args @ [v], idx + 1))"

definition cron_sets :: "nat \<Rightarrow> int option \<Rightarrow> PatchCronInput \<Rightarrow> string option \<Rightarrow> cron_set list \<times> cron_arg list" where
  "cron_sets idx0 nextRun pin merged =
     (let st = ([], [], idx0);
          st = add_set KSetNext (map_option KTime nextRun) st;
          st = add_set KSetSchedule (text_arg (kp_Schedule pin)) st;
          st = add_set KSetTimezone (text_arg (kp_Timezone pin)) st;
          st = add_set KSetEnabled (map_option KBool (kp_Enabled pin)) st;
          st = add_set KSetEndTime (map_option KTime (kp_EndTime pin)) st;
          st = add_set KSetPayload (map_option KText merged) st;
          st = add_set KSetMetadata (text_arg (kp_Metadata pin)) st;
          (sets, args, idx) = add_set KSetOnRunCompleted (map_option KText (kp_OnRunCompleted pin)) st
      in (sets, args))"

fun apply_cron_set :: "env \<Rightarrow> cron_arg list \<Rightarrow> cron_set \<Rightarrow> string + (cron_row \<Rightarrow> cron_row)" where
  "apply_cron_set E args (KSetNext i) = rb (bind_time args i) (\<lambda>n. Inr (\<lambda>k. k\<lparr>k_next_run_date := Some n\<rparr>))"
| "apply_cron_set E args (KSetSchedule i) = rb (bind_text args i) (\<lambda>s. Inr (\<lambda>k. k\<lparr>k_schedule := s\<rparr>))"
| "apply_cron_set E args (KSetTimezone i) = rb (bind_text args i) (\<lambda>s. Inr (\<lambda>k. k\<lparr>k_timezone := s\<rparr>))"
| "apply_cron_set E args (KSetEnabled i) = rb (bind_bool args i) (\<lambda>b. Inr (\<lambda>k. k\<lparr>k_enabled := b\<rparr>))"
| "apply_cron_set E args (KSetEndTime i) = rb (bind_time args i) (\<lambda>n. Inr (\<lambda>k. k\<lparr>k_end_time := Some n\<rparr>))"
| "apply_cron_set E args (KSetPayload i) =
     rb (bind_text args i) (\<lambda>s. rb (cast_jsonb E s) (\<lambda>j. Inr (\<lambda>k. k\<lparr>k_payload := j\<rparr>)))"
| "apply_cron_set E args (KSetMetadata i) =
     rb (bind_text args i) (\<lambda>s. rb (cast_jsonb E s) (\<lambda>j. Inr (\<lambda>k. k\<lparr>k_metadata := jconcat (k_metadata k) j\<rparr>)))"
| "apply_cron_set E args (KSetOnRunCompleted i) = rb (bind_text args i) (\<lambda>s. Inr (\<lambda>k. k\<lparr>k_on_run_completed := Some s\<rparr>))"

definition cron_update_stmt :: "env \<Rightarrow> string \<Rightarrow> frag \<Rightarrow> string list \<Rightarrow> cron_set list \<times> cron_arg list \<Rightarrow> int \<Rightarrow> db \<Rightarrow>
    string + Cron list \<times> db" where
  "cron_update_stmt E cronID authSQL authArgs sa t d =
     (let args = [KText cronID] @ map KText authArgs @ snd sa in
     rb (cron_where E cronID authSQL (map karg_text args)) (\<lambda>P.
     rb (res_map (apply_cron_set E args) (fst sa)) (\<lambda>fs.
     let f = (\<lambda>k. fold (\<lambda>g. g) fs (k\<lparr>k_updated_at := t\<rparr>))
     in Inr (map (\<lambda>k. cronCols E (f k)) (filter P (crons d)), upd_crons P f d))))"

definition cron_Patch :: "cronenv \<Rightarrow> env \<Rightarrow> (string \<Rightarrow> CronPayload option) \<Rightarrow> int \<Rightarrow> string \<Rightarrow> PatchCronInput \<Rightarrow> auth_filter list \<Rightarrow> Cron op" where
  "cron_Patch C E pj clock cronID pin filters =
     bnd (lift (ApplyToQuery filters ''metadata'' 2)) (\<lambda>(authSQL, authArgs).
     bnd (cron_patch_next C E clock cronID pin) (\<lambda>nextRun.
     let update = (\<lambda>merged. bnd (stmt (cron_update_stmt E cronID authSQL authArgs (cron_sets (2 + length authArgs) nextRun pin merged)))
                              (first_row ErrNotFound))
     in if kp_Payload pin = [] then update None
        else in_tx (
          bnd (query (\<lambda>_ d. rb (cron_where E cronID authSQL (cronID # authArgs)) (\<lambda>P.
                 Inr (map (\<lambda>k. pg_text E (k_payload k)) (filter P (crons d)))))) (\<lambda>rows.
          bnd (first_row ErrNotFound rows) (\<lambda>raw.
          bnd (lift (mergePayload E pj raw (kp_Payload pin))) (\<lambda>merged.
          bnd (update (Some merged)) (\<lambda>c. ret (Commit c))))))))"

section \<open>Delete and Next\<close>

definition cron_Delete :: "env \<Rightarrow> string \<Rightarrow> auth_filter list \<Rightarrow> unit op" where
  "cron_Delete E cronID filters =
     bnd (lift (ApplyToQuery filters ''metadata'' 2)) (\<lambda>(authSQL, args).
     bnd (stmt (\<lambda>_ d. rb (cron_where E cronID authSQL (cronID # args)) (\<lambda>P.
            Inr (length (filter P (crons d)), d\<lparr>crons := filter (\<lambda>k. \<not> P k) (crons d)\<rparr>)))) (\<lambda>affected.
     if affected = 0 then throw ErrNotFound else ret ()))"

definition cron_due :: "int \<Rightarrow> cron_row \<Rightarrow> bool" where
  "cron_due t k = (k_enabled k \<and> (case k_next_run_date k of None \<Rightarrow> False | Some n \<Rightarrow> n \<le> t) \<and>
     (case k_end_time k of None \<Rightarrow> True | Some e \<Rightarrow> t \<le> e))"

definition by_next_run :: "cron_row \<Rightarrow> int option \<times> string" where
  "by_next_run k = (k_next_run_date k, k_cron_id k)"

definition set_next_run :: "env \<Rightarrow> string \<Rightarrow> int \<Rightarrow> unit op" where
  "set_next_run E cronID next_run =
     stmt (\<lambda>_ d. rb (cast_uuid E cronID) (\<lambda>cid.
       Inr ((), upd_crons (\<lambda>k. k_cron_id k = cid) (\<lambda>k. k\<lparr>k_next_run_date := Some next_run\<rparr>) d)))"

text \<open>Rows whose schedule cannot be parsed are dropped and not advanced.\<close>

fun advance_all :: "cronenv \<Rightarrow> env \<Rightarrow> (Cron \<times> int) list \<Rightarrow> (Cron \<times> int) list op" where
  "advance_all C E [] = ret []"
| "advance_all C E ((c, dbNow) # rest) =
     (case computeNextRunFrom C (CronSchedule c) (CronTimezone c) dbNow of
        Inl _ \<Rightarrow> advance_all C E rest
      | Inr next_run \<Rightarrow> bnd (set_next_run E (CronID c) next_run) (\<lambda>_.
          bnd (advance_all C E rest) (\<lambda>claimed. ret ((c, dbNow) # claimed))))"

definition cron_Next :: "cronenv \<Rightarrow> env \<Rightarrow> (Cron \<times> int) list op" where
  "cron_Next C E = in_tx (
     bnd (query (\<lambda>t d. Inr (map (\<lambda>k. (cronCols E k, t)) (sort_key by_next_run (filter (cron_due t) (crons d)))))) (\<lambda>due.
     bnd (advance_all C E due) (\<lambda>claimed. ret (Commit claimed))))"

definition cron_SetNextRunDate :: "env \<Rightarrow> string \<Rightarrow> int \<Rightarrow> unit op" where
  "cron_SetNextRunDate E cronID next_run = set_next_run E cronID next_run"

end
