(* ===== verification/Assistants_Store.thy ===== *)
theory Assistants_Store
  imports Crons_Store
begin

text \<open>
  The assistant store (\<^verbatim>\<open>internal/assistants/store.go\<close>): the \<^verbatim>\<open>assistant\<close> table and its history, \<^verbatim>\<open>assistant_versions\<close>. Arguments of a
  statement are a list read by position; their Go types are kept where the code looks at them (\<open>findArgIdx\<close>).
\<close>

section \<open>Reads\<close>

definition asst_validSortColumns :: "string \<Rightarrow> string option" where
  "asst_validSortColumns s = map_of [(''assistant_id'', ''assistant_id''), (''graph_id'', ''graph_id''), (''name'', [CHR 0x22] @ ''name'' @ [CHR 0x22]),
     (''created_at'', ''created_at''), (''updated_at'', ''updated_at'')] s"

definition asst_sortClause :: "string \<Rightarrow> string \<Rightarrow> string" where
  "asst_sortClause sortBy sortOrder =
     (case asst_validSortColumns sortBy of
        None \<Rightarrow> ''created_at DESC''
      | Some col \<Rightarrow> col @ '' '' @ (if sortOrder = ''asc'' then ''ASC'' else ''DESC''))"

text \<open>NULL is above every name: last in ascending order, first in descending.\<close>

definition by_name :: "assistant_row \<Rightarrow> bool \<times> string option" where
  "by_name a = (a_name a = None, a_name a)"

definition asst_order_by :: "string \<Rightarrow> (assistant_row list \<Rightarrow> assistant_row list) option" where
  "asst_order_by clause = map_of
     [(''assistant_id ASC'', sort_key a_assistant_id), (''assistant_id DESC'', sort_desc a_assistant_id),
      (''graph_id ASC'', sort_key a_graph_id), (''graph_id DESC'', sort_desc a_graph_id),
      ([CHR 0x22] @ ''name'' @ [CHR 0x22] @ '' ASC'', sort_key by_name), ([CHR 0x22] @ ''name'' @ [CHR 0x22] @ '' DESC'', sort_desc by_name),
      (''created_at ASC'', sort_key a_created_at), (''created_at DESC'', sort_desc a_created_at),
      (''updated_at ASC'', sort_key a_updated_at), (''updated_at DESC'', sort_desc a_updated_at)] clause"

record Assistant =
  AsstID :: string
  AsstGraphID :: string
  AsstVersion :: int
  AsstCreatedAt :: int
  AsstUpdatedAt :: int
  AsstConfig :: string
  AsstContextJSON :: string
  AsstMetadata :: string
  AsstName :: string
  AsstDescription :: "string option"

record AssistantVersion =
  AvAssistantID :: string
  AvGraphID :: string
  AvName :: string
  AvVersion :: int
  AvCreatedAt :: int
  AvConfig :: string
  AvContextJSON :: string
  AvMetadata :: string
  AvDescription :: "string option"

definition assistantCols :: "env \<Rightarrow> assistant_row \<Rightarrow> Assistant" where
  "assistantCols E a = \<lparr>AsstID = a_assistant_id a, AsstGraphID = a_graph_id a, AsstVersion = a_version a, AsstCreatedAt = a_created_at a,
     AsstUpdatedAt = a_updated_at a, AsstConfig = pg_text E (a_config a), AsstContextJSON = pg_text E (a_context a),
     AsstMetadata = pg_text E (a_metadata a), AsstName = str_of (a_name a), AsstDescription = a_description a\<rparr>"

definition assistantVersionCols :: "env \<Rightarrow> version_row \<Rightarrow> AssistantVersion" where
  "assistantVersionCols E v = \<lparr>AvAssistantID = v_assistant_id v, AvGraphID = v_graph_id v, AvName = str_of (v_name v), AvVersion = v_version v,
     AvCreatedAt = v_created_at v, AvConfig = pg_text E (v_config v), AvContextJSON = pg_text E (v_context v),
     AvMetadata = pg_text E (v_metadata v), AvDescription = v_description v\<rparr>"

definition asst_where :: "env \<Rightarrow> string \<Rightarrow> frag \<Rightarrow> string list \<Rightarrow> string + (assistant_row \<Rightarrow> bool)" where
  "asst_where E assistantID authSQL args =
     rb (cast_uuid E assistantID) (\<lambda>i. rb (auth_where E args authSQL) (\<lambda>ok.
     Inr (\<lambda>a. a_assistant_id a = i \<and> ok (\<lambda>_. a_metadata a))))"

definition asst_Get :: "env \<Rightarrow> string \<Rightarrow> auth_filter list \<Rightarrow> Assistant op" where
  "asst_Get E assistantID filters =
     bnd (lift (ApplyToQuery filters ''metadata'' 2)) (\<lambda>(authSQL, args).
     bnd (query (\<lambda>_ d. rb (asst_where E assistantID authSQL (assistantID # args)) (\<lambda>P.
            Inr (map (assistantCols E) (filter P (assistants d)))))) (first_row ErrNotFound))"

record AsstSearchInput =
  as_GraphID :: string
  as_Name :: string
  as_MetadataFilter :: string
  as_Limit :: nat
  as_Offset :: nat
  as_SortBy :: string
  as_SortOrder :: string

datatype asst_cond =
    ASTrue
  | ASGraph nat
  | ASName nat
  | ASMeta nat
  | ASAuth frag

definition asst_whereArgs :: "AsstSearchInput \<Rightarrow> auth_filter list \<Rightarrow> err + (asst_cond list \<times> string list \<times> nat)" where
  "asst_whereArgs si filters =
     (let args = []; wheres = [ASTrue]; idx = (1::nat);
          (wheres, args, idx) = (if as_GraphID si \<noteq> []
             then (wheres @ [ASGraph idx], args @ [as_GraphID si], idx + 1) else (wheres, args, idx));
          (wheres, args, idx) = (if as_Name si \<noteq> []
             then (wheres @ [ASName idx], args @ [as_Name si], idx + 1) else (wheres, args, idx));
          (wheres, args, idx) = (if as_MetadataFilter si \<noteq> []
             then (wheres @ [ASMeta idx], args @ [as_MetadataFilter si], idx + 1) else (wheres, args, idx))
      in rb (ApplyToQuery filters ''metadata'' idx) (\<lambda>(authSQL, authArgs).
           if authSQL \<noteq> FragNone
           then Inr (wheres @ [ASAuth authSQL], args @ authArgs, idx + length authArgs)
           else Inr (wheres, args, idx)))"

fun asst_cond_where :: "env \<Rightarrow> string list \<Rightarrow> asst_cond \<Rightarrow> string + (assistant_row \<Rightarrow> bool)" where
  "asst_cond_where E args ASTrue = Inr (\<lambda>a. True)"
| "asst_cond_where E args (ASGraph i) = Inr (\<lambda>a. a_graph_id a = args ! (i - 1))"
| "asst_cond_where E args (ASName i) = Inr (\<lambda>a. a_name a = Some (args ! (i - 1)))"
| "asst_cond_where E args (ASMeta i) = rb (cast_jsonb E (args ! (i - 1))) (\<lambda>j. Inr (\<lambda>a. jcontains (a_metadata a) j))"
| "asst_cond_where E args (ASAuth fr) = rb (auth_where E args fr) (\<lambda>ok. Inr (\<lambda>a. ok (\<lambda>_. a_metadata a)))"

definition asst_from_where :: "env \<Rightarrow> asst_cond list \<Rightarrow> string list \<Rightarrow> db \<Rightarrow> string + assistant_row list" where
  "asst_from_where E conds args d =
     rb (res_map (asst_cond_where E args) conds) (\<lambda>ps. Inr (filter (\<lambda>a. list_all (\<lambda>p. p a) ps) (assistants d)))"

definition asst_Search :: "env \<Rightarrow> AsstSearchInput \<Rightarrow> auth_filter list \<Rightarrow> Assistant list op" where
  "asst_Search E si filters =
     bnd (lift (asst_whereArgs si filters)) (\<lambda>(conds, args, idx).
     let limit = (if as_Limit si = 0 then 100 else as_Limit si)
     in query (\<lambda>_ d.
          rb (of_opt ''syntax error'' (asst_order_by (asst_sortClause (as_SortBy si) (as_SortOrder si)))) (\<lambda>ord.
          rb (int8_arg limit) (\<lambda>l. rb (int8_arg (as_Offset si)) (\<lambda>off.
          rb (asst_from_where E conds args d) (\<lambda>rows.
          Inr (map (assistantCols E) (take l (drop off (ord rows))))))))))"

definition asst_Count :: "env \<Rightarrow> AsstSearchInput \<Rightarrow> auth_filter list \<Rightarrow> nat op" where
  "asst_Count E si filters =
     bnd (lift (asst_whereArgs si filters)) (\<lambda>(conds, args, idx).
     query (\<lambda>_ d. rb (asst_from_where E conds args d) (\<lambda>rows. Inr (length rows))))"

text \<open>\<^verbatim>\<open>GetVersions\<close> joins the assistant only for the filters.\<close>

definition asst_GetVersions :: "env \<Rightarrow> string \<Rightarrow> nat \<Rightarrow> nat \<Rightarrow> string \<Rightarrow> auth_filter list \<Rightarrow> AssistantVersion list op" where
  "asst_GetVersions E assistantID limit0 offset metadataFilter filters =
     (let limit = (if limit0 = 0 then 100 else limit0);
          (meta, args, idx) = (if metadataFilter \<noteq> [] then (Some (2::nat), [assistantID, metadataFilter], 3) else (None, [assistantID], 2))
      in bnd (lift (ApplyToQuery filters ''assistant.metadata'' idx)) (\<lambda>(authSQL, authArgs).
         let args = (if authSQL \<noteq> FragNone then args @ authArgs else args) in
         query (\<lambda>_ d. rb (cast_uuid E assistantID) (\<lambda>i.
           rb (case meta of None \<Rightarrow> Inr (\<lambda>v. True) | Some p \<Rightarrow> rb (cast_jsonb E (args ! (p - 1))) (\<lambda>j. Inr (\<lambda>v. jcontains (v_metadata v) j))) (\<lambda>okM.
           rb (auth_where E args authSQL) (\<lambda>ok. rb (int8_arg limit) (\<lambda>l. rb (int8_arg offset) (\<lambda>off.
           let rows = filter (\<lambda>v. v_assistant_id v = i \<and> okM v) (versions d);
               joined = (if authSQL = FragNone then rows
                         else concat (map (\<lambda>v. map (\<lambda>a. v) (filter (\<lambda>a. a_assistant_id a = v_assistant_id v \<and> ok (\<lambda>_. a_metadata a)) (assistants d))) rows))
           in Inr (map (assistantVersionCols E) (take l (drop off (sort_desc v_version joined))))))))))))"

section \<open>Create\<close>

record AsstCreateInput =
  ac_AssistantID :: string
  ac_GraphID :: string
  ac_Name :: string
  ac_Description :: "string option"
  ac_Config :: "string option"
  ac_ContextJSON :: "string option"
  ac_Metadata :: "string option"
  ac_IfExists :: string
  ac_Filters :: "auth_filter list"

text \<open>The arguments; \<open>None\<close> is a NULL.\<close>

definition asst_create_args :: "AsstCreateInput \<Rightarrow> string option list" where
  "asst_create_args ci =
     (if ac_AssistantID ci \<noteq> [] then [Some (ac_AssistantID ci)] else []) @
     [Some (ac_GraphID ci), Some (ac_Name ci), ac_Description ci,
      Some (case ac_Config ci of None \<Rightarrow> ''{}'' | Some c \<Rightarrow> c), Some (case ac_ContextJSON ci of None \<Rightarrow> ''{}'' | Some c \<Rightarrow> c),
      Some (case ac_Metadata ci of None \<Rightarrow> ''{}'' | Some m \<Rightarrow> m)]"

definition asst_new_row :: "env \<Rightarrow> uuid \<Rightarrow> AsstCreateInput \<Rightarrow> string option list \<Rightarrow> int \<Rightarrow> string + assistant_row" where
  "asst_new_row E gen ci args t =
     (let base = (if ac_AssistantID ci \<noteq> [] then 2 else 1 :: nat); argn = (\<lambda>i. str_of (args ! (i - 1))) in
     rb (if ac_AssistantID ci \<noteq> [] then cast_uuid E (argn 1) else Inr gen) (\<lambda>i.
     rb (cast_jsonb E (argn (base + 3))) (\<lambda>cfg. rb (cast_jsonb E (argn (base + 4))) (\<lambda>ctx. rb (cast_jsonb E (argn (base + 5))) (\<lambda>meta.
     Inr \<lparr>a_assistant_id = i, a_graph_id = argn base, a_version = 1, a_created_at = t, a_updated_at = t, a_config = cfg, a_context = ctx,
          a_metadata = meta, a_name = args ! (base + 1 - 1), a_description = args ! (base + 2 - 1)\<rparr>)))))"

definition version_of :: "assistant_row \<Rightarrow> int \<Rightarrow> int \<Rightarrow> version_row" where
  "version_of a n t = \<lparr>v_assistant_id = a_assistant_id a, v_version = n, v_graph_id = a_graph_id a, v_name = a_name a, v_created_at = t,
     v_config = a_config a, v_context = a_context a, v_metadata = a_metadata a, v_description = a_description a\<rparr>"

text \<open>
  One statement: the assistant unless its id is in use, and its version 1; with \<^verbatim>\<open>do_nothing\<close> and an id, else the row that was there, if the
  filters accept it.
\<close>

definition asst_create_stmt :: "env \<Rightarrow> uuid \<Rightarrow> AsstCreateInput \<Rightarrow> string option list \<Rightarrow> frag option \<Rightarrow> int \<Rightarrow> db \<Rightarrow>
    string + Assistant list \<times> db" where
  "asst_create_stmt E gen ci args unionSQL t d =
     rb (asst_new_row E gen ci args t) (\<lambda>row.
     rb (case unionSQL of None \<Rightarrow> Inr (\<lambda>a. False) | Some fr \<Rightarrow> asst_where E (str_of (args ! 0)) fr (map str_of args)) (\<lambda>P.
     if list_ex (\<lambda>a. a_assistant_id a = a_assistant_id row) (assistants d)
     then Inr (map (assistantCols E) (take 1 (filter P (assistants d))), d)
     else Inr ([assistantCols E row], d\<lparr>assistants := assistants d @ [row],
            versions := (if list_ex (\<lambda>v. v_assistant_id v = a_assistant_id row \<and> v_version v = 1) (versions d) then versions d
                         else versions d @ [version_of row 1 t])\<rparr>)))"

definition asst_Create :: "env \<Rightarrow> uuid \<Rightarrow> AsstCreateInput \<Rightarrow> Assistant op" where
  "asst_Create E gen ci =
     (let args = asst_create_args ci in
     bnd (if ac_IfExists ci = ''do_nothing'' \<and> ac_AssistantID ci \<noteq> []
          then bnd (lift (ApplyToQuery (ac_Filters ci) ''metadata'' (length args + 1))) (\<lambda>(authSQL, authArgs).
               stmt (asst_create_stmt E gen ci (args @ map Some authArgs) (Some authSQL)))
          else stmt (asst_create_stmt E gen ci args None)) (first_row ErrAlreadyExists))"

section \<open>Patch\<close>

record AsstPatchInput =
  ap_Name :: "string option"
  ap_Description :: "string option"
  ap_GraphID :: string
  ap_Config :: string
  ap_ContextJSON :: string
  ap_Metadata :: string

text \<open>An argument with its Go type, \<^verbatim>\<open>string\<close> or \<^verbatim>\<open>[]byte\<close>.\<close>

datatype asst_arg = GoStr string | GoBytes string

fun go_text :: "asst_arg \<Rightarrow> string" where
  "go_text (GoStr s) = s"
| "go_text (GoBytes s) = s"

text \<open>\<^verbatim>\<open>findArgIdx\<close> scans from the end; \<open>n\<close> is the number of arguments still to look at.\<close>

fun find_from :: "asst_arg list \<Rightarrow> asst_arg \<Rightarrow> nat \<Rightarrow> nat" where
  "find_from args val 0 = length args"
| "find_from args val (Suc i) = (if args ! i = val then i + 1 else find_from args val i)"

definition findArgIdx :: "asst_arg list \<Rightarrow> asst_arg \<Rightarrow> nat" where
  "findArgIdx args val = find_from args val (length args)"

text \<open>An expression of the version row: the column as it is, or the argument at a place; metadata are merged.\<close>

definition add_expr :: "asst_arg option \<Rightarrow> asst_arg list \<Rightarrow> asst_arg list \<times> nat option" where
  "add_expr a args = (case a of None \<Rightarrow> (args, None) | Some v \<Rightarrow> (args @ [v], Some (length args + 1)))"

definition some_str :: "string \<Rightarrow> string option" where
  "some_str s = (if s = [] then None else Some s)"

record asst_exprs =
  xp_graph :: "nat option"
  xp_config :: "nat option"
  xp_context :: "nat option"
  xp_meta :: "nat option"
  xp_desc :: "nat option"
  xp_name :: "nat option"

definition asst_patch_args :: "string \<Rightarrow> string list \<Rightarrow> AsstPatchInput \<Rightarrow> asst_arg list \<times> asst_exprs" where
  "asst_patch_args assistantID authArgs pin =
     (let args = GoStr assistantID # map GoStr authArgs;
          (args, g) = add_expr (map_option GoStr (some_str (ap_GraphID pin))) args;
          (args, c) = add_expr (map_option GoBytes (some_str (ap_Config pin))) args;
          (args, x) = add_expr (map_option GoBytes (some_str (ap_ContextJSON pin))) args;
          (args, m) = add_expr (map_option GoBytes (some_str (ap_Metadata pin))) args;
          (args, de) = add_expr (map_option GoStr (ap_Description pin)) args;
          (args, n) = add_expr (map_option GoStr (ap_Name pin)) args
      in (args, \<lparr>xp_graph = g, xp_config = c, xp_context = x, xp_meta = m, xp_desc = de, xp_name = n\<rparr>))"

text \<open>The \<^verbatim>\<open>SET\<close> list of the assistant row finds its places by value; the one of metadata is remembered.\<close>

definition asst_set_exprs :: "asst_arg list \<Rightarrow> AsstPatchInput \<Rightarrow> asst_exprs \<Rightarrow> asst_exprs" where
  "asst_set_exprs args pin xs =
     \<lparr>xp_graph = map_option (\<lambda>s. findArgIdx args (GoStr s)) (some_str (ap_GraphID pin)),
      xp_config = map_option (\<lambda>s. findArgIdx args (GoBytes s)) (some_str (ap_Config pin)),
      xp_context = map_option (\<lambda>s. findArgIdx args (GoBytes s)) (some_str (ap_ContextJSON pin)),
      xp_meta = xp_meta xs,
      xp_desc = map_option (\<lambda>s. findArgIdx args (GoStr s)) (ap_Description pin),
      xp_name = map_option (\<lambda>s. findArgIdx args (GoStr s)) (ap_Name pin)\<rparr>"

definition eval_exprs :: "env \<Rightarrow> string list \<Rightarrow> asst_exprs \<Rightarrow> string + (assistant_row \<Rightarrow> assistant_row)" where
  "eval_exprs E args xs =
     (let json = (\<lambda>p. case p of None \<Rightarrow> Inr None | Some i \<Rightarrow> rb (cast_jsonb E (args ! (i - 1))) (\<lambda>j. Inr (Some j)));
          text = (\<lambda>p old. case p of None \<Rightarrow> old | Some i \<Rightarrow> Some (args ! (i - 1))) in
     rb (json (xp_config xs)) (\<lambda>cfg. rb (json (xp_context xs)) (\<lambda>ctx. rb (json (xp_meta xs)) (\<lambda>meta.
     Inr (\<lambda>a. a\<lparr>a_graph_id := (case xp_graph xs of None \<Rightarrow> a_graph_id a | Some i \<Rightarrow> args ! (i - 1)),
              a_config := (case cfg of None \<Rightarrow> a_config a | Some j \<Rightarrow> j), a_context := (case ctx of None \<Rightarrow> a_context a | Some j \<Rightarrow> j),
              a_metadata := (case meta of None \<Rightarrow> a_metadata a | Some j \<Rightarrow> jconcat (a_metadata a) j),
              a_description := text (xp_desc xs) (a_description a), a_name := text (xp_name xs) (a_name a)\<rparr>)))))"

definition int4 :: "int \<Rightarrow> string + int" where
  "int4 n = (if - (2 ^ 31) \<le> n \<and> n < 2 ^ 31 then Inr n else Inl ''integer out of range'')"

text \<open>\<^verbatim>\<open>COALESCE((SELECT MAX("version") ...) + 1, 1)\<close>, in the column's four bytes.\<close>

definition next_version :: "uuid \<Rightarrow> db \<Rightarrow> string + int" where
  "next_version i d = (case map v_version (filter (\<lambda>v. v_assistant_id v = i) (versions d)) of
     [] \<Rightarrow> Inr 1 | v # vs \<Rightarrow> int4 (fold max vs v + 1))"

definition asst_patch_stmt :: "env \<Rightarrow> string \<Rightarrow> frag \<Rightarrow> asst_arg list \<Rightarrow> asst_exprs \<Rightarrow> asst_exprs \<Rightarrow> int \<Rightarrow> db \<Rightarrow>
    string + Assistant list \<times> db" where
  "asst_patch_stmt E assistantID authSQL args vers sets t d =
     (let txt = map go_text args in
     rb (cast_uuid E assistantID) (\<lambda>i. rb (asst_where E assistantID authSQL txt) (\<lambda>P.
     rb (eval_exprs E txt vers) (\<lambda>fv. rb (eval_exprs E txt sets) (\<lambda>fa.
     case filter P (assistants d) of
       [] \<Rightarrow> Inr ([], d)
     | cur # _ \<Rightarrow>
         rb (next_version i d) (\<lambda>n.
         let upd = (\<lambda>a. (fa a)\<lparr>a_version := n, a_updated_at := t\<rparr>)
         in Inr (map (\<lambda>a. assistantCols E (upd a)) (filter (\<lambda>a. a_assistant_id a = i) (assistants d)),
                 d\<lparr>assistants := map (\<lambda>a. if a_assistant_id a = i then upd a else a) (assistants d),
                   versions := versions d @ [version_of (fv cur) n t]\<rparr>)))))))"

definition asst_Patch :: "env \<Rightarrow> string \<Rightarrow> AsstPatchInput \<Rightarrow> auth_filter list \<Rightarrow> Assistant op" where
  "asst_Patch E assistantID pin filters =
     bnd (lift (ApplyToQuery filters ''metadata'' 2)) (\<lambda>(authSQL, authArgs).
     let (args, xs) = asst_patch_args assistantID authArgs pin in
     bnd (stmt (asst_patch_stmt E assistantID authSQL args xs (asst_set_exprs args pin xs))) (first_row ErrNotFound))"

section \<open>Delete and SetLatest\<close>

text \<open>\<^verbatim>\<open>ON DELETE CASCADE\<close>: the runs of the assistant with their checkpoints, its versions and its crons.\<close>

definition del_assistants :: "(assistant_row \<Rightarrow> bool) \<Rightarrow> db \<Rightarrow> db" where
  "del_assistants P d =
     (let gone = map a_assistant_id (filter P (assistants d));
          d1 = del_runs (\<lambda>r. r_assistant_id r \<in> set gone) d
      in d1\<lparr>assistants := filter (\<lambda>a. \<not> P a) (assistants d), versions := filter (\<lambda>v. v_assistant_id v \<notin> set gone) (versions d),
            crons := filter (\<lambda>k. k_assistant_id k \<notin> set gone) (crons d)\<rparr>)"

definition asst_Delete :: "env \<Rightarrow> string \<Rightarrow> bool \<Rightarrow> auth_filter list \<Rightarrow> string list op" where
  "asst_Delete E assistantID deleteThreads filters =
     bnd (lift (ApplyToQuery filters ''metadata'' 2)) (\<lambda>(authSQL, args).
     in_tx (
       bnd (stmt (\<lambda>_ d. rb (asst_where E assistantID authSQL (assistantID # args)) (\<lambda>P.
              Inr (map a_assistant_id (filter P (assistants d)), del_assistants P d)))) (\<lambda>ids.
       bnd (if deleteThreads \<and> ids \<noteq> []
            then stmt (\<lambda>_ d. rb (auth_where E (assistantID # args) authSQL) (\<lambda>ok.
                   Inr ((), del_threads (\<lambda>t. jget_text (pg_text E) (t_metadata t) ''assistant_id'' = Some assistantID \<and> ok (\<lambda>_. t_metadata t)) d)))
            else ret ()) (\<lambda>_.
       ret (Commit ids)))))"

text \<open>
  The filters of \<^verbatim>\<open>SetLatest\<close> are numbered from 2, but the second argument is the version. The driver refuses a statement whose number of
  parameters is not the number of arguments; a parameter used as text is the text of the number.
\<close>

definition asst_latest_stmt :: "env \<Rightarrow> string \<Rightarrow> int \<Rightarrow> frag \<Rightarrow> string list \<Rightarrow> db \<Rightarrow> string + Assistant list \<times> db" where
  "asst_latest_stmt E assistantID version authSQL authArgs d =
     (let finalArgs = [assistantID, int_str version] @ authArgs; params = fold max (placeholders authSQL) 2 in
     if length finalArgs \<noteq> params then Inl ''wrong number of arguments''
     else rb (cast_uuid E assistantID) (\<lambda>i. rb (int4 version) (\<lambda>n. rb (auth_where E finalArgs authSQL) (\<lambda>ok.
       case filter (\<lambda>v. v_assistant_id v = i \<and> v_version v = n) (versions d) of
         [] \<Rightarrow> Inr ([], d)
       | v # _ \<Rightarrow>
           let P = (\<lambda>a. a_assistant_id a = i \<and> ok (\<lambda>_. a_metadata a));
               upd = (\<lambda>a. a\<lparr>a_config := v_config v, a_metadata := v_metadata v, a_version := v_version v\<rparr>)
           in Inr (map (\<lambda>a. assistantCols E (upd a)) (filter P (assistants d)),
                   d\<lparr>assistants := map (\<lambda>a. if P a then upd a else a) (assistants d)\<rparr>)))))"

definition asst_SetLatest :: "env \<Rightarrow> string \<Rightarrow> int \<Rightarrow> auth_filter list \<Rightarrow> Assistant op" where
  "asst_SetLatest E assistantID version filters =
     bnd (lift (ApplyToQuery filters ''a.metadata'' 2)) (\<lambda>(authSQL, authArgs).
     bnd (stmt (\<lambda>_. asst_latest_stmt E assistantID version authSQL authArgs)) (first_row ErrNotFound))"

end
