(* ===== verification/Threads_Write.thy ===== *)
theory Threads_Write
  imports Threads_Correct
begin

text \<open>
  The writes of the thread store: what \<^verbatim>\<open>Create\<close>, \<^verbatim>\<open>Patch\<close> and \<^verbatim>\<open>Delete\<close> do to the one thread they name, how the status of a
  thread follows its runs, and which threads the expiry sweeper removes. Results about statuses and
  the sweeper hold for every schedule of database faults.
\<close>

section \<open>Create\<close>

lemma first_row_filter: "first_row e (map f (filter P xs)) w =
  ((case find P xs of Some x \<Rightarrow> Inr (f x) | None \<Rightarrow> Inl e), w)"
  by (induction xs) (auto simp: first_row_def ret_def throw_def)

definition returns_existing :: "CreateThreadInput \<Rightarrow> bool" where
  "returns_existing ci \<longleftrightarrow> ct_IfExists ci = ''do_nothing'' \<and> ct_ThreadID ci \<noteq> []"

lemma create_row_id:
  "create_thread_row E gen ci t = Inr th \<Longrightarrow> ct_ThreadID ci \<noteq> [] \<Longrightarrow> pg_uuid E (ct_ThreadID ci) = Some (t_thread_id th)"
  by (auto simp: create_thread_row_def res_iff new_thread_def)

lemma create_where:
  assumes "auth_ok E fs" and "create_thread_row E gen ci t = Inr th" and "ct_ThreadID ci \<noteq> []"
  obtains fr args where "ApplyToQuery fs ''metadata'' (length (create_thread_args ci) + 1) = Inr (fr, args)"
    and "thread_where E (ct_ThreadID ci) fr (create_thread_args ci @ args) = Inr (thread_sel E (t_thread_id th) fs)"
proof -
  obtain fr args ok where q: "ApplyToQuery fs ''metadata'' (Suc (length (create_thread_args ci))) = Inr (fr, args)"
    and ok: "auth_where E (create_thread_args ci @ args) fr = Inr ok" "\<And>cv. ok cv = visible E fs (cv ''metadata'')"
    using auth_obtain[OF assms(1)] by blast
  from ok create_row_id[OF assms(2,3)]
  have "thread_where E (ct_ThreadID ci) fr (create_thread_args ci @ args) = Inr (thread_sel E (t_thread_id th) fs)"
    by (simp add: thread_where_def cast_uuid_def thread_sel_def[abs_def])
  with q that show thesis by simp
qed


definition sample_thread_create :: CreateThreadInput where
  "sample_thread_create = \<lparr>ct_ThreadID = ''t1'', ct_Metadata = None, ct_Config = None, ct_TTLSeconds = Some 60,
     ct_IfExists = ''do_nothing'', ct_Filters = []\<rparr>"


section \<open>Patch and delete\<close>

definition patched :: "env \<Rightarrow> int \<Rightarrow> PatchThreadInput \<Rightarrow> thread_row \<Rightarrow> thread_row" where
  "patched E t pin th = th\<lparr>
     t_metadata := (if pt_Metadata pin = [] then t_metadata th
                    else jconcat (t_metadata th) (the (pg_jsonb E (pt_Metadata pin)))),
     t_config := (if pt_Config pin = [] then t_config th else the (pg_jsonb E (pt_Config pin))),
     t_expires_at := (case pt_TTLSeconds pin of None \<Rightarrow> t_expires_at th | Some s \<Rightarrow> Some (projr (expiry t s)))\<rparr>"

definition patch_binds :: "env \<Rightarrow> int \<Rightarrow> PatchThreadInput \<Rightarrow> bool" where
  "patch_binds E t pin =
     ((pt_Metadata pin = [] \<or> pg_jsonb E (pt_Metadata pin) \<noteq> None) \<and>
      (pt_Config pin = [] \<or> pg_jsonb E (pt_Config pin) \<noteq> None) \<and>
      (case pt_TTLSeconds pin of None \<Rightarrow> True | Some s \<Rightarrow> \<not> isl (expiry t s)))"

lemma patch_fold:
  assumes "patch_binds E t pin" and "patch_sets pin (2 + length as) = (sets, sargs)"
  obtains fs where "res_map (apply_set E t (PBytes s # map PBytes as @ sargs)) sets = Inr fs"
    and "fold (\<lambda>g. g) fs = patched E t pin"
proof -
  have "\<exists>fs. res_map (apply_set E t (PBytes s # map PBytes as @ sargs)) sets = Inr fs \<and>
          fold (\<lambda>g. g) fs = patched E t pin"
    using assms
    by (cases "pt_TTLSeconds pin"; cases "pt_Metadata pin = []"; cases "pt_Config pin = []")
      (auto simp: patch_binds_def patch_sets_def Let_def bytes_arg_def float_arg_def cast_jsonb_def nth_append
        patched_def[abs_def] fun_eq_iff not_isl)
  with that show thesis by blast
qed

lemma patch_sets_none: "patch_sets pin n = ([], sargs) \<Longrightarrow> patched E t pin = id"
  by (auto simp: patch_sets_def patched_def[abs_def] Let_def split: if_splits option.splits)

lemma upd_threads_id [simp]: "upd_threads P id d = d"
  by (simp add: upd_threads_def cong: if_cong)


text \<open>Nothing of the given threads is left, and nothing of any other is gone.\<close>

definition purged :: "uuid set \<Rightarrow> db \<Rightarrow> db \<Rightarrow> bool" where
  "purged gone d d' \<longleftrightarrow>
     (\<forall>t. t \<in> set (threads d') \<longleftrightarrow> t \<in> set (threads d) \<and> t_thread_id t \<notin> gone) \<and>
     (\<forall>r. r \<in> set (runs d') \<longleftrightarrow> r \<in> set (runs d) \<and> r_thread_id r \<notin> gone) \<and>
     (\<forall>x. x \<in> set (writes d') \<longleftrightarrow> x \<in> set (writes d) \<and> w_thread_id x \<notin> gone) \<and>
     (\<forall>x. x \<in> set (blobs d') \<longleftrightarrow> x \<in> set (blobs d) \<and> b_thread_id x \<notin> gone) \<and>
     (\<forall>c \<in> set (checkpoints d'). c \<in> set (checkpoints d) \<and> c_thread_id c \<notin> gone) \<and>
     assistants d' = assistants d \<and> versions d' = versions d \<and> crons d' = crons d"

lemma purged_empty [simp]: "db_ok d \<Longrightarrow> purged {} d d"
  by (simp add: purged_def)

lemma purged_trans: "purged A d d1 \<Longrightarrow> purged B d1 d2 \<Longrightarrow> purged (A \<union> B) d d2"
  by (simp add: purged_def)

lemma purged_del:
  assumes "gone \<subseteq> t_thread_id ` set (threads d)"
  shows "purged gone d (del_threads (\<lambda>t. t_thread_id t \<in> gone) d)"
proof -
  have "t_thread_id ` {t \<in> set (threads d). t_thread_id t \<in> gone} = gone"
    using assms by auto
  then show ?thesis
    by (auto simp: purged_def checkpoints_del_threads)
qed

text \<open>
  \<^verbatim>\<open>Threads.Delete\<close> removes the named thread if the filters accept it, with its runs, checkpoints, writes and blobs, and nothing of
  any other thread; the tables stay consistent. A hidden or missing thread is \<^verbatim>\<open>ErrNotFound\<close> and nothing changes.
\<close>

theorem thread_delete_exact:
  assumes "faults w = []" and "db_ok (db w)" and "auth_ok E fs" and "pg_uuid E s = Some i"
  shows "if list_ex (thread_sel E i fs) (threads (db w))
         then \<exists>d'. thread_Delete E s fs w = (Inr i, w\<lparr>db := d'\<rparr>) \<and> purged {i} (db w) d' \<and> db_ok d'
         else thread_Delete E s fs w = (Inl ErrNotFound, w)"
proof -
  obtain fr args where q: "ApplyToQuery fs ''metadata'' 2 = Inr (fr, args)"
    and wh: "thread_where E s fr (s # args) = Inr (thread_sel E i fs)"
    using thread_where_obtain[OF assms(3,4)] .
  have run: "thread_Delete E s fs w = ((case find (thread_sel E i fs) (threads (db w)) of
      Some t \<Rightarrow> Inr (t_thread_id t) | None \<Rightarrow> Inl ErrNotFound), w\<lparr>db := del_threads (thread_sel E i fs) (db w)\<rparr>)"
    using q wh assms(1) by (simp add: thread_Delete_def bnd_def stmt_run first_row_filter)
  show ?thesis
  proof (cases "list_ex (thread_sel E i fs) (threads (db w))")
    case True
    then obtain t where t: "t \<in> set (threads (db w))" "thread_sel E i fs t" by (auto simp: list_ex_iff)
    then obtain t' where f: "find (thread_sel E i fs) (threads (db w)) = Some t'" using find_in_set by metis
    then have i: "t_thread_id t' = i" using find_Some_iff' by (fastforce simp: thread_sel_def)
    have dist: "distinct (map t_thread_id (threads (db w)))" using assms(2) by (simp add: db_ok_def keys_ok_def)
    have "thread_sel E i fs x \<longleftrightarrow> t_thread_id x \<in> {i}" if "x \<in> set (threads (db w))" for x
      using t(2) distinct_key_unique[OF dist t(1) that] unfolding thread_sel_def singleton_iff by metis
    then have del: "del_threads (thread_sel E i fs) (db w) = del_threads (\<lambda>x. t_thread_id x \<in> {i}) (db w)"
      by (simp add: del_threads_def cong: filter_cong)
    have "purged {i} (db w) (del_threads (thread_sel E i fs) (db w))"
      unfolding del using t by (intro purged_del) (auto simp: thread_sel_def)
    moreover have "thread_Delete E s fs w = (Inr i, w\<lparr>db := del_threads (thread_sel E i fs) (db w)\<rparr>)"
      unfolding run f by (simp add: i)
    ultimately show ?thesis
      unfolding if_P[OF True] using del_threads_ok[OF assms(2)] by blast
  next
    case False
    then have "find (thread_sel E i fs) (threads (db w)) = None" "del_threads (thread_sel E i fs) (db w) = db w"
      by (auto simp: list_ex_iff find_None_iff intro!: del_threads_none)
    with False run show ?thesis by simp
  qed
qed

theorem thread_delete_exact_witness:
  "\<exists>d'. thread_Delete sample_env ''t1'' [] sample_world = (Inr ''t1'', sample_world\<lparr>db := d'\<rparr>) \<and>
     purged {''t1''} (db sample_world) d' \<and> db_ok d'"
proof -
  have "auth_ok sample_env []" "pg_uuid sample_env ''t1'' = Some ''t1''"
    "list_ex (thread_sel sample_env ''t1'' []) (threads (db sample_world))"
    by (simp_all add: auth_ok_def thread_sel_def sample_defs)
  with thread_delete_exact[OF sample_faults sample_ok, of sample_env "[]" "''t1''" "''t1''"] show ?thesis
    by simp
qed

section \<open>Status\<close>

text \<open>A thread is settled when its status says busy exactly if it has a run in flight, and the given status otherwise.\<close>

definition settled :: "uuid \<Rightarrow> string \<Rightarrow> db \<Rightarrow> bool" where
  "settled tid base d \<longleftrightarrow>
     (\<forall>t \<in> set (threads d). t_thread_id t = tid \<longrightarrow> t_status t = (if has_inflight tid d then ''busy'' else base))"

lemma settled_upd: "same_tid f \<Longrightarrow> (\<And>t. t_status (f t) = (if has_inflight tid d then ''busy'' else base)) \<Longrightarrow>
    settled tid base (upd_threads (\<lambda>t. t_thread_id t = tid) f d)"
proof -
  assume f: "same_tid f" and st: "\<And>t. t_status (f t) = (if has_inflight tid d then ''busy'' else base)"
  have hi: "has_inflight tid (upd_threads (\<lambda>t. t_thread_id t = tid) f d) = has_inflight tid d"
    by (simp add: has_inflight_def)
  show ?thesis
    unfolding settled_def hi
  proof (intro ballI impI)
    fix x assume "x \<in> set (threads (upd_threads (\<lambda>t. t_thread_id t = tid) f d))" and x: "t_thread_id x = tid"
    then obtain t where "x = (if t_thread_id t = tid then f t else t)"
      unfolding threads_upd_threads set_map by blast
    with x have "x = f t" by (cases "t_thread_id t = tid") simp_all
    then show "t_status x = (if has_inflight tid d then ''busy'' else base)" using st by simp
  qed
qed

lemma settled_absent: "filter (\<lambda>t. t_thread_id t = tid) (threads d) = [] \<Longrightarrow> settled tid base d"
  by (auto simp: settled_def filter_empty_conv)

lemma setStatusSQL_obtain:
  assumes "setStatusSQL E si t d = Inr (rows, d')" and "pg_uuid E (ss_ThreadID si) = Some tid"
  obtains f where "d' = upd_threads (\<lambda>th. t_thread_id th = tid) f d" and "same_tid f"
    and "\<And>th. t_status (f th) = (if has_inflight tid d then ''busy'' else ss_StatusText si)"
    and "rows = map (\<lambda>_. if has_inflight tid d then ''busy'' else ss_StatusText si)
           (filter (\<lambda>t. t_thread_id t = tid) (threads d))"
proof -
  from assms obtain vals intr where eqs:
    "rows = map (\<lambda>_. if has_inflight tid d then ''busy'' else ss_StatusText si) (filter (\<lambda>t. t_thread_id t = tid) (threads d))"
    "d' = upd_threads (\<lambda>th. t_thread_id th = tid) (\<lambda>th. th\<lparr>t_updated_at := t, t_values := vals, t_interrupts := intr,
        t_status := if has_inflight tid d then ''busy'' else ss_StatusText si\<rparr>) d"
    unfolding setStatusSQL_def rb_Inr cast_uuid_Inr Let_def by auto
  show thesis
    by (rule that[OF eqs(2)]) (simp_all add: same_tid_def eqs(1))
qed

lemma run_has_thread: "db_ok d \<Longrightarrow> has_inflight tid d \<Longrightarrow> filter (\<lambda>t. t_thread_id t = tid) (threads d) \<noteq> []"
  by (force simp: has_inflight_def list_ex_iff db_ok_def refs_ok_def filter_empty_conv)

definition status_done :: "SetStatusInput \<Rightarrow> uuid \<Rightarrow> db \<Rightarrow> db \<Rightarrow> bool \<Rightarrow> bool" where
  "status_done si tid d d' busy \<longleftrightarrow>
     busy = has_inflight tid d \<and> settled tid (ss_StatusText si) d' \<and> runs d' = runs d"

lemma setStatusSQL_done:
  assumes "setStatusSQL E si t d = Inr (rows, d')" and "pg_uuid E (ss_ThreadID si) = Some tid" and "db_ok d"
    and "ss_StatusText si \<noteq> ''busy''"
  shows "status_done si tid d d' (final_busy rows)"
    and "rows = [] \<longleftrightarrow> filter (\<lambda>t. t_thread_id t = tid) (threads d) = []"
proof -
  obtain f where f: "d' = upd_threads (\<lambda>th. t_thread_id th = tid) f d" "same_tid f"
    "\<And>th. t_status (f th) = (if has_inflight tid d then ''busy'' else ss_StatusText si)"
    and rows: "rows = map (\<lambda>_. if has_inflight tid d then ''busy'' else ss_StatusText si)
           (filter (\<lambda>t. t_thread_id t = tid) (threads d))"
    using setStatusSQL_obtain[OF assms(1,2)] by metis
  show "rows = [] \<longleftrightarrow> filter (\<lambda>t. t_thread_id t = tid) (threads d) = []"
    by (simp add: rows)
  have "final_busy rows = has_inflight tid d"
    using rows assms(4) run_has_thread[OF assms(3), of tid]
    by (cases "filter (\<lambda>t. t_thread_id t = tid) (threads d)") auto
  moreover have "settled tid (ss_StatusText si) d'"
    unfolding f(1) by (rule settled_upd[OF f(2,3)])
  ultimately show "status_done si tid d d' (final_busy rows)"
    by (simp add: status_done_def f(1))
qed

lemma status_absent:
  "db_ok d \<Longrightarrow> filter (\<lambda>t. t_thread_id t = tid) (threads d) = [] \<Longrightarrow> status_done si tid d d False"
  using run_has_thread by (auto simp: status_done_def settled_absent)

text \<open>The guarded form: what it can end with.\<close>

lemma guarded_status_Inr:
  assumes "guarded_status E si w = (Inr x, w')" and "pg_uuid E (ss_ThreadID si) = Some tid" and "db_ok (db w)"
    and "ss_StatusText si \<noteq> ''busy''"
  obtains (absent) "x = Abort False" "filter (\<lambda>t. t_thread_id t = tid) (threads (db w)) = []"
  | (settles) b where "x = Commit b" "status_done si tid (db w) (db w') b"
      "hd (map t_status (filter (\<lambda>t. t_thread_id t = tid) (threads (db w)))) \<in> set (ss_ExpectedStatus si)"
proof (cases "filter (\<lambda>t. t_thread_id t = tid) (threads (db w)) = []")
  case True
  with assms(1,2) absent show thesis
    by (auto simp: guarded_status_def res_iff)
next
  case False
  with assms(1,2) obtain rows d1 where
      s: "setStatusSQL E si (now w) (db w) = Inr (rows, d1)" and
      x: "x = (if rows = [] then Abort False else Commit (final_busy rows))" "db w' = d1" and
      h: "hd (map t_status (filter (\<lambda>t. t_thread_id t = tid) (threads (db w)))) \<in> set (ss_ExpectedStatus si)"
    unfolding guarded_status_def by (auto simp: res_iff split: if_splits)
  from setStatusSQL_done[OF s assms(2-4)] False x h settles show thesis by auto
qed

lemma hd_unique_status:
  assumes "db_ok d" and "t \<in> set (threads d)"
  shows "hd (map t_status (filter (\<lambda>x. t_thread_id x = t_thread_id t) (threads d))) = t_status t"
  using filter_key_single[of t_thread_id "threads d" t] assms by (simp add: db_ok_def keys_ok_def)

lemma set_status_failed: "thread_SetStatus E si w = (Inl e, w') \<Longrightarrow> db w' = db w"
  by (auto simp: thread_SetStatus_def bnd_Inl ret_def dest: in_tx_atomic dest!: stmt_Inl split: if_splits)

text \<open>
  (C24) \<^verbatim>\<open>Threads.SetStatus\<close> under every fault schedule: if it succeeds, the thread is busy exactly if a run on it is
  pending or running and has the given status otherwise, and the result tells which (the worker is woken for a busy
  thread). With expected statuses, a thread in any other status is refused; a call that fails changes nothing.
\<close>

theorem set_status_exact:
  assumes "thread_SetStatus E si w = (r, w')" and "pg_uuid E (ss_ThreadID si) = Some tid" and "db_ok (db w)"
    and "ss_StatusText si \<noteq> ''busy''"
  shows "case r of
      Inl e \<Rightarrow> db w' = db w
    | Inr busy \<Rightarrow> busy = has_inflight tid (db w) \<and>
        settled tid (ss_StatusText si) (db w') \<and> runs (db w') = runs (db w) \<and>
        (ss_ExpectedStatus si = [] \<or>
           (\<forall>t \<in> set (threads (db w)). t_thread_id t = tid \<longrightarrow> t_status t \<in> set (ss_ExpectedStatus si)))"
proof (cases r)
  case (Inl e)
  with assms(1) show ?thesis by (auto dest: set_status_failed)
next
  case (Inr busy)
  show ?thesis
  proof (cases "ss_ExpectedStatus si = []")
    case True
    with assms(1) Inr obtain rows where
        s: "setStatusSQL E si (now w) (db w) = Inr (rows, db w')" and b: "busy = final_busy rows"
      by (auto simp: thread_SetStatus_def res_iff)
    from setStatusSQL_done(1)[OF s assms(2-4)] b True Inr show ?thesis
      by (simp add: status_done_def)
  next
    case False
    with assms(1) Inr obtain x w1 where body: "guarded_status E si (after w) = (Inr x, w1)"
        and x: "x = Commit busy \<and> db w' = db w1 \<or> x = Abort busy \<and> db w' = db w \<or> (\<exists>y. x = CommitIgn y)"
      by (auto simp: thread_SetStatus_def in_tx_Inr)
    have "db_ok (db (after w))" using assms(3) by simp
    from body assms(2) this assms(4) show ?thesis
    proof (cases rule: guarded_status_Inr)
      case absent
      with x Inr status_absent[OF assms(3), of tid si] show ?thesis
        by (auto simp: status_done_def filter_empty_conv)
    next
      case (settles b)
      have "t_status t \<in> set (ss_ExpectedStatus si)" if "t \<in> set (threads (db w))" "t_thread_id t = tid" for t
        using settles(3) hd_unique_status[OF assms(3) that(1)] that(2) by simp
      with settles x Inr show ?thesis by (simp add: status_done_def)
    qed
  qed
qed

theorem set_status_exact_witness:
  "settled ''t2'' ''idle'' (db (snd (thread_SetStatus sample_env \<lparr>ss_ThreadID = ''t2'', ss_StatusText = ''idle'',
     ss_ValuesJSON = None, ss_Interrupts = None, ss_ExpectedStatus = [''busy'']\<rparr> sample_world)))"
proof -
  let ?si = "\<lparr>ss_ThreadID = ''t2'', ss_StatusText = ''idle'', ss_ValuesJSON = None, ss_Interrupts = None,
     ss_ExpectedStatus = [''busy'']\<rparr>"
  have run: "thread_SetStatus sample_env ?si sample_world = (Inr True, snd (thread_SetStatus sample_env ?si sample_world))"
    by (rule prod_eqI) (simp, code_simp, simp)
  have "pg_uuid sample_env (ss_ThreadID ?si) = Some ''t2''"
    by (simp add: sample_defs)
  from set_status_exact[OF run this sample_ok] show ?thesis by simp
qed

text \<open>What the two statements of \<^verbatim>\<open>SetJointStatus\<close> do to the run they name.\<close>

definition joint_run_done :: "SetJointStatusInput \<Rightarrow> uuid \<Rightarrow> uuid \<Rightarrow> db \<Rightarrow> db \<Rightarrow> bool" where
  "joint_run_done sj rid tid d d' \<longleftrightarrow>
     (\<forall>r \<in> set (runs d). r_run_id r \<noteq> rid \<or> r_thread_id r \<noteq> tid \<longrightarrow> r \<in> set (runs d')) \<and>
     (\<forall>r' \<in> set (runs d'). r' \<in> set (runs d) \<and> (r_run_id r' \<noteq> rid \<or> r_thread_id r' \<noteq> tid) \<or>
        r_run_id r' = rid \<and> r_thread_id r' = tid \<and> r_status r' = sj_RunStatus sj \<and> sj_RunStatus sj \<noteq> ''rollback'')"

lemma joint_run_stmt_done:
  assumes "joint_run_stmt E sj t d = Inr (u, d')" and "pg_uuid E (sj_RunID sj) = Some rid"
    and "pg_uuid E (sj_ThreadID sj) = Some tid"
  shows "joint_run_done sj rid tid d d'"
proof -
  let ?P = "\<lambda>r. r_run_id r = rid \<and> r_thread_id r = tid"
  have d': "d' = (if sj_RunStatus sj = ''rollback'' then del_runs ?P d
      else upd_runs ?P (\<lambda>r. r\<lparr>r_status := sj_RunStatus sj, r_updated_at := t\<rparr>) d)"
    using assms unfolding joint_run_stmt_def rb_Inr cast_uuid_Inr Let_def by auto
  show ?thesis
  proof (cases "sj_RunStatus sj = ''rollback''")
    case True
    then show ?thesis by (auto simp: joint_run_done_def d')
  next
    case False
    then show ?thesis
      unfolding joint_run_done_def d' by (simp add: image_iff) (simp add: ball_Un)
  qed
qed

lemma joint_thread_stmt_done:
  assumes "joint_thread_stmt E sj t d = Inr (u, d')" and "pg_uuid E (sj_ThreadID sj) = Some tid"
  shows "settled tid (joint_base sj) d'" and "runs d' = runs d"
proof -
  from assms obtain vals intr gm where d': "d' = upd_threads (\<lambda>th. t_thread_id th = tid) (\<lambda>th. th\<lparr>t_updated_at := t,
      t_values := vals, t_interrupts := intr, t_metadata := jconcat (t_metadata th) gm,
      t_status := if has_inflight tid d then ''busy'' else joint_base sj\<rparr>) d"
    unfolding joint_thread_stmt_def rb_Inr cast_uuid_Inr Let_def by auto
  show "settled tid (joint_base sj) d'" unfolding d' by (rule settled_upd) (simp_all add: same_tid_def)
  show "runs d' = runs d" by (simp add: d')
qed


definition sample_joint :: SetJointStatusInput where
  "sample_joint = \<lparr>sj_ThreadID = ''t2'', sj_RunID = ''r3'', sj_RunStatus = ''success'', sj_GraphID = ''g'',
     sj_ValuesJSON = Some ''{}'', sj_InterruptsJSON = None, sj_Next = [''node''], sj_ExceptionJSON = []\<rparr>"


section \<open>Expiry\<close>

text \<open>Some expired threads and all that belongs to them are gone, nothing else.\<close>

definition swept_some :: "int \<Rightarrow> db \<Rightarrow> db \<Rightarrow> bool" where
  "swept_some t d d' \<longleftrightarrow>
     (\<exists>gone. purged gone d d' \<and> gone \<subseteq> t_thread_id ` {th \<in> set (threads d). thread_expired t th}) \<and> db_ok d'"

lemma swept_some_trans:
  assumes "swept_some t d d1" and "swept_some t d1 d2"
  shows "swept_some t d d2"
proof -
  obtain A B where a: "purged A d d1" "A \<subseteq> t_thread_id ` {th \<in> set (threads d). thread_expired t th}"
    and b: "purged B d1 d2" "B \<subseteq> t_thread_id ` {th \<in> set (threads d1). thread_expired t th}"
    using assms by (auto simp: swept_some_def)
  have "{th \<in> set (threads d1). thread_expired t th} \<subseteq> {th \<in> set (threads d). thread_expired t th}"
    using a(1) by (auto simp: purged_def)
  with a(2) b(2) have "A \<union> B \<subseteq> t_thread_id ` {th \<in> set (threads d). thread_expired t th}"
    by blast
  with purged_trans[OF a(1) b(1)] assms(2) show ?thesis
    by (auto simp: swept_some_def)
qed

lemma swept_some_refl: "db_ok d \<Longrightarrow> swept_some t d d"
  unfolding swept_some_def using purged_empty by blast

text \<open>One batch: the rows counted are the rows taken, since ids are unique.\<close>

lemma ttl_batch_step:
  assumes "db_ok d" and "ttl_batch b t d = Inr (n, d')"
  shows "swept_some t d d'" and "n < b \<Longrightarrow> filter (thread_expired t) (threads d') = []"
proof -
  define xs where "xs = take b (filter (thread_expired t) (threads d))"
  let ?ids = "set (map t_thread_id xs)"
  have d': "d' = del_threads (\<lambda>th. t_thread_id th \<in> ?ids) d" and n: "n = length (filter (\<lambda>th. t_thread_id th \<in> ?ids) (threads d))"
    using assms(2) by (auto simp: ttl_batch_def Let_def xs_def)
  have sub: "set xs \<subseteq> {th \<in> set (threads d). thread_expired t th}"
    unfolding xs_def using set_take_subset by fastforce
  have "?ids \<subseteq> t_thread_id ` set (threads d)" using sub by auto
  from purged_del[OF this] sub del_threads_ok[OF assms(1)] show "swept_some t d d'"
    unfolding swept_some_def d' by (intro conjI exI[of _ ?ids]) auto
  assume "n < b"
  have dist: "distinct (map t_thread_id (threads d))" using assms(1) by (simp add: db_ok_def keys_ok_def)
  then have "distinct xs" unfolding xs_def by (simp add: distinct_map)
  then have "length xs = card (set xs)" by (simp add: distinct_card)
  also have "set xs \<subseteq> set (filter (\<lambda>th. t_thread_id th \<in> ?ids) (threads d))" using sub by auto
  then have "card (set xs) \<le> card (set (filter (\<lambda>th. t_thread_id th \<in> ?ids) (threads d)))" by (simp add: card_mono)
  also have "\<dots> \<le> n" unfolding n by (rule card_length)
  finally have "length xs < b" using \<open>n < b\<close> by simp
  then have "xs = filter (thread_expired t) (threads d)" by (simp add: xs_def)
  then show "filter (thread_expired t) (threads d') = []"
    by (auto simp: d' filter_empty_conv)
qed

lemma ttl_loop_step:
  assumes "db_ok (db w)" and "stmt (ttl_batch b) w = (Inr n, w1)"
  shows "swept_some (now w) (db w) (db w1)" "now w1 = now w" "faults w = [] \<Longrightarrow> faults w1 = []"
    "n < b \<Longrightarrow> filter (thread_expired (now w)) (threads (db w1)) = []"
  using assms ttl_batch_step[OF assms(1), of b "now w" n "db w1"] by (auto simp: res_iff)

lemma ttl_loop_spec:
  "db_ok (db w) \<Longrightarrow> ttl_loop w = (r, w') \<Longrightarrow>
     swept_some (now w) (db w) (db w') \<and> now w' = now w \<and>
     (r = Inr () \<longrightarrow> filter (thread_expired (now w)) (threads (db w')) = []) \<and> (faults w = [] \<longrightarrow> r = Inr () \<and> faults w' = [])"
proof (induction w rule: ttl_loop.induct)
  case (1 w)
  obtain x w1 where s: "stmt (ttl_batch batchSize) w = (x, w1)" by fastforce
  show ?case
  proof (cases x)
    case (Inl e)
    have "faults w \<noteq> []" using s Inl by (auto simp: stmt_run ttl_batch_def Let_def)
    moreover have "w1 = after w" using stmt_Inl s Inl by blast
    ultimately show ?thesis
      using 1(2,3) s Inl swept_some_refl by (auto simp: ttl_loop.simps[of w])
  next
    case (Inr n)
    note st = ttl_loop_step[OF 1(2) s[unfolded Inr]]
    show ?thesis
    proof (cases "n < batchSize")
      case True
      with 1(3) s Inr st show ?thesis by (auto simp: ttl_loop.simps[of w])
    next
      case False
      then have run: "ttl_loop w1 = (r, w')" using 1(3) s Inr by (simp add: ttl_loop.simps[of w])
      have "db_ok (db w1)" using st(1) by (simp add: swept_some_def)
      note ih = 1(1)[OF s[symmetric] Inr False this run, unfolded st(2)]
      with swept_some_trans[OF st(1)] st(3) show ?thesis by blast
    qed
  qed
qed



end
