(* ===== verification/Threads_Service.thy ===== *)
theory Threads_Service
  imports Threads_Write Runs_Service
begin

text \<open>
  The thread service (\<^verbatim>\<open>internal/threads/service.go\<close>): the handlers on top of the thread store. The checkpointer that
  \<^verbatim>\<open>Copy\<close> calls is an argument, as in the code; so are the host's clock and the decoder of an \<^verbatim>\<open>Interrupts\<close> message
  (\<^verbatim>\<open>protojson\<close>). \<^verbatim>\<open>Stream\<close> is a loop over the replies of Redis to its blocking reads.
\<close>

section \<open>Messages\<close>

definition ThreadStatus_name :: enum_table where
  "ThreadStatus_name = [(0, ''idle''), (1, ''busy''), (2, ''interrupted''), (3, ''error'')]"

interpretation ThreadStatus_enum: enum ThreadStatus_name
  by unfold_locales (simp_all add: ThreadStatus_name_def)

definition threads_mapErr :: "err \<Rightarrow> code" where
  "threads_mapErr e = (case e of ErrNotFound \<Rightarrow> NotFound | ErrForbidden \<Rightarrow> NotFound
     | ErrFailedPrecondition \<Rightarrow> FailedPrecondition | _ \<Rightarrow> Internal)"

definition thStatusEnumToText :: "int \<Rightarrow> string" where
  "thStatusEnumToText e = enum_String ThreadStatus_name e"

definition thStatusTextToEnum :: "string \<Rightarrow> int" where
  "thStatusTextToEnum s = (case enum_value ThreadStatus_name s of Some v \<Rightarrow> v | None \<Rightarrow> 0)"

text \<open>\<open>un\<close> decodes one value of the \<^verbatim>\<open>interrupts\<close> object; values it rejects are skipped.\<close>

definition decodeInterrupts :: "(json \<Rightarrow> 'i option) \<Rightarrow> json \<Rightarrow> (string \<times> 'i) list option" where
  "decodeInterrupts un raw =
     (case raw of
        JObj outer \<Rightarrow>
          (let result = concat (map (\<lambda>k. case Option.bind (map_of outer k) un of Some x \<Rightarrow> [(k, x)] | None \<Rightarrow> [])
                 (remdups (map fst outer)))
           in if result = [] then None else Some result)
      | _ \<Rightarrow> None)"

record 'i ThreadPB =
  tb_ThreadId :: string
  tb_Status :: int
  tb_CreatedAt :: int
  tb_UpdatedAt :: int
  tb_Metadata :: json
  tb_Config :: json
  tb_Values :: json
  tb_Interrupts :: "(string \<times> 'i) list option"
  tb_Ttl :: "(int \<times> rat) option"
  tb_StateUpdatedAt :: "int option"

text \<open>\<open>clock\<close> is the time of the host, from which the remaining minutes are computed.\<close>

definition threads_toPB :: "(json \<Rightarrow> 'i option) \<Rightarrow> int \<Rightarrow> Thread \<Rightarrow> 'i ThreadPB" where
  "threads_toPB un clock t =
     \<lparr>tb_ThreadId = ThreadID t, tb_Status = thStatusTextToEnum (ThreadStatus t), tb_CreatedAt = ThreadCreatedAt t,
      tb_UpdatedAt = ThreadUpdatedAt t, tb_Metadata = ThreadMetadata t, tb_Config = ThreadConfig t,
      tb_Values = ThreadValues t, tb_Interrupts = decodeInterrupts un (ThreadInterrupts t),
      tb_Ttl = (case ThreadExpiresAt t of None \<Rightarrow> None
         | Some e \<Rightarrow> Some (e, max 0 (of_int (e - clock) / of_int (60 * second)))),
      tb_StateUpdatedAt = ThreadStateUpdatedAt t\<rparr>"

definition extractTTLSeconds :: "rat option option \<Rightarrow> rat option" where
  "extractTTLSeconds cfg = (case cfg of Some (Some m) \<Rightarrow> Some (m * 60) | _ \<Rightarrow> None)"

definition threadsSortByToColumn :: "int \<Rightarrow> string" where
  "threadsSortByToColumn sb =
     (if sb = 1 then ''thread_id'' else if sb = 4 then ''status'' else if sb = 2 then ''created_at''
      else if sb = 3 then ''updated_at'' else [])"

section \<open>Reads\<close>

definition threads_svc_Get :: "env \<Rightarrow> (json \<Rightarrow> 'i option) \<Rightarrow> int \<Rightarrow> string \<Rightarrow> auth_filter list \<Rightarrow> 'i ThreadPB rpc" where
  "threads_svc_Get E un clock threadId filters =
     call (thread_Get E threadId filters) threads_mapErr (\<lambda>t. answer (threads_toPB un clock t))"

record SearchThreadsRequest =
  sq_Status :: "int option"
  sq_MetadataJson :: string
  sq_ValuesJson :: string
  sq_Ids :: "string list"
  sq_SortBy :: "int option"
  sq_SortOrder :: "int option"
  sq_Limit :: nat
  sq_Offset :: nat
  sq_Filters :: "auth_filter list"

definition thread_search_in :: "SearchThreadsRequest \<Rightarrow> ThreadSearchInput" where
  "thread_search_in rq =
     \<lparr>ts_Status = (case sq_Status rq of None \<Rightarrow> [] | Some s \<Rightarrow> thStatusEnumToText s),
      ts_MetadataFilter = sq_MetadataJson rq, ts_ValuesFilter = sq_ValuesJson rq, ts_Ids = sq_Ids rq,
      ts_Limit = sq_Limit rq, ts_Offset = sq_Offset rq,
      ts_SortBy = (case sq_SortBy rq of None \<Rightarrow> [] | Some sb \<Rightarrow> threadsSortByToColumn sb),
      ts_SortOrder = (case sq_SortOrder rq of None \<Rightarrow> [] | Some so \<Rightarrow> if so = 1 then ''asc'' else ''desc'')\<rparr>"

definition threads_svc_Search :: "env \<Rightarrow> (json \<Rightarrow> 'i option) \<Rightarrow> int \<Rightarrow> SearchThreadsRequest \<Rightarrow> 'i ThreadPB list rpc" where
  "threads_svc_Search E un clock rq =
     call (thread_Search E (thread_search_in rq) (sq_Filters rq)) threads_mapErr
       (\<lambda>rows. answer (map (threads_toPB un clock) rows))"

definition threads_svc_Count :: "env \<Rightarrow> int option \<Rightarrow> string \<Rightarrow> string \<Rightarrow> auth_filter list \<Rightarrow> nat rpc" where
  "threads_svc_Count E st metadataJson valuesJson filters =
     call (thread_Count E \<lparr>ts_Status = (case st of None \<Rightarrow> [] | Some s \<Rightarrow> thStatusEnumToText s),
             ts_MetadataFilter = metadataJson, ts_ValuesFilter = valuesJson, ts_Ids = [], ts_Limit = 0, ts_Offset = 0,
             ts_SortBy = [], ts_SortOrder = []\<rparr> filters) threads_mapErr answer"

definition threads_svc_GetGraphID :: "env \<Rightarrow> string \<Rightarrow> string rpc" where
  "threads_svc_GetGraphID E threadId = call (thread_GetGraphID E threadId []) threads_mapErr answer"

section \<open>Mutations\<close>

definition create_mapErr :: "err \<Rightarrow> code" where
  "create_mapErr e = (if e = ErrAlreadyExists then AlreadyExists else threads_mapErr e)"

text \<open>\<open>threadId\<close> is \<open>None\<close> if the request has no id; \<open>ifExists\<close> is the enum \<^verbatim>\<open>OnConflictBehavior\<close>.\<close>

definition threads_svc_Create :: "env \<Rightarrow> (json \<Rightarrow> 'i option) \<Rightarrow> int \<Rightarrow> uuid \<Rightarrow> string option \<Rightarrow> string option \<Rightarrow> rat option option \<Rightarrow>
    int \<Rightarrow> auth_filter list \<Rightarrow> 'i ThreadPB rpc" where
  "threads_svc_Create E un clock gen threadId metadataJson ttl ifExists filters =
     call (thread_Create E gen \<lparr>ct_ThreadID = (case threadId of None \<Rightarrow> [] | Some t \<Rightarrow> t), ct_Metadata = metadataJson,
             ct_Config = None, ct_TTLSeconds = extractTTLSeconds ttl,
             ct_IfExists = (if ifExists = 1 then ''do_nothing'' else ''raise''), ct_Filters = filters\<rparr>)
       create_mapErr (\<lambda>t. answer (threads_toPB un clock t))"

definition threads_svc_Patch :: "env \<Rightarrow> (json \<Rightarrow> 'i option) \<Rightarrow> int \<Rightarrow> string \<Rightarrow> string \<Rightarrow> rat option option \<Rightarrow> auth_filter list \<Rightarrow>
    'i ThreadPB rpc" where
  "threads_svc_Patch E un clock threadId metadataJson ttl filters =
     call (thread_Patch E threadId \<lparr>pt_Metadata = metadataJson, pt_Config = [], pt_TTLSeconds = extractTTLSeconds ttl\<rparr> filters)
       threads_mapErr (\<lambda>t. answer (threads_toPB un clock t))"

definition threads_svc_Delete :: "env \<Rightarrow> string \<Rightarrow> auth_filter list \<Rightarrow> string rpc" where
  "threads_svc_Delete E threadId filters = call (thread_Delete E threadId filters) threads_mapErr answer"

record CheckpointPayload =
  cy_Next :: "string list"
  cy_ValuesJson :: string
  cy_InterruptsJson :: string

definition nonempty :: "string \<Rightarrow> string option" where
  "nonempty s = (if s = [] then None else Some s)"

definition status_text :: "string \<Rightarrow> CheckpointPayload option \<Rightarrow> string" where
  "status_text exceptionJson cp =
     (if exceptionJson \<noteq> [] then ''error''
      else case cp of Some c \<Rightarrow> if cy_Next c \<noteq> [] then ''interrupted'' else ''idle'' | None \<Rightarrow> ''idle'')"

definition set_status_in :: "string \<Rightarrow> CheckpointPayload option \<Rightarrow> string \<Rightarrow> int list \<Rightarrow> SetStatusInput" where
  "set_status_in threadId cp exceptionJson expected =
     \<lparr>ss_ThreadID = threadId, ss_StatusText = status_text exceptionJson cp,
      ss_ValuesJSON = Option.bind cp (\<lambda>c. nonempty (cy_ValuesJson c)),
      ss_Interrupts = Option.bind cp (\<lambda>c. nonempty (cy_InterruptsJson c)),
      ss_ExpectedStatus = map thStatusEnumToText expected\<rparr>"

definition threads_svc_SetStatus :: "env \<Rightarrow> svc \<Rightarrow> string \<Rightarrow> CheckpointPayload option \<Rightarrow> string \<Rightarrow> int list \<Rightarrow> unit rpc" where
  "threads_svc_SetStatus E S threadId cp exceptionJson expected =
     call (thread_SetStatus E (set_status_in threadId cp exceptionJson expected)) threads_mapErr
       (\<lambda>busy w. answer () (if busy \<and> sv_rdb S then fire S (RPush RunQueueKey threadId) w else w))"

definition joint_in :: "string \<Rightarrow> string \<Rightarrow> string \<Rightarrow> string \<Rightarrow> CheckpointPayload option \<Rightarrow> string \<Rightarrow> SetJointStatusInput" where
  "joint_in threadId runId runStatus graphId cp exceptionJson =
     \<lparr>sj_ThreadID = threadId, sj_RunID = runId, sj_RunStatus = runStatus, sj_GraphID = graphId,
      sj_ValuesJSON = Option.bind cp (\<lambda>c. nonempty (cy_ValuesJson c)),
      sj_InterruptsJSON = Option.bind cp (\<lambda>c. nonempty (cy_InterruptsJson c)),
      sj_Next = (case cp of None \<Rightarrow> [] | Some c \<Rightarrow> cy_Next c), sj_ExceptionJSON = exceptionJson\<rparr>"

definition threads_svc_SetJointStatus :: "env \<Rightarrow> svc \<Rightarrow> string \<Rightarrow> string \<Rightarrow> string \<Rightarrow> string \<Rightarrow> CheckpointPayload option \<Rightarrow> string \<Rightarrow>
    unit rpc" where
  "threads_svc_SetJointStatus E S threadId runId runStatus graphId cp exceptionJson =
     call (thread_SetJointStatus E (joint_in threadId runId runStatus graphId cp exceptionJson)) threads_mapErr
       (\<lambda>_ w. answer () (if runStatus = ''pending'' \<and> sv_rdb S then fire S (RPush RunQueueKey runId) w else w))"

text \<open>An error of the copier is reported as an internal error, whatever it is.\<close>

definition wrapped :: "string \<Rightarrow> 'a op \<Rightarrow> 'a op" where
  "wrapped msg m w = (case m w of (Inl e, w') \<Rightarrow> (Inl (DbErr msg), w') | r \<Rightarrow> r)"

definition copy_tx :: "env \<Rightarrow> (string \<Rightarrow> string \<Rightarrow> unit op) \<Rightarrow> uuid \<Rightarrow> string \<Rightarrow> auth_filter list \<Rightarrow> Thread op" where
  "copy_tx E copier gen threadId filters =
     in_tx (bnd (thread_CopyTx E gen threadId filters) (\<lambda>th.
            bnd (wrapped ''copy checkpoints'' (copier threadId (ThreadID th))) (\<lambda>_. ret (Commit th))))"

definition threads_svc_Copy :: "env \<Rightarrow> (string \<Rightarrow> string \<Rightarrow> unit op) option \<Rightarrow> (json \<Rightarrow> 'i option) \<Rightarrow> int \<Rightarrow> uuid \<Rightarrow> string \<Rightarrow>
    auth_filter list \<Rightarrow> 'i ThreadPB rpc" where
  "threads_svc_Copy E checkpointer un clock gen threadId filters =
     call (case checkpointer of None \<Rightarrow> thread_Copy E gen threadId filters
             | Some copier \<Rightarrow> copy_tx E copier gen threadId filters)
       threads_mapErr (\<lambda>t. answer (threads_toPB un clock t))"

section \<open>Stream\<close>

text \<open>
  One round of the loop: whether the context is done, the reply to \<^verbatim>\<open>XREAD\<close> (key, cursor, count, block in
  milliseconds), whether a failed read is a cancellation, and how many sends succeed.
\<close>

record th_round =
  rd_done :: bool
  rd_reply :: "string \<Rightarrow> string \<Rightarrow> int \<Rightarrow> int \<Rightarrow> stream_entry list list reply"
  rd_cancelled :: bool
  rd_sends :: nat

definition thread_event :: "stream_entry \<Rightarrow> stream_event" where
  "thread_event e = \<lparr>se_type = field e ''event_type'', se_message = field e ''message'', se_id = Some (en_ID e)\<rparr>"

fun thread_stream_loop :: "string \<Rightarrow> int \<Rightarrow> int \<Rightarrow> th_round list \<Rightarrow> string \<Rightarrow> stream_event list \<Rightarrow>
    stream_event list \<times> stream_end option" where
  "thread_stream_loop key batch blk [] cursor sent = (sent, None)"
| "thread_stream_loop key batch blk (rd # rds) cursor sent =
     (if rd_done rd then (sent, Some CtxErr)
      else case XReadFrom (rd_reply rd key cursor batch blk) of
        Inl e \<Rightarrow> (sent, Some (if rd_cancelled rd then Finished else EndStatus (StatusError Internal)))
      | Inr entries \<Rightarrow>
          if rd_sends rd < length entries
          then (sent @ map thread_event (take (rd_sends rd) entries), Some SendErr)
          else thread_stream_loop key batch blk rds (if entries = [] then cursor else en_ID (last entries))
                 (sent @ map thread_event entries))"

definition replay_batch :: "svc \<Rightarrow> int" where
  "replay_batch S = (case sv_cfg S of Some c \<Rightarrow> if StreamReplayBatch c > 0 then StreamReplayBatch c else 100 | None \<Rightarrow> 100)"

definition read_block_ms :: "svc \<Rightarrow> int" where
  "read_block_ms S = (case sv_cfg S of Some c \<Rightarrow> if StreamReadBlockMs c > 0 then StreamReadBlockMs c else 500 | None \<Rightarrow> 500)"

definition first_cursor :: "string option \<Rightarrow> string" where
  "first_cursor lastEventId = (case lastEventId of Some i \<Rightarrow> if i \<noteq> [] then i else ''0-0'' | None \<Rightarrow> ''0-0'')"

definition threads_svc_Stream :: "env \<Rightarrow> svc \<Rightarrow> string \<Rightarrow> auth_filter list \<Rightarrow> string option \<Rightarrow> th_round list \<Rightarrow> world \<Rightarrow>
    (stream_event list \<times> stream_end option) \<times> world" where
  "threads_svc_Stream E S threadId filters lastEventId rounds w =
     (if \<not> sv_streamer S then (([], Some (EndStatus (StatusError Unavailable))), w)
      else case go_uuid E threadId of
        None \<Rightarrow> (([], Some (EndStatus (StatusError InvalidArgument))), w)
      | Some u \<Rightarrow>
          (case ThreadExistsAndAuth E threadId filters w of
             (Inl e, w') \<Rightarrow> (([], Some (EndStatus (StatusError
                (case e of ErrForbidden \<Rightarrow> NotFound | ErrNotFound \<Rightarrow> NotFound | _ \<Rightarrow> Internal)))), w')
           | (Inr _, w') \<Rightarrow>
               (thread_stream_loop (ThreadStreamKey u) (replay_batch S) (read_block_ms S) rounds
                  (first_cursor lastEventId) [], w')))"

end
