(* ===== verification/Crons_Service.thy ===== *)
theory Crons_Service
  imports Crons_Store Threads_Service
begin

text \<open>
  The cron service and the scheduler (\<^verbatim>\<open>internal/crons/service.go\<close>, \<^verbatim>\<open>scheduler.go\<close>). The creator of runs is an argument of the
  scheduler, as in the code; it takes the position of the call within the tick, from which an implementation draws its fresh ids. Timestamps of the
  protocol are microseconds, an absent one reads as the epoch. \<open>pj\<close> decodes a payload in the older \<^verbatim>\<open>protojson\<close> shape and \<open>dec\<close> an encryption
  context (\<^verbatim>\<open>jsonbutil.Unmarshal\<close>).
\<close>

section \<open>Messages\<close>

definition CronOnRunCompleted_name :: enum_table where
  "CronOnRunCompleted_name = [(0, ''delete''), (1, ''keep'')]"

interpretation CronOnRunCompleted_enum: enum CronOnRunCompleted_name
  by unfold_locales (simp_all add: CronOnRunCompleted_name_def)

definition cronsSortByToString :: "int \<Rightarrow> string" where
  "cronsSortByToString sb =
     (if sb = 1 then ''cron_id'' else if sb = 2 then ''assistant_id'' else if sb = 3 then ''thread_id''
      else if sb = 4 then ''next_run_date'' else if sb = 5 then ''end_time'' else if sb = 6 then ''created_at''
      else if sb = 7 then ''updated_at'' else [])"

definition sortOrderToString :: "int \<Rightarrow> string" where
  "sortOrderToString so = (if so = 1 then ''asc'' else ''desc'')"

record CronPB =
  kb_CronId :: string
  kb_AssistantId :: string
  kb_ThreadId :: "string option"
  kb_UserId :: "string option"
  kb_Schedule :: string
  kb_NextRunDate :: "int option"
  kb_EndTime :: "int option"
  kb_Payload :: "CronPayload option"
  kb_MetadataJson :: string
  kb_CreatedAt :: int
  kb_UpdatedAt :: int
  kb_Enabled :: bool
  kb_Timezone :: "string option"
  kb_OnRunCompleted :: "int option"

text \<open>The text of a \<^verbatim>\<open>jsonb\<close> column has no space around it, so \<^verbatim>\<open>bytes.TrimSpace\<close> does nothing.\<close>

definition decodePayload :: "env \<Rightarrow> pbenv \<Rightarrow> (json \<Rightarrow> string) \<Rightarrow> (string \<Rightarrow> CronPayload option) \<Rightarrow> string \<Rightarrow> CronPayload option" where
  "decodePayload E G sp pj raw =
     (if raw = [] \<or> raw = ''{}'' then None
      else case go_json E raw of
             Some (JObj flds) \<Rightarrow>
               if flds = [] then None
               else if isLegacyPayloadShape flds then pj raw
               else Some (payloadDictToProto E G sp flds)
           | _ \<Rightarrow> None)"

definition crons_toPB :: "env \<Rightarrow> pbenv \<Rightarrow> (json \<Rightarrow> string) \<Rightarrow> (string \<Rightarrow> CronPayload option) \<Rightarrow> Cron \<Rightarrow> CronPB" where
  "crons_toPB E G sp pj c =
     (let opt = (\<lambda>s. if s = [] then None else Some s) in
     \<lparr>kb_CronId = CronID c, kb_AssistantId = CronAssistantID c, kb_ThreadId = opt (CronThreadID c), kb_UserId = opt (CronUserID c),
      kb_Schedule = CronSchedule c, kb_NextRunDate = CronNextRunDate c, kb_EndTime = CronEndTime c,
      kb_Payload = decodePayload E G sp pj (CronPayloadJSON c), kb_MetadataJson = CronMetadata c,
      kb_CreatedAt = CronCreatedAt c, kb_UpdatedAt = CronUpdatedAt c, kb_Enabled = CronEnabled c,
      kb_Timezone = opt (CronTimezone c),
      kb_OnRunCompleted = (if CronOnRunCompleted c = [] then None else enum_value CronOnRunCompleted_name (CronOnRunCompleted c))\<rparr>)"

section \<open>Handlers\<close>

definition internal :: "err \<Rightarrow> code" where
  "internal e = Internal"

record SearchCronsRequest =
  sq_AssistantId :: "string option"
  sq_ThreadId :: "string option"
  sq_Limit :: nat
  sq_Offset :: nat
  sq_SortBy :: int
  sq_SortOrder :: int
  sq_Enabled :: "bool option"
  sq_Filters :: "auth_filter list"
  sq_ThreadFilters :: "auth_filter list"

definition cron_search_in :: "SearchCronsRequest \<Rightarrow> CronSearchInput" where
  "cron_search_in rq = \<lparr>ks_AssistantID = str_of (sq_AssistantId rq), ks_ThreadID = str_of (sq_ThreadId rq),
     ks_ThreadFilters = sq_ThreadFilters rq, ks_Limit = sq_Limit rq, ks_Offset = sq_Offset rq,
     ks_SortBy = cronsSortByToString (sq_SortBy rq), ks_SortOrder = sortOrderToString (sq_SortOrder rq), ks_Enabled = sq_Enabled rq\<rparr>"

definition crons_svc_Search :: "env \<Rightarrow> pbenv \<Rightarrow> (json \<Rightarrow> string) \<Rightarrow> (string \<Rightarrow> CronPayload option) \<Rightarrow> SearchCronsRequest \<Rightarrow> CronPB list rpc" where
  "crons_svc_Search E G sp pj rq =
     call (cron_Search E (cron_search_in rq) (sq_Filters rq)) internal (\<lambda>rows. answer (map (crons_toPB E G sp pj) rows))"

definition crons_svc_Count :: "env \<Rightarrow> string option \<Rightarrow> string option \<Rightarrow> auth_filter list \<Rightarrow> auth_filter list \<Rightarrow> nat rpc" where
  "crons_svc_Count E assistantId threadId filters threadFilters =
     call (cron_Count E \<lparr>ks_AssistantID = str_of assistantId, ks_ThreadID = str_of threadId, ks_ThreadFilters = threadFilters,
             ks_Limit = 0, ks_Offset = 0, ks_SortBy = [], ks_SortOrder = [], ks_Enabled = None\<rparr> filters) internal answer"

text \<open>The request; \<open>kq_EncryptionContext\<close> is what \<^verbatim>\<open>jsonbutil.Marshal\<close> makes of the message, if there is one.\<close>

record CreateCronRequest =
  kq_CronId :: "string option"
  kq_ThreadId :: "string option"
  kq_UserId :: "string option"
  kq_Schedule :: string
  kq_Timezone :: "string option"
  kq_Enabled :: bool
  kq_EndTime :: "int option"
  kq_Payload :: "CronPayload option"
  kq_MetadataJson :: "string option"
  kq_OnRunCompleted :: "int option"
  kq_EncryptionContext :: "(string + string) option"
  kq_Filters :: "auth_filter list"
  kq_AssistantFilters :: "auth_filter list"
  kq_ThreadFilters :: "auth_filter list"

definition create_cron_in :: "env \<Rightarrow> CreateCronRequest \<Rightarrow> string option \<Rightarrow> CreateCronInput" where
  "create_cron_in E rq enc =
     \<lparr>kc_CronID = str_of (kq_CronId rq), kc_AssistantID = (case kq_Payload rq of None \<Rightarrow> [] | Some p \<Rightarrow> cy_AssistantId p),
      kc_ThreadID = str_of (kq_ThreadId rq), kc_UserID = str_of (kq_UserId rq), kc_Schedule = kq_Schedule rq,
      kc_Timezone = str_of (kq_Timezone rq), kc_Enabled = kq_Enabled rq, kc_EndTime = kq_EndTime rq,
      kc_Payload = map_option (\<lambda>p. go_marshal E (JObj (payloadProtoToDict E (Some p)))) (kq_Payload rq),
      kc_Metadata = kq_MetadataJson rq,
      kc_OnRunCompleted = (case kq_OnRunCompleted rq of None \<Rightarrow> [] | Some v \<Rightarrow> enum_String CronOnRunCompleted_name v),
      kc_EncryptionContext = enc, kc_Filters = kq_Filters rq, kc_AssistantFilters = kq_AssistantFilters rq,
      kc_ThreadFilters = kq_ThreadFilters rq\<rparr>"

definition isScheduleParseErr :: "err \<Rightarrow> bool" where
  "isScheduleParseErr e = (case e of DbErr msg \<Rightarrow> length msg > 15 \<and> take 15 msg = ''schedule parse:'' | _ \<Rightarrow> False)"

definition cron_err :: "err \<Rightarrow> code" where
  "cron_err e = (if e = ErrNotFound then NotFound else if isScheduleParseErr e then InvalidArgument else Internal)"

definition crons_svc_Create :: "cronenv \<Rightarrow> env \<Rightarrow> pbenv \<Rightarrow> (json \<Rightarrow> string) \<Rightarrow> (string \<Rightarrow> CronPayload option) \<Rightarrow> int \<Rightarrow> string \<Rightarrow>
    CreateCronRequest \<Rightarrow> CronPB rpc" where
  "crons_svc_Create C E G sp pj clock newUUID rq =
     (let go = (\<lambda>enc. call (cron_Create C E clock newUUID (create_cron_in E rq enc)) cron_err (\<lambda>c. answer (crons_toPB E G sp pj c)))
      in case kq_EncryptionContext rq of None \<Rightarrow> go None | Some (Inl _) \<Rightarrow> refuse Internal | Some (Inr b) \<Rightarrow> go (Some b))"

record PatchCronRequest =
  pq_CronId :: string
  pq_Schedule :: "string option"
  pq_Timezone :: "string option"
  pq_Enabled :: "bool option"
  pq_EndTime :: "int option"
  pq_Payload :: "CronPayload option"
  pq_MetadataJson :: string
  pq_OnRunCompleted :: "int option"
  pq_Filters :: "auth_filter list"

definition patch_cron_in :: "env \<Rightarrow> PatchCronRequest \<Rightarrow> PatchCronInput" where
  "patch_cron_in E rq =
     \<lparr>kp_Schedule = str_of (pq_Schedule rq), kp_Timezone = str_of (pq_Timezone rq), kp_Enabled = pq_Enabled rq, kp_EndTime = pq_EndTime rq,
      kp_Payload = (case pq_Payload rq of None \<Rightarrow> [] | Some p \<Rightarrow> go_marshal E (JObj (payloadProtoToDict E (Some p)))),
      kp_Metadata = pq_MetadataJson rq, kp_OnRunCompleted = map_option (enum_String CronOnRunCompleted_name) (pq_OnRunCompleted rq)\<rparr>"

definition crons_svc_Patch :: "cronenv \<Rightarrow> env \<Rightarrow> pbenv \<Rightarrow> (json \<Rightarrow> string) \<Rightarrow> (string \<Rightarrow> CronPayload option) \<Rightarrow> int \<Rightarrow>
    PatchCronRequest \<Rightarrow> CronPB rpc" where
  "crons_svc_Patch C E G sp pj clock rq =
     call (cron_Patch C E pj clock (pq_CronId rq) (patch_cron_in E rq) (pq_Filters rq)) cron_err (\<lambda>c. answer (crons_toPB E G sp pj c))"

definition crons_svc_Delete :: "env \<Rightarrow> string \<Rightarrow> auth_filter list \<Rightarrow> unit rpc" where
  "crons_svc_Delete E cronId filters =
     call (cron_Delete E cronId filters) (\<lambda>e. if e = ErrNotFound then NotFound else Internal) answer"

definition crons_svc_Next :: "cronenv \<Rightarrow> env \<Rightarrow> pbenv \<Rightarrow> (json \<Rightarrow> string) \<Rightarrow> (string \<Rightarrow> CronPayload option) \<Rightarrow> (string \<Rightarrow> 'c option) \<Rightarrow>
    (CronPB \<times> int \<times> 'c option) list rpc" where
  "crons_svc_Next C E G sp pj dec =
     call (cron_Next C E) internal (\<lambda>cs. answer (map (\<lambda>(c, dbNow). (crons_toPB E G sp pj c, dbNow,
       case CronEncryptionContext c of None \<Rightarrow> None | Some b \<Rightarrow> if b = [] then None else dec b)) cs))"

definition crons_svc_SetNextRunDate :: "env \<Rightarrow> string \<Rightarrow> int option \<Rightarrow> unit rpc" where
  "crons_svc_SetNextRunDate E cronId nextRunDate =
     call (cron_SetNextRunDate E cronId (case nextRunDate of None \<Rightarrow> 0 | Some t \<Rightarrow> t)) internal answer"

section \<open>Scheduler\<close>

definition injectOnCompletion :: "env \<Rightarrow> string \<Rightarrow> string \<Rightarrow> string" where
  "injectOnCompletion E payload onRunCompleted =
     (if onRunCompleted \<noteq> enum_String CronOnRunCompleted_name 1 then payload
      else let inject = (\<lambda>m. if map_of m ''on_completion'' = None then m @ [(''on_completion'', JStr ''keep'')] else m)
           in case go_json E payload of
                Some (JObj m) \<Rightarrow> go_marshal E (JObj (inject m))
              | Some JNull \<Rightarrow> go_marshal E (JObj (inject []))
              | _ \<Rightarrow> payload)"

text \<open>
  \<^verbatim>\<open>json.Unmarshal\<close> into a struct with one string field, its error ignored: a field of another type is skipped and decoding goes on.
\<close>

fun str_field :: "string \<Rightarrow> dict \<Rightarrow> string \<Rightarrow> string" where
  "str_field name [] s = s"
| "str_field name ((k, v) # kvs) s = str_field name kvs (if fold_name k = name then (case v of JStr t \<Rightarrow> t | _ \<Rightarrow> s) else s)"

definition multitaskStrategyFromPayload :: "env \<Rightarrow> string \<Rightarrow> int" where
  "multitaskStrategyFromPayload E payload =
     (let strategy = (case go_json E payload of Some (JObj m) \<Rightarrow> str_field ''multitask_strategy'' m [] | _ \<Rightarrow> [])
      in case enum_value MultitaskStrategy_name strategy of Some v \<Rightarrow> v | None \<Rightarrow> 3)"

definition mergeCronMetadata :: "env \<Rightarrow> string \<Rightarrow> string \<Rightarrow> string" where
  "mergeCronMetadata E cronMetadata payload =
     (let merged = (if cronMetadata = [] then [] else case go_json E cronMetadata of Some (JObj m) \<Rightarrow> m | _ \<Rightarrow> []);
          payloadMeta = (case go_json E payload of
             Some (JObj p) \<Rightarrow> (case map_of p ''metadata'' of Some (JObj m) \<Rightarrow> m | _ \<Rightarrow> [])
           | _ \<Rightarrow> [])
      in go_marshal E (JObj (obj_merge merged payloadMeta)))"

definition cron_request :: "env \<Rightarrow> Cron \<Rightarrow> CreateRunRequest" where
  "cron_request E c =
     (let payload = injectOnCompletion E (CronPayloadJSON c) (CronOnRunCompleted c) in
     \<lparr>cq_RunId = None, cq_ThreadId = CronThreadID c, cq_AssistantId = CronAssistantID c, cq_Status = 0,
      cq_KwargsJson = Some payload, cq_MetadataJson = Some (mergeCronMetadata E (CronMetadata c) payload),
      cq_MultitaskStrategy = multitaskStrategyFromPayload E payload, cq_AfterSeconds = 0, cq_UserId = CronUserID c,
      cq_IfNotExists = 1, cq_EncryptionContext = None, cq_ThreadFilters = [], cq_AssistantFilters = []\<rparr>)"

type_synonym 'r runs_creator = "nat \<Rightarrow> CreateRunRequest \<Rightarrow> 'r rpc"

text \<open>The loop over the claimed crons; an error of \<^verbatim>\<open>Create\<close> is logged and the loop goes on.\<close>

fun create_runs :: "env \<Rightarrow> 'r runs_creator \<Rightarrow> nat \<Rightarrow> (Cron \<times> int) list \<Rightarrow> world \<Rightarrow> world" where
  "create_runs E rc n [] w = w"
| "create_runs E rc n ((c, dbNow) # rest) w = create_runs E rc (n + 1) rest (snd (rc n (cron_request E c) w))"

text \<open>
  One tick: a connection, the advisory lock (\<open>leader\<close>: whether this replica got it), the due crons and their runs, and the unlock, whose error
  is ignored.
\<close>

definition schedulerTick :: "cronenv \<Rightarrow> env \<Rightarrow> 'r runs_creator \<Rightarrow> bool \<Rightarrow> unit op" where
  "schedulerTick C E rc leader =
     bnd (query (\<lambda>_ d. Inr ())) (\<lambda>_.
     bnd (query (\<lambda>_ d. Inr leader)) (\<lambda>locked.
     if \<not> locked then ret ()
     else bnd (attempt (bnd (cron_Next C E) (\<lambda>due w. (Inr (), create_runs E rc 0 due w)))) (\<lambda>res.
          bnd (attempt (query (\<lambda>_ d. Inr ()))) (\<lambda>_. lift res))))"

end
