(* ===== verification/Assistants_Service.thy ===== *)
theory Assistants_Service
  imports Assistants_Store Crons_Service
begin

text \<open>
  The assistant service (\<^verbatim>\<open>internal/assistants/service.go\<close>): handlers on top of the assistant store. The codec of configurations is the one of the
  cron payloads; \<open>cj\<close> decodes a configuration in the older \<^verbatim>\<open>protojson\<close> shape.
\<close>

section \<open>Messages\<close>

definition asst_mapErr :: "err \<Rightarrow> code" where
  "asst_mapErr e = (case e of ErrNotFound \<Rightarrow> NotFound | ErrAlreadyExists \<Rightarrow> AlreadyExists | _ \<Rightarrow> Internal)"

definition assistantsSortByName :: "int \<Rightarrow> string" where
  "assistantsSortByName sb =
     (if sb = 1 then ''assistant_id'' else if sb = 2 then ''graph_id'' else if sb = 3 then ''name''
      else if sb = 4 then ''created_at'' else if sb = 5 then ''updated_at'' else [])"

definition legacyOnlyConfigKeys :: "string list" where
  "legacyOnlyConfigKeys = [''metadata_json'', ''extra_json'', ''extra_configurable_json'', ''runtime'', ''resuming'', ''task_id'', ''thread_id'',
     ''checkpoint_map'', ''checkpoint_id'', ''checkpoint_ns'', ''durability'', ''resume_map'', ''graph_id'', ''root_stream_modes'', ''run_attempt'',
     ''server_run_id'', ''tracing_project'', ''tracing_example_id'']"

definition isLegacyConfigShape :: "dict \<Rightarrow> bool" where
  "isLegacyConfigShape m = list_ex (\<lambda>k. k \<in> set legacyOnlyConfigKeys) (map fst m)"

text \<open>As in the cron service, the text of a \<^verbatim>\<open>jsonb\<close> column has no space around it, so \<^verbatim>\<open>bytes.TrimSpace\<close> does nothing.\<close>

definition decodeConfig :: "env \<Rightarrow> pbenv \<Rightarrow> (json \<Rightarrow> string) \<Rightarrow> (string \<Rightarrow> RunnableConfig option) \<Rightarrow> string \<Rightarrow> RunnableConfig option" where
  "decodeConfig E G sp cj raw =
     (if raw = [] \<or> raw = ''{}'' then None
      else case go_json E raw of
             Some (JObj flds) \<Rightarrow>
               if flds = [] then None
               else (case (if isLegacyConfigShape flds then cj raw else ConfigDictToProto E G sp flds) of
                       None \<Rightarrow> None
                     | Some cfg \<Rightarrow> if cfg = empty_config then None else Some cfg)
           | _ \<Rightarrow> None)"

record AssistantPB =
  ab_AssistantId :: string
  ab_GraphId :: string
  ab_Version :: nat
  ab_CreatedAt :: int
  ab_UpdatedAt :: int
  ab_Name :: string
  ab_MetadataJson :: string
  ab_ContextJson :: string
  ab_Config :: "RunnableConfig option"
  ab_Description :: "string option"

record AssistantVersionPB =
  vb_AssistantId :: string
  vb_GraphId :: string
  vb_Name :: string
  vb_Version :: nat
  vb_CreatedAt :: int
  vb_MetadataJson :: string
  vb_ContextJson :: string
  vb_Config :: "RunnableConfig option"
  vb_Description :: "string option"

definition uint64 :: "int \<Rightarrow> nat" where
  "uint64 n = nat (n mod 2 ^ 64)"

definition asst_toPB :: "env \<Rightarrow> pbenv \<Rightarrow> (json \<Rightarrow> string) \<Rightarrow> (string \<Rightarrow> RunnableConfig option) \<Rightarrow> Assistant \<Rightarrow> AssistantPB" where
  "asst_toPB E G sp cj a =
     \<lparr>ab_AssistantId = AsstID a, ab_GraphId = AsstGraphID a, ab_Version = uint64 (AsstVersion a), ab_CreatedAt = AsstCreatedAt a,
      ab_UpdatedAt = AsstUpdatedAt a, ab_Name = AsstName a, ab_MetadataJson = AsstMetadata a, ab_ContextJson = AsstContextJSON a,
      ab_Config = decodeConfig E G sp cj (AsstConfig a), ab_Description = AsstDescription a\<rparr>"

definition toVersionPB :: "env \<Rightarrow> pbenv \<Rightarrow> (json \<Rightarrow> string) \<Rightarrow> (string \<Rightarrow> RunnableConfig option) \<Rightarrow> AssistantVersion \<Rightarrow> AssistantVersionPB" where
  "toVersionPB E G sp cj v =
     \<lparr>vb_AssistantId = AvAssistantID v, vb_GraphId = AvGraphID v, vb_Name = AvName v, vb_Version = uint64 (AvVersion v),
      vb_CreatedAt = AvCreatedAt v, vb_MetadataJson = AvMetadata v, vb_ContextJson = AvContextJSON v,
      vb_Config = decodeConfig E G sp cj (AvConfig v), vb_Description = AvDescription v\<rparr>"

section \<open>Handlers\<close>

definition asst_svc_Get :: "env \<Rightarrow> pbenv \<Rightarrow> (json \<Rightarrow> string) \<Rightarrow> (string \<Rightarrow> RunnableConfig option) \<Rightarrow> string \<Rightarrow> auth_filter list \<Rightarrow> AssistantPB rpc" where
  "asst_svc_Get E G sp cj assistantId filters =
     call (asst_Get E assistantId filters) asst_mapErr (\<lambda>a. answer (asst_toPB E G sp cj a))"

record SearchAssistantsRequest =
  aq_GraphId :: "string option"
  aq_Name :: "string option"
  aq_MetadataJson :: string
  aq_Limit :: nat
  aq_Offset :: nat
  aq_SortBy :: "int option"
  aq_SortOrder :: "int option"
  aq_Filters :: "auth_filter list"

definition asst_search_in :: "SearchAssistantsRequest \<Rightarrow> AsstSearchInput" where
  "asst_search_in rq = \<lparr>as_GraphID = str_of (aq_GraphId rq), as_Name = str_of (aq_Name rq), as_MetadataFilter = aq_MetadataJson rq,
     as_Limit = aq_Limit rq, as_Offset = aq_Offset rq,
     as_SortBy = (case aq_SortBy rq of None \<Rightarrow> [] | Some sb \<Rightarrow> assistantsSortByName sb),
     as_SortOrder = (case aq_SortOrder rq of None \<Rightarrow> [] | Some so \<Rightarrow> if so = 1 then ''asc'' else ''desc'')\<rparr>"

definition asst_svc_Search :: "env \<Rightarrow> pbenv \<Rightarrow> (json \<Rightarrow> string) \<Rightarrow> (string \<Rightarrow> RunnableConfig option) \<Rightarrow> SearchAssistantsRequest \<Rightarrow> AssistantPB list rpc" where
  "asst_svc_Search E G sp cj rq =
     call (asst_Search E (asst_search_in rq) (aq_Filters rq)) asst_mapErr (\<lambda>rows. answer (map (asst_toPB E G sp cj) rows))"

definition asst_svc_Count :: "env \<Rightarrow> string option \<Rightarrow> string option \<Rightarrow> string \<Rightarrow> auth_filter list \<Rightarrow> nat rpc" where
  "asst_svc_Count E graphId name metadataJson filters =
     call (asst_Count E \<lparr>as_GraphID = str_of graphId, as_Name = str_of name, as_MetadataFilter = metadataJson, as_Limit = 0, as_Offset = 0,
             as_SortBy = [], as_SortOrder = []\<rparr> filters) asst_mapErr answer"

definition asst_svc_GetVersions :: "env \<Rightarrow> pbenv \<Rightarrow> (json \<Rightarrow> string) \<Rightarrow> (string \<Rightarrow> RunnableConfig option) \<Rightarrow> string \<Rightarrow> nat \<Rightarrow> nat \<Rightarrow> string \<Rightarrow>
    auth_filter list \<Rightarrow> AssistantVersionPB list rpc" where
  "asst_svc_GetVersions E G sp cj assistantId limit offset metadataJson filters =
     call (asst_GetVersions E assistantId limit offset metadataJson filters) asst_mapErr (\<lambda>vs. answer (map (toVersionPB E G sp cj) vs))"

record CreateAssistantRequest =
  nq_AssistantId :: string
  nq_GraphId :: string
  nq_Name :: string
  nq_Description :: "string option"
  nq_Config :: "RunnableConfig option"
  nq_ContextJson :: "string option"
  nq_MetadataJson :: "string option"
  nq_IfExists :: int
  nq_Filters :: "auth_filter list"

definition asst_create_in :: "env \<Rightarrow> CreateAssistantRequest \<Rightarrow> AsstCreateInput" where
  "asst_create_in E rq =
     \<lparr>ac_AssistantID = nq_AssistantId rq, ac_GraphID = nq_GraphId rq, ac_Name = nq_Name rq, ac_Description = nq_Description rq,
      ac_Config = map_option (\<lambda>c. go_marshal E (JObj (ConfigProtoToDict E (Some c)))) (nq_Config rq),
      ac_ContextJSON = nq_ContextJson rq, ac_Metadata = nq_MetadataJson rq,
      ac_IfExists = (if nq_IfExists rq = 1 then ''do_nothing'' else ''raise''), ac_Filters = nq_Filters rq\<rparr>"

definition asst_svc_Create :: "env \<Rightarrow> pbenv \<Rightarrow> (json \<Rightarrow> string) \<Rightarrow> (string \<Rightarrow> RunnableConfig option) \<Rightarrow> uuid \<Rightarrow> CreateAssistantRequest \<Rightarrow> AssistantPB rpc" where
  "asst_svc_Create E G sp cj gen rq =
     call (asst_Create E gen (asst_create_in E rq)) asst_mapErr (\<lambda>a. answer (asst_toPB E G sp cj a))"

record PatchAssistantRequest =
  hq_AssistantId :: string
  hq_Name :: "string option"
  hq_Description :: "string option"
  hq_GraphId :: "string option"
  hq_Config :: "RunnableConfig option"
  hq_ContextJson :: string
  hq_MetadataJson :: string
  hq_Filters :: "auth_filter list"

definition asst_patch_in :: "env \<Rightarrow> PatchAssistantRequest \<Rightarrow> AsstPatchInput" where
  "asst_patch_in E rq =
     \<lparr>ap_Name = hq_Name rq, ap_Description = hq_Description rq, ap_GraphID = str_of (hq_GraphId rq),
      ap_Config = (case hq_Config rq of None \<Rightarrow> [] | Some c \<Rightarrow> go_marshal E (JObj (ConfigProtoToDict E (Some c)))),
      ap_ContextJSON = hq_ContextJson rq, ap_Metadata = hq_MetadataJson rq\<rparr>"

definition asst_svc_Patch :: "env \<Rightarrow> pbenv \<Rightarrow> (json \<Rightarrow> string) \<Rightarrow> (string \<Rightarrow> RunnableConfig option) \<Rightarrow> PatchAssistantRequest \<Rightarrow> AssistantPB rpc" where
  "asst_svc_Patch E G sp cj rq =
     call (asst_Patch E (hq_AssistantId rq) (asst_patch_in E rq) (hq_Filters rq)) asst_mapErr (\<lambda>a. answer (asst_toPB E G sp cj a))"

definition asst_svc_Delete :: "env \<Rightarrow> string \<Rightarrow> bool \<Rightarrow> auth_filter list \<Rightarrow> string list rpc" where
  "asst_svc_Delete E assistantId deleteThreads filters = call (asst_Delete E assistantId deleteThreads filters) asst_mapErr answer"

definition asst_svc_SetLatest :: "env \<Rightarrow> pbenv \<Rightarrow> (json \<Rightarrow> string) \<Rightarrow> (string \<Rightarrow> RunnableConfig option) \<Rightarrow> string \<Rightarrow> int \<Rightarrow> auth_filter list \<Rightarrow> AssistantPB rpc" where
  "asst_svc_SetLatest E G sp cj assistantId version filters =
     call (asst_SetLatest E assistantId version filters) asst_mapErr (\<lambda>a. answer (asst_toPB E G sp cj a))"

end
