(* ===== verification/Runs_Signals.thy ===== *)
theory Runs_Signals
  imports Runs_Service
begin

text \<open>
  What the handlers of the run service promise across the store and Redis: who is signalled by a cancellation, who is woken
  by a sweep, what a worker reads from a signal, when a control stream ends, what a client of a run's stream sees.
\<close>

section \<open>Commands that reach Redis\<close>

definition svc_up :: "svc \<Rightarrow> bool" where
  "svc_up S \<longleftrightarrow> sv_rdb S \<and> sv_streamer S \<and> (\<forall>c. sv_redis_err S c = None)"

lemma fire_all_up:
  assumes "svc_up S"
  shows "fire_all S cs w = w\<lparr>redis := redis w @ cs\<rparr>"
  using assms by (induction cs arbitrary: w) (simp_all add: fire_all_def fire_def svc_up_def)

lemma redis_fire_all_prefix: "\<exists>cs'. redis (fire_all S cs w) = redis w @ cs' \<and> set cs' \<subseteq> set cs"
proof (induction cs arbitrary: w)
  case Nil
  show ?case by (simp add: fire_all_def)
next
  case (Cons c cs)
  obtain cs' where "redis (fire_all S cs (fire S c w)) = redis (fire S c w) @ cs'" "set cs' \<subseteq> set cs"
    using Cons.IH by blast
  then show ?case
    by (auto simp: fire_all_def fire_def intro: exI[of _ "c # cs'"] exI[of _ cs'])
qed

text \<open>Stored ids are their own parse, for the UUID library and for the database.\<close>

definition ids_parse :: "env \<Rightarrow> db \<Rightarrow> bool" where
  "ids_parse E d = (\<forall>r \<in> set (runs d). go_uuid E (r_run_id r) = Some (r_run_id r))"

definition control_payload :: "env \<Rightarrow> string \<Rightarrow> string" where
  "control_payload E action = go_marshal E (JObj [(''signal'', JStr action)])"

lemma signals_set:
  assumes "svc_up S" and "\<forall>r \<in> set results. go_uuid E (cx_RunID r) = Some (cx_RunID r)"
  shows "set (publishCancelSignals E S results action) =
    (\<Union>r \<in> {r \<in> set results. \<not> cx_Deleted r}. {SetKey (RunControlChannel (cx_RunID r)) action 60,
       PublishMsg (RunControlChannel (cx_RunID r)) (control_payload E action)})"
  using assms by (auto simp: publishCancelSignals_def svc_up_def control_payload_def split: if_splits)

lemma terminals_set:
  assumes "svc_up S" and "\<forall>r \<in> set results. go_uuid E (cx_RunID r) = Some (cx_RunID r)"
  shows "set (publishCancelTerminals E S results) =
    (\<lambda>r. PublishMsg (RunTerminalChannel (cx_RunID r)) ''done'') ` {r \<in> set results. cx_Terminal r}"
  using assms by (auto simp: publishCancelTerminals_def publishTerminalDone_def svc_up_def)

lemma cancel_results:
  assumes "faults w = []" and "db_ok (db w)" and "auth_ok E fs" and "ids \<noteq> []"
    and "\<forall>s \<in> set ids. pg_uuid E s \<noteq> None" and "tid = [] \<or> pg_uuid E tid \<noteq> None"
  obtains results w1 where "run_CancelWithAction E ids tid action fs w = (Inr results, w1)"
    and "redis w1 = redis w" and "faults w1 = []"
    and "set results =
      (\<lambda>r. \<lparr>cx_RunID = r_run_id r, cx_Deleted = (action = ''rollback''), cx_Terminal = True\<rparr>) `
        {r \<in> set (runs (db w)). cancel_scope E ids tid fs (db w) r \<and> r_status r = ''pending''} \<union>
      (\<lambda>r. \<lparr>cx_RunID = r_run_id r, cx_Deleted = False, cx_Terminal = False\<rparr>) `
        {r \<in> set (runs (db w)). cancel_scope E ids tid fs (db w) r \<and> r_status r = ''running''}"
  using cancel_run[OF assms, of action] assms(1) that by (simp add: Let_def)

text \<open>
  (C14) A cancellation by ids, with the database and Redis answering, signals exactly the right runs. Every running run in scope gets the
  control key (60 seconds) and a message on its control channel; a pending run in scope gets them too unless it was
  deleted, and in either case the message \<^verbatim>\<open>done\<close> on its terminal channel; no other command is sent.
\<close>

theorem cancel_signals:
  assumes "faults w = []" and "db_ok (db w)" and "auth_ok E fs" and "ids \<noteq> []"
    and "\<forall>s \<in> set ids. pg_uuid E s \<noteq> None" and "case tid of None \<Rightarrow> True | Some t \<Rightarrow> pg_uuid E t \<noteq> None"
    and "svc_up S" and "ids_parse E (db w)"
  shows "\<exists>cs. redis (snd (runs_svc_Cancel E S act (CancelRunIds ids tid) fs w)) = redis w @ cs \<and>
    (let action = (if act = Some 1 then ''rollback'' else ''interrupt'');
         scope = (\<lambda>r. cancel_scope E ids (case tid of None \<Rightarrow> [] | Some t \<Rightarrow> t) fs (db w) r);
         pend = {r \<in> set (runs (db w)). scope r \<and> r_status r = ''pending''};
         run = {r \<in> set (runs (db w)). scope r \<and> r_status r = ''running''};
         told = (if action = ''rollback'' then run else run \<union> pend)
     in set cs = (\<Union>r \<in> told. {SetKey (RunControlChannel (r_run_id r)) action 60,
                                 PublishMsg (RunControlChannel (r_run_id r)) (control_payload E action)}) \<union>
                 (\<lambda>r. PublishMsg (RunTerminalChannel (r_run_id r)) ''done'') ` pend)"
proof -
  define action where "action = (if act = Some 1 then ''rollback'' else ''interrupt'' :: string)"
  define tidv where "tidv = (case tid of None \<Rightarrow> [] | Some t \<Rightarrow> t)"
  define scope where "scope = cancel_scope E ids tidv fs (db w)"
  define pend where "pend = {r \<in> set (runs (db w)). scope r \<and> r_status r = ''pending''}"
  define run where "run = {r \<in> set (runs (db w)). scope r \<and> r_status r = ''running''}"
  have t: "tidv = [] \<or> pg_uuid E tidv \<noteq> None"
    using assms(6) by (auto simp: tidv_def split: option.splits)
  obtain results w1 where c: "run_CancelWithAction E ids tidv action fs w = (Inr results, w1)"
    and r1: "redis w1 = redis w" and
    rs: "set results = (\<lambda>r. \<lparr>cx_RunID = r_run_id r, cx_Deleted = (action = ''rollback''), cx_Terminal = True\<rparr>) ` pend \<union>
      (\<lambda>r. \<lparr>cx_RunID = r_run_id r, cx_Deleted = False, cx_Terminal = False\<rparr>) ` run"
    unfolding pend_def run_def scope_def by (rule cancel_results[OF assms(1-5) t])
  have parse: "\<forall>r \<in> set results. go_uuid E (cx_RunID r) = Some (cx_RunID r)"
    using assms(8) rs by (auto simp: ids_parse_def pend_def run_def)
  define cs where "cs = publishCancelSignals E S results action @ publishCancelTerminals E S results"
  have log: "redis (snd (runs_svc_Cancel E S act (CancelRunIds ids tid) fs w)) = redis w @ cs"
    using c r1 by (simp add: runs_svc_Cancel_def Let_def call_def action_def[symmetric] tidv_def[symmetric]
        fire_all_up[OF assms(7)] cs_def answer_def refuse_def)
  have kept: "{r \<in> set results. \<not> cx_Deleted r} =
      (if action = ''rollback'' then {} else (\<lambda>r. \<lparr>cx_RunID = r_run_id r, cx_Deleted = False, cx_Terminal = True\<rparr>) ` pend) \<union>
      (\<lambda>r. \<lparr>cx_RunID = r_run_id r, cx_Deleted = False, cx_Terminal = False\<rparr>) ` run"
    unfolding rs by auto
  have fin: "{r \<in> set results. cx_Terminal r} =
      (\<lambda>r. \<lparr>cx_RunID = r_run_id r, cx_Deleted = (action = ''rollback''), cx_Terminal = True\<rparr>) ` pend"
    unfolding rs by auto
  have "set cs = (\<Union>r \<in> (if action = ''rollback'' then run else run \<union> pend).
        {SetKey (RunControlChannel (r_run_id r)) action 60,
         PublishMsg (RunControlChannel (r_run_id r)) (control_payload E action)}) \<union>
      (\<lambda>r. PublishMsg (RunTerminalChannel (r_run_id r)) ''done'') ` pend"
    unfolding cs_def set_append signals_set[OF assms(7) parse] terminals_set[OF assms(7) parse] kept fin
    by (auto simp: image_image)
  with log show ?thesis
    by (simp add: action_def pend_def run_def scope_def tidv_def Let_def)
qed

text \<open>
  Both encodings of a control signal are read the same. For either action, the JSON payload that \<^verbatim>\<open>Cancel\<close> publishes and
  the plain text it stores under the control key (and that Python workers publish) are parsed by \<^verbatim>\<open>Enter\<close> to the enum value of that
  action, given that the JSON library reads back what it wrote and rejects a bare word.
\<close>

theorem control_signal_roundtrip:
  assumes "go_json E (control_payload E action) = Some (JObj [(''signal'', JStr action)])" and "go_json E action = None"
    and "action = ''interrupt'' \<or> action = ''rollback''"
  shows "parseControlSignal E (control_payload E action) = parseControlSignal E action \<and>
    enum_String ControlSignal_name (parseControlSignal E action) = action"
proof -
  have "fold_name ''signal'' = ''signal''" by (simp add: lower_def)
  with assms show ?thesis
    by (auto simp: parseControlSignal_def unmarshal_signal_def ControlSignal_name_def
        enum_value_def enum_String_def)
qed

text \<open>A concrete environment in which the object of a control signal has its JSON text.\<close>

definition signal_env :: "string \<Rightarrow> env" where
  "signal_env action = sample_env\<lparr>
     go_marshal := (\<lambda>j. if j = JObj [(''signal'', JStr action)] then ''{\"signal\":\"'' @ action @ ''\"}'' else ''null''),
     go_json := (\<lambda>s. if s = ''{\"signal\":\"'' @ action @ ''\"}'' then Some (JObj [(''signal'', JStr action)]) else None)\<rparr>"

theorem control_signal_roundtrip_witness:
  "parseControlSignal (signal_env ''rollback'') (control_payload (signal_env ''rollback'') ''rollback'') =
   parseControlSignal (signal_env ''rollback'') ''rollback''"
  using control_signal_roundtrip[of "signal_env ''rollback''" "''rollback''"]
  by (simp add: signal_env_def control_payload_def)

definition sample_svc :: svc where
  "sample_svc = \<lparr>sv_rdb = True, sv_streamer = True, sv_cfg = None, sv_redis_err = (\<lambda>_. None)\<rparr>"

lemma sample_svc_up: "svc_up sample_svc"
  by (simp add: svc_up_def sample_svc_def)

lemma sample_ids_parse: "ids_parse sample_env (db sample_world)"
  by (simp add: ids_parse_def sample_defs)

theorem cancel_signals_witness:
  "PublishMsg (RunTerminalChannel ''r1'') ''done'' \<in>
     set (redis (snd (runs_svc_Cancel sample_env sample_svc None (CancelRunIds [''r1''] None) [] sample_world)))"
proof -
  have r1: "row_r1 \<in> set (runs (db sample_world))" "r_status row_r1 = ''pending''" "r_run_id row_r1 = ''r1''"
    by (simp_all add: sample_defs)
  have sc: "cancel_scope sample_env [''r1''] [] [] (db sample_world) row_r1"
    by (simp add: cancel_scope_def sample_defs)
  obtain cs where log: "redis (snd (runs_svc_Cancel sample_env sample_svc None (CancelRunIds [''r1''] None) [] sample_world)) =
      redis sample_world @ cs" and
    mem: "(\<lambda>r. PublishMsg (RunTerminalChannel (r_run_id r)) ''done'') ` {r \<in> set (runs (db sample_world)).
      cancel_scope sample_env [''r1''] [] [] (db sample_world) r \<and> r_status r = ''pending''} \<subseteq> set cs"
    using cancel_signals[OF sample_faults sample_ok, of sample_env "[]" "[''r1'']" None sample_svc None]
      sample_svc_up sample_ids_parse by (auto simp: auth_ok_def sample_env_def Let_def)
  from r1 sc have "PublishMsg (RunTerminalChannel ''r1'') ''done'' \<in> set cs"
    by (intro subsetD[OF mem]) (force simp: image_iff)
  with log show ?thesis by simp
qed

section \<open>Waking workers\<close>

text \<open>
  A sweep wakes the workers: with the database and Redis answering, the RPC and a tick of the reaper requeue every expired run and push
  its id, once and in the order of the table, onto the work queue.
\<close>

theorem sweep_wakes:
  assumes "faults w = []" and "db_ok (db w)" and "svc_up S"
  shows "\<exists>w'. runs_svc_Sweep S w = (Inr (map r_run_id (filter (expired (now w)) (runs (db w)))), w') \<and>
    reaper_tick S w = w' \<and>
    redis w' = redis w @ map (\<lambda>r. RPush RunQueueKey (r_run_id r)) (filter (expired (now w)) (runs (db w))) \<and>
    db w' = upd_runs (\<lambda>r. expired (now w) r) (requeue (now w)) (db w)"
proof -
  let ?ks = "map r_run_id (filter (expired (now w)) (runs (db w)))"
  obtain w1 where run: "run_Sweep w = (Inr (None, ?ks), w1)" and
      d: "db w1 = upd_runs (\<lambda>r. r_run_id r \<in> set ?ks) (requeue (now w)) (db w)"
    using sweep_spec[OF assms(2)] assms(1) by auto
  have "r_run_id r \<in> set ?ks \<longleftrightarrow> expired (now w) r" if "r \<in> set (runs (db w))" for r
    using that assms(2) by (auto simp: db_ok_def keys_ok_def dest: distinct_key_unique)
  then have d': "db w1 = upd_runs (\<lambda>r. expired (now w) r) (requeue (now w)) (db w)"
    unfolding d by (intro upd_runs_cong) simp
  have r: "redis w1 = redis w"
    using sweep_redis[OF run] .
  show ?thesis
    using run r d' assms(3)
    by (simp add: runs_svc_Sweep_def reaper_tick_def fire_all_up[OF assms(3)] answer_def svc_up_def comp_def)
qed

theorem sweep_wakes_witness:
  "\<exists>w'. runs_svc_Sweep sample_svc sample_world = (Inr [''r3''], w') \<and> redis w' = [RPush RunQueueKey ''r3'']"
  using sweep_wakes[OF sample_faults sample_ok sample_svc_up] sample_expired
  by (auto simp: sample_world_def) (simp add: sample_defs)

text \<open>
  A sweep that fails half way forgets whom to wake. When the connection is lost after the first of two expired runs
  was returned to the queue, the handler answers \<^verbatim>\<open>Internal\<close> and pushes nothing, so that run is pending in the database
  with no wake-up; the reaper does the same.
\<close>

definition two_expired :: world where
  "two_expired = sample_world\<lparr>db := sample_db\<lparr>runs := [
      (sample_run ''r3'' ''t2'' ''running'' 5)\<lparr>r_lease_expires_at := Some 50\<rparr>,
      (sample_run ''r4'' ''t1'' ''running'' 6)\<lparr>r_lease_expires_at := Some 60\<rparr>]\<rparr>,
    faults := replicate 6 None @ [Some ''conn closed'']\<rparr>"

theorem sweep_partial_loses_wakeups:
  "(case runs_svc_Sweep sample_svc two_expired of (a, w') \<Rightarrow>
      a = Inl (StatusError Internal) \<and> redis w' = [] \<and>
      map (\<lambda>r. (r_run_id r, r_status r)) (runs (db w')) = [(''r3'', ''pending''), (''r4'', ''running'')]) \<and>
   redis (reaper_tick sample_svc two_expired) = []"
  by code_simp

section \<open>Displaced runs\<close>

lemma calm_Create: "calm (run_Create E nt gen ci tf af)"
  unfolding run_Create_def Let_def assistant_guard_def thread_guard_def auto_create_thread_def touch_thread_def multitask_guard_def
  by (intro calm_intro)

lemma fire_frame [simp]: "db (fire S c w) = db w" "faults (fire S c w) = faults w" "now (fire S c w) = now w"
  by (simp_all add: fire_def)

lemma fire_all_frame [simp]: "db (fire_all S cs w) = db w" "faults (fire_all S cs w) = faults w"
  by (induction cs arbitrary: w) (simp_all add: fire_all_def)

text \<open>Where a row after a cancellation comes from.\<close>

lemma cancelled_row:
  assumes "x \<in> set (runs (upd_runs R mark (if roll then del_runs P d else upd_runs P f d)))"
    and "\<And>r. r_run_id (mark r) = r_run_id r \<and> r_thread_id (mark r) = r_thread_id r"
    and "\<And>r. r_run_id (f r) = r_run_id r \<and> r_thread_id (f r) = r_thread_id r \<and> \<not> R (f r)"
  shows "\<exists>z \<in> set (runs d). r_run_id z = r_run_id x \<and> r_thread_id z = r_thread_id x \<and>
    (x = z \<and> \<not> P z \<and> \<not> R z \<or> x = f z \<and> P z \<or> x = mark z \<and> R z)"
  using assms by (cases roll) (auto split: if_splits)

lemma displace_effect:
  assumes "faults w = []" and "db_ok (db w)" and "strategy = ''interrupt'' \<or> strategy = ''rollback''" and "ids \<noteq> []"
    and "\<forall>i \<in> set ids. pg_uuid E i = Some i" and "pg_uuid E tid = Some tid" and "tid \<noteq> []"
    and "\<forall>x \<in> set (runs (db w)). r_thread_id x = tid \<and> inflight x \<and> r_run_id x \<noteq> new \<longrightarrow> r_run_id x \<in> set ids"
    and "x \<in> set (runs (db (displace E S strategy tid ids w)))" "r_thread_id x = tid" "r_run_id x \<noteq> new"
  shows "r_status x \<noteq> ''pending'' \<and> (r_status x = ''running'' \<longrightarrow> r_cancel_requested_at x \<noteq> None)"
proof -
  define Q where "Q = cancel_scope E ids tid [] (db w)"
  define P where "P = (\<lambda>r. Q r \<and> r_status r = ''pending'')"
  define R where "R = (\<lambda>r. Q r \<and> r_status r = ''running'')"
  define f where "f = (\<lambda>r. r\<lparr>r_status := ''interrupted'', r_cancel_requested_at := Some (now w), r_updated_at := now w\<rparr> :: run_row)"
  define mark where "mark = (\<lambda>r. r\<lparr>r_cancel_requested_at := Some (now w), r_updated_at := now w\<rparr> :: run_row)"
  have q: "Q z" if "r_run_id z \<in> set ids" "r_thread_id z = tid" for z
    using that assms(5,6) by (force simp: Q_def cancel_scope_def image_iff)
  have ok: "\<forall>s \<in> set ids. pg_uuid E s \<noteq> None" "auth_ok E []" "tid = [] \<or> pg_uuid E tid \<noteq> None"
    using assms(5,6) by (auto simp: auth_ok_def)
  have "db (displace E S strategy tid ids w) =
      upd_runs R mark (if strategy = ''rollback'' then del_runs P (db w) else upd_runs P f (db w))"
    using cancel_run[OF assms(1,2) ok(2) assms(4) ok(1,3), of strategy] assms(3,4)
    by (auto simp: displace_def Let_def P_def R_def Q_def f_def mark_def)
  with assms(9) obtain z where z: "z \<in> set (runs (db w))" "r_run_id z = r_run_id x" "r_thread_id z = r_thread_id x"
      "x = z \<and> \<not> P z \<and> \<not> R z \<or> x = f z \<and> P z \<or> x = mark z \<and> R z"
    using cancelled_row[of x R mark "strategy = ''rollback''" P "db w" f] by (auto simp: mark_def f_def R_def)
  have "\<not> P z \<and> \<not> R z \<longrightarrow> \<not> inflight z"
    using assms(8,10,11) z(1-3) q[of z] by (auto simp: P_def R_def inflight_def)
  with z(4) show ?thesis
    by (auto simp: f_def mark_def R_def P_def inflight_def)
qed

text \<open>
  (C15) The multitask strategies \<^verbatim>\<open>interrupt\<close> and \<^verbatim>\<open>rollback\<close> leave the new run alone on its thread: once \<^verbatim>\<open>Create\<close> has answered, every other run of the thread
  is no longer pending, and if it is still running it has been asked to stop. The database must not fail meanwhile, since the
  handler ignores an error of the cancellation.
\<close>

theorem create_displaces:
  assumes "runs_svc_Create E S nt gen rq w = (Inr pbs, w')" and "faults w = []" and "db_ok (db w)"
    and "enum_String MultitaskStrategy_name (cq_MultitaskStrategy rq) \<in> {''interrupt'', ''rollback''}"
    and "canonical E (db w)" and "uuid_idem E" and "pg_uuid E [] = None"
  shows "\<exists>r. pbs = [runs_toPB (scanRun r)] \<and> r_run_id r \<notin> r_run_id ` set (runs (db w)) \<and>
    (\<forall>x \<in> set (runs (db w')). r_thread_id x = r_thread_id r \<and> r_run_id x \<noteq> r_run_id r \<longrightarrow>
       r_status x \<noteq> ''pending'' \<and> (r_status x = ''running'' \<longrightarrow> r_cancel_requested_at x \<noteq> None))"
proof -
  define st where "st = enum_String MultitaskStrategy_name (cq_MultitaskStrategy rq)"
  obtain enc res w1 w2 where c: "run_Create E nt gen (create_in rq enc) (cq_ThreadFilters rq) (cq_AssistantFilters rq) w = (Inr res, w1)"
    and p: "pbs = [runs_toPB (cr_Run res)]" and
    w2: "w2 = (if sv_rdb S \<and> cq_AfterSeconds rq = 0 then fire S (RPush RunQueueKey (RunID (cr_Run res))) w1 else w1)" and
    w': "w' = displace E S st (RunThreadID (cr_Run res)) (cr_InflightRunIDs res) w2"
    using assms(1)
    by (auto simp: runs_svc_Create_def Let_def call_def refuse_def answer_def st_def split: option.splits sum.splits prod.splits)
  have ms: "ci_MultitaskStrategy (create_input nt (create_in rq enc)) = st"
    using assms(4) by (auto simp: create_input_def create_defaults_def create_in_def st_def Let_def)
  obtain tid r where t: "pg_uuid E (ci_ThreadID (create_input nt (create_in rq enc))) = Some tid" and
    r: "runs (db w1) = runs (db w) @ [r]" "cr_Run res = scanRun r" "r_run_id r \<notin> r_run_id ` set (runs (db w))"
      "r_thread_id r = tid" "cr_InflightRunIDs res = inflight_on tid (db w)"
    using create_spec[OF c] ms assms(4)[folded st_def] by auto
  have w1: "faults w1 = []" "db_ok (db w1)"
    using calm_Create assms(2) c integrity.keeps_all(1) assms(3) unfolding calm_def keeps_def by (metis snd_conv)+
  have tid: "pg_uuid E tid = Some tid" "tid \<noteq> []"
    using assms(6,7) t by (auto simp: uuid_idem_def)
  have w2': "db w2 = db w1" "faults w2 = []" using w2 w1 by auto
  have "r_status x \<noteq> ''pending'' \<and> (r_status x = ''running'' \<longrightarrow> r_cancel_requested_at x \<noteq> None)"
    if x: "x \<in> set (runs (db w'))" "r_thread_id x = tid" "r_run_id x \<noteq> r_run_id r" for x
  proof (cases "inflight_on tid (db w) = []")
    case True
    then have "w' = w2" using w' r(5) by (simp add: displace_def)
    with x r(1) w2'(1) have "x \<in> set (runs (db w))" by auto
    with True x(2) show ?thesis by (auto simp: inflight_on_def filter_empty_conv inflight_def)
  next
    case False
    have covered: "\<forall>y \<in> set (runs (db w2)). r_thread_id y = tid \<and> inflight y \<and> r_run_id y \<noteq> r_run_id r \<longrightarrow>
        r_run_id y \<in> set (inflight_on tid (db w))"
      using r(1) w2'(1) by (auto simp: inflight_on_def)
    have can: "\<forall>i \<in> set (inflight_on tid (db w)). pg_uuid E i = Some i"
      using assms(5) by (auto simp: canonical_def inflight_on_def)
    have "db_ok (db w2)" using w1(2) w2'(1) by simp
    moreover have "x \<in> set (runs (db (displace E S st tid (inflight_on tid (db w)) w2)))"
      using x(1) w' r(2,4,5) by (simp add: scanRun_def)
    moreover have "st = ''interrupt'' \<or> st = ''rollback''" using assms(4) by (simp add: st_def)
    ultimately show ?thesis
      using displace_effect[OF w2'(2) _ _ False can tid covered _ x(2,3)] by blast
  qed
  with p r show ?thesis by auto
qed

definition sample_request :: CreateRunRequest where
  "sample_request = \<lparr>cq_RunId = None, cq_ThreadId = ''t1'', cq_AssistantId = ''a1'', cq_Status = 0, cq_KwargsJson = None,
     cq_MetadataJson = None, cq_MultitaskStrategy = 2, cq_AfterSeconds = 0, cq_UserId = [], cq_IfNotExists = 0,
     cq_EncryptionContext = None, cq_ThreadFilters = [], cq_AssistantFilters = []\<rparr>"

theorem create_displaces_witness:
  "\<exists>pbs w' r. runs_svc_Create sample_env sample_svc ''t9'' ''r9'' sample_request sample_world = (Inr pbs, w') \<and>
     pbs = [runs_toPB (scanRun r)] \<and> r_run_id r \<notin> {''r1'', ''r2'', ''r3''}"
proof -
  have "\<not> isl (fst (runs_svc_Create sample_env sample_svc ''t9'' ''r9'' sample_request sample_world))"
    by code_simp
  then obtain pbs w' where run: "runs_svc_Create sample_env sample_svc ''t9'' ''r9'' sample_request sample_world = (Inr pbs, w')"
    by (metis isl_def prod.collapse sum.exhaust_disc sum.collapse(2))
  have "enum_String MultitaskStrategy_name (cq_MultitaskStrategy sample_request) \<in> {''interrupt'', ''rollback''}"
    by (simp add: sample_request_def enum_String_def MultitaskStrategy_name_def)
  moreover have "uuid_idem sample_env" "pg_uuid sample_env [] = None"
    by (simp_all add: uuid_idem_def sample_env_def)
  moreover have "r_run_id ` set (runs (db sample_world)) = {''r1'', ''r2'', ''r3''}"
    by (auto simp: sample_defs)
  ultimately show ?thesis
    using create_displaces[OF run sample_faults sample_ok _ sample_canonical] run by auto
qed

section \<open>Cancelling by an id that is not in canonical form\<close>

text \<open>
  \<^verbatim>\<open>Cancel\<close> compares the texts of the request with the canonical ids of the rows. An id in another spelling that the database
  accepts (upper case, braces) cancels the run and is then reported as \<^verbatim>\<open>NotFound\<close>.
\<close>

theorem cancel_other_spelling:
  assumes "faults w = []" and "db_ok (db w)" and "r \<in> set (runs (db w))" and "r_status r = ''pending''"
    and "pg_uuid E s = Some (r_run_id r)" and "s \<noteq> r_run_id r"
  shows "\<exists>w'. runs_svc_Cancel E S None (CancelRunIds [s] None) [] w = (Inl (StatusError NotFound), w') \<and>
    (\<exists>x \<in> set (runs (db w')). r_run_id x = r_run_id r \<and> r_status x = ''interrupted'')"
proof -
  define P where "P = (\<lambda>x. cancel_scope E [s] [] [] (db w) x \<and> r_status x = ''pending'')"
  define R where "R = (\<lambda>x. cancel_scope E [s] [] [] (db w) x \<and> r_status x = ''running'')"
  define f where "f = (\<lambda>r. r\<lparr>r_status := ''interrupted'', r_cancel_requested_at := Some (now w), r_updated_at := now w\<rparr> :: run_row)"
  have ok: "auth_ok E []" "\<forall>x \<in> set [s]. pg_uuid E x \<noteq> None" using assms(5) by (auto simp: auth_ok_def)
  have sc: "cancel_scope E [s] [] [] (db w) x \<longleftrightarrow> r_run_id x = r_run_id r" for x
    using assms(5) by (auto simp: cancel_scope_def)
  obtain results w1 where run: "run_CancelWithAction E [s] [] ''interrupt'' [] w = (Inr results, w1)"
    and res: "results = map (\<lambda>r. \<lparr>cx_RunID = r_run_id r, cx_Deleted = False, cx_Terminal = True\<rparr>) (filter P (runs (db w))) @
      map (\<lambda>r. \<lparr>cx_RunID = r_run_id r, cx_Deleted = False, cx_Terminal = False\<rparr>) (filter R (runs (db w)))"
    and d: "db w1 = upd_runs R (\<lambda>r. r\<lparr>r_cancel_requested_at := Some (now w), r_updated_at := now w\<rparr>) (upd_runs P f (db w))"
    using cancel_run[OF assms(1,2) ok(1) _ ok(2), of "[]" "''interrupt''"]
    by (simp add: Let_def P_def R_def f_def)
  have ids: "cx_RunID ` set results \<subseteq> {r_run_id r}"
    unfolding res by (auto simp: P_def R_def sc)
  have "P r" using assms(4) by (simp add: P_def sc)
  then have "f r \<in> set (runs (upd_runs P f (db w)))"
    using imageI[OF assms(3), of "\<lambda>r. if P r then f r else r"] by simp
  from imageI[OF this, of "\<lambda>r. if R r then r\<lparr>r_cancel_requested_at := Some (now w), r_updated_at := now w\<rparr> else r"]
  have "f r \<in> set (runs (db w1))"
    unfolding d runs_upd_runs[of R] set_map by (simp add: R_def f_def)
  moreover have "s \<notin> cx_RunID ` set results" using ids assms(6) by auto
  ultimately show ?thesis
    using run by (auto simp: runs_svc_Cancel_def Let_def call_def refuse_def f_def intro!: bexI[of _ "f r"])
qed

theorem cancel_other_spelling_witness:
  "\<exists>E w'. runs_svc_Cancel E sample_svc None (CancelRunIds [''R1''] None) [] sample_world = (Inl (StatusError NotFound), w') \<and>
     (\<exists>x \<in> set (runs (db w')). r_run_id x = ''r1'' \<and> r_status x = ''interrupted'')"
proof -
  define E where "E = sample_env\<lparr>pg_uuid := (\<lambda>s. if s = ''R1'' then Some ''r1'' else Some s)\<rparr>"
  have "row_r1 \<in> set (runs (db sample_world))" "r_status row_r1 = ''pending''" "r_run_id row_r1 = ''r1''"
    by (simp_all add: sample_defs)
  moreover have "pg_uuid E ''R1'' = Some ''r1''" by (simp add: E_def)
  ultimately show ?thesis
    using cancel_other_spelling[OF sample_faults sample_ok, of row_r1 E "''R1''" sample_svc] by auto
qed

section \<open>The control stream of a worker\<close>

lemma enter_step_abort:
  assumes "enter_step E S rid ev st w = (Inl (EndStatus (StatusError Aborted)), w')"
  shows "ev = TakeHeartbeatErr \<and> es_lost st"
  using assms by (auto simp: enter_step_def split: enter_ev.splits if_splits prod.splits sum.splits err.splits)

lemma enter_step_lost:
  assumes "enter_step E S rid ev st w = (Inr st', w')" and "es_lost st'" and "\<not> es_lost st"
  shows "ev = HeartbeatTick \<and> run_ExtendLease E (svc_lease S) rid [] w = (Inl ErrNotFound, w')"
  using assms by (auto simp: enter_step_def split: enter_ev.splits if_splits prod.splits sum.splits err.splits)

text \<open>
  (C16) \<^verbatim>\<open>Enter\<close> gives up a run only when its lease is lost: if the stream ends with \<^verbatim>\<open>Aborted\<close>, then at some earlier tick the heartbeat found
  that the run is no longer running. A failing database never ends the stream, nor does any control message.
\<close>

theorem enter_aborts_only_when_lost:
  assumes "enter_loop E S rid evs st w = (Inl (EndStatus (StatusError Aborted)), w')" and "\<not> es_lost st"
  shows "\<exists>pre post st1 w1 w2. evs = pre @ HeartbeatTick # post \<and> enter_loop E S rid pre st w = (Inr st1, w1) \<and>
    run_ExtendLease E (svc_lease S) rid [] w1 = (Inl ErrNotFound, w2)"
  using assms
proof (induction evs arbitrary: st w)
  case Nil
  then show ?case by simp
next
  case (Cons ev evs)
  obtain r1 w1 where step: "enter_step E S rid ev st w = (r1, w1)" by fastforce
  show ?case
  proof (cases r1)
    case (Inl e)
    with Cons.prems step have "e = EndStatus (StatusError Aborted)" by simp
    with step Inl Cons.prems(2) show ?thesis using enter_step_abort by fastforce
  next
    case (Inr st1)
    show ?thesis
    proof (cases "es_lost st1")
      case True
      from enter_step_lost[OF step[unfolded Inr] True Cons.prems(2)] show ?thesis
        by (intro exI[of _ "[]"] exI[of _ evs] exI[of _ st] exI[of _ w] exI[of _ w1]) simp
    next
      case False
      from Cons.prems(1) step Inr have "enter_loop E S rid evs st1 w1 = (Inl (EndStatus (StatusError Aborted)), w')" by simp
      from Cons.IH[OF this False] obtain pre post st2 w2 w3 where
        "evs = pre @ HeartbeatTick # post" "enter_loop E S rid pre st1 w1 = (Inr st2, w2)"
        "run_ExtendLease E (svc_lease S) rid [] w2 = (Inl ErrNotFound, w3)" by blast
      with step Inr show ?thesis
        by (intro exI[of _ "ev # pre"] exI[of _ post] exI[of _ st2] exI[of _ w2] exI[of _ w3]) simp
    qed
  qed
qed



theorem enter_aborts_only_when_lost_witness:
  "\<exists>w1 w2. run_ExtendLease sample_env (svc_lease sample_svc) ''r1'' [] w1 = (Inl ErrNotFound, w2)"
proof -
  have "fst (enter_loop sample_env sample_svc ''r1'' [HeartbeatTick, TakeHeartbeatErr]
     \<lparr>es_beating = True, es_lost = False, es_sent = []\<rparr> sample_world) = Inl (EndStatus (StatusError Aborted))"
    by code_simp
  then obtain w' where "enter_loop sample_env sample_svc ''r1'' [HeartbeatTick, TakeHeartbeatErr]
     \<lparr>es_beating = True, es_lost = False, es_sent = []\<rparr> sample_world = (Inl (EndStatus (StatusError Aborted)), w')"
    by (metis prod.collapse)
  from enter_aborts_only_when_lost[OF this] show ?thesis by auto
qed

section \<open>The event stream of a client\<close>

fun entries_of :: "stream_ev list \<Rightarrow> stream_entry list" where
  "entries_of [] = []"
| "entries_of (EntryMsg e ok # evs) = e # entries_of evs"
| "entries_of (_ # evs) = entries_of evs"

definition delivered :: "string set option \<Rightarrow> stream_entry list \<Rightarrow> nat \<Rightarrow> stream_event list" where
  "delivered mf es n = concat (map (sendEntry mf) (take n es))"

lemma delivered_simps [simp]:
  "delivered mf es 0 = []" "delivered mf (e # es) (Suc n) = sendEntry mf e @ delivered mf es n"
  by (simp_all add: delivered_def)

lemma drain_delivers:
  "drainAndClose mf evs sent = (sent', e) \<Longrightarrow> \<exists>n. sent' = sent @ delivered mf (entries_of evs) n"
proof (induction mf evs sent rule: drainAndClose.induct)
  case (1 mf sent)
  then show ?case by (auto simp: delivered_def)
next
  case (2 mf ev evs sent)
  have none: "\<exists>n. sent = sent @ delivered mf (entries_of (ev # evs)) n"
    by (rule exI[of _ 0]) simp
  show ?case
  proof (cases ev)
    case (EntryMsg x ok)
    show ?thesis
    proof (cases "ok \<or> sendEntry mf x = []")
      case True
      with 2 EntryMsg obtain n where "sent' = (sent @ sendEntry mf x) @ delivered mf (entries_of evs) n" by auto
      with EntryMsg show ?thesis by (intro exI[of _ "Suc n"]) simp
    next
      case False
      with 2(5) EntryMsg none show ?thesis by auto
    qed
  qed (use 2 none in auto)
qed

lemma stream_loop_delivers:
  assumes "stream_loop E S rid tid jr evs sent w = ((sent', e), w')"
  shows "\<exists>n tail. sent' = sent @ delivered (modeFilter (jr_StreamModes jr)) (entries_of evs) n @ tail \<and>
    (tail = [] \<or> tail = [control_event ''done''] \<and> e = Some Finished) \<and>
    (e = None \<longrightarrow> n = length (entries_of evs) \<and> tail = [])"
  using assms
proof (induction evs arbitrary: sent w)
  case Nil
  then show ?case by (auto simp: delivered_def)
next
  case (Cons ev evs)
  let ?mf = "modeFilter (jr_StreamModes jr)"
  have stop: ?case if "sent' = sent @ tail" "tail = [] \<or> tail = [control_event ''done''] \<and> e = Some Finished" "e \<noteq> None" for tail
    using that by (intro exI[of _ 0] exI[of _ tail]) auto
  show ?case
  proof (cases ev)
    case Disconnected
    with Cons.prems show ?thesis by (intro stop[of "[]"]) auto
  next
    case StatusTick
    obtain fin w1 where c: "checkRunFinished E rid tid w = (fin, w1)" by fastforce
    show ?thesis
    proof (cases fin)
      case True
      with Cons.prems StatusTick c obtain x where d: "drainAndClose ?mf evs sent = (sent', x)" and x: "e = Some x"
        by (auto simp: Let_def split: prod.splits)
      from drain_delivers[OF d] x show ?thesis
        using StatusTick by auto
    next
      case False
      with Cons.prems StatusTick c have "stream_loop E S rid tid jr evs sent w1 = ((sent', e), w')" by (simp add: Let_def)
      from Cons.IH[OF this] StatusTick show ?thesis by simp
    qed
  next
    case (TerminalMsg ok)
    show ?thesis
    proof (cases ok)
      case True
      with Cons.prems TerminalMsg show ?thesis by (intro stop[of "[control_event ''done'']"]) (auto simp: Let_def)
    next
      case False
      with Cons.prems TerminalMsg show ?thesis by (intro stop[of "[]"]) (auto simp: Let_def)
    qed
  next
    case (EntryMsg x ok)
    show ?thesis
    proof (cases "ok \<or> sendEntry ?mf x = []")
      case True
      with Cons.prems EntryMsg have "stream_loop E S rid tid jr evs (sent @ sendEntry ?mf x) w = ((sent', e), w')"
        by (auto simp: Let_def)
      from Cons.IH[OF this] obtain n tail where
        "sent' = (sent @ sendEntry ?mf x) @ delivered ?mf (entries_of evs) n @ tail"
        "tail = [] \<or> tail = [control_event ''done''] \<and> e = Some Finished" "e = None \<longrightarrow> n = length (entries_of evs) \<and> tail = []"
        by auto
      with EntryMsg show ?thesis by (intro exI[of _ "Suc n"] exI[of _ tail]) auto
    next
      case False
      with Cons.prems EntryMsg show ?thesis by (intro stop[of "[]"]) (auto simp: Let_def)
    qed
  next
    case EntriesClosed
    with Cons.prems show ?thesis by (intro stop[of "[]"]) auto
  next
    case DrainTimeout
    with Cons.prems have "stream_loop E S rid tid jr evs sent w = ((sent', e), w')" by (simp add: Let_def)
    from Cons.IH[OF this] DrainTimeout show ?thesis by simp
  qed
qed


definition sample_join :: JoinRunRequest where
  "sample_join = \<lparr>jr_Filters = [], jr_IgnoreRunNotFound = False, jr_CancelOnDisconnect = False, jr_LastEventId = None,
     jr_StreamModes = [1]\<rparr>"

definition sample_entry :: "string \<Rightarrow> string \<Rightarrow> stream_entry" where
  "sample_entry i t = \<lparr>en_ID = i, en_Fields = [(''event_type'', t), (''message'', ''m'')]\<rparr>"


end
