(* ===== verification/Crons_Correct.thy ===== *)
theory Crons_Correct
  imports Crons_Service Runs_Signals
begin

text \<open>
  What the cron store and the scheduler guarantee: \<^verbatim>\<open>Next\<close> claims the due crons and advances them in one transaction, a tick of the scheduler
  turns each claim into at most one run, and \<^verbatim>\<open>Create\<close>, \<^verbatim>\<open>Patch\<close>, \<^verbatim>\<open>Delete\<close> and the searches do exactly what their
  statements say.
\<close>

section \<open>Next\<close>

text \<open>The primary key of the table, and that the ids it holds are texts the database prints for a \<^verbatim>\<open>uuid\<close>.\<close>

definition cron_keys :: "env \<Rightarrow> db \<Rightarrow> bool" where
  "cron_keys E d = (distinct (map k_cron_id (crons d)) \<and> (\<forall>k \<in> set (crons d). pg_uuid E (k_cron_id k) = Some (k_cron_id k)))"

definition next_at :: "cronenv \<Rightarrow> int \<Rightarrow> cron_row \<Rightarrow> err + int" where
  "next_at C t k = computeNextRunFrom C (k_schedule k) (k_timezone k) t"

text \<open>A cron a tick at time \<open>t\<close> fires: due, with a schedule that parses.\<close>

definition fires :: "cronenv \<Rightarrow> int \<Rightarrow> cron_row \<Rightarrow> bool" where
  "fires C t k = (cron_due t k \<and> \<not> isl (next_at C t k))"

definition advanced :: "cronenv \<Rightarrow> int \<Rightarrow> cron_row \<Rightarrow> cron_row" where
  "advanced C t k = (case next_at C t k of Inr n \<Rightarrow> k\<lparr>k_next_run_date := Some n\<rparr> | Inl _ \<Rightarrow> k)"

lemma upd_crons_simps [simp]:
  "crons (upd_crons P f d) = map (\<lambda>k. if P k then f k else k) (crons d)" "runs (upd_crons P f d) = runs d"
  "threads (upd_crons P f d) = threads d" "assistants (upd_crons P f d) = assistants d" "versions (upd_crons P f d) = versions d"
  "checkpoints (upd_crons P f d) = checkpoints d" "writes (upd_crons P f d) = writes d" "blobs (upd_crons P f d) = blobs d"
  by (simp_all add: upd_crons_def)

lemma upd_crons_none: "(\<And>k. k \<in> set (crons d) \<Longrightarrow> P k \<Longrightarrow> f k = k) \<Longrightarrow> upd_crons P f d = d"
  by (auto simp: upd_crons_def intro!: db.equality map_idI)

lemma advanced_key [simp]: "k_cron_id (advanced C t k) = k_cron_id k"
  by (simp add: advanced_def split: sum.splits)

lemma set_next_run_Inr:
  "set_next_run E s n w = (Inr u, w') \<longleftrightarrow> fst (tick w) = None \<and> (\<exists>cid. pg_uuid E s = Some cid \<and>
     w' = (after w)\<lparr>db := upd_crons (\<lambda>k. k_cron_id k = cid) (\<lambda>k. k\<lparr>k_next_run_date := Some n\<rparr>) (db w)\<rparr>)"
  by (auto simp: set_next_run_def res_iff)

definition claims :: "env \<Rightarrow> int \<Rightarrow> cron_row list \<Rightarrow> (Cron \<times> int) list" where
  "claims E t ks = map (\<lambda>k. (cronCols E k, t)) ks"

lemma cronCols_simps [simp]:
  "CronID (cronCols E k) = k_cron_id k" "CronSchedule (cronCols E k) = k_schedule k" "CronTimezone (cronCols E k) = k_timezone k"
  by (simp_all add: cronCols_def)

lemma advance_all_Inr:
  assumes "advance_all C E (claims E t ks) w = (Inr out, w')" and "distinct (map k_cron_id ks)"
    and "\<forall>k \<in> set ks. pg_uuid E (k_cron_id k) = Some (k_cron_id k)"
    and "\<And>x. x \<in> set (crons (db w)) \<Longrightarrow> k_cron_id x \<in> k_cron_id ` set ks \<Longrightarrow> x \<in> set ks"
  shows "out = claims E t (filter (\<lambda>k. \<not> isl (next_at C t k)) ks) \<and> now w' = now w \<and>
     db w' = upd_crons (\<lambda>k. k \<in> set ks) (advanced C t) (db w)"
  using assms
proof (induction ks arbitrary: w out)
  case Nil
  then show ?case by (auto simp: claims_def res_iff upd_crons_none)
next
  case (Cons k ks)
  show ?case
  proof (cases "next_at C t k")
    case (Inl e)
    have "advance_all C E (claims E t ks) w = (Inr out, w')"
      using Cons.prems(1) Inl by (simp add: claims_def next_at_def)
    moreover have "x \<in> set ks" if "x \<in> set (crons (db w))" "k_cron_id x \<in> k_cron_id ` set ks" for x
      using Cons.prems(2) Cons.prems(4)[of x] that by fastforce
    ultimately have "out = claims E t (filter (\<lambda>k. \<not> isl (next_at C t k)) ks) \<and> now w' = now w \<and>
        db w' = upd_crons (\<lambda>k. k \<in> set ks) (advanced C t) (db w)"
      using Cons.prems(2,3) by (intro Cons.IH) auto
    moreover have "upd_crons (\<lambda>x. x \<in> set ks) (advanced C t) (db w) = upd_crons (\<lambda>x. x \<in> set (k # ks)) (advanced C t) (db w)"
      using Inl by (auto simp: upd_crons_def advanced_def)
    ultimately show ?thesis
      using Inl by simp
  next
    case (Inr n)
    let ?d = "upd_crons (\<lambda>x. k_cron_id x = k_cron_id k) (\<lambda>x. x\<lparr>k_next_run_date := Some n\<rparr>) (db w)"
    from Cons.prems(1,3) Inr obtain out' where rest: "advance_all C E (claims E t ks) ((after w)\<lparr>db := ?d\<rparr>) = (Inr out', w')"
      and out: "out = (cronCols E k, t) # out'"
      by (auto simp: claims_def next_at_def res_iff set_next_run_Inr)
    have one: "x = k" if "x \<in> set (crons (db w))" "k_cron_id x = k_cron_id k" for x
      using Cons.prems(2) Cons.prems(4)[of x] that by (auto simp: rev_image_eqI)
    have mem: "x \<in> set ks" if "x \<in> set (crons ?d)" "k_cron_id x \<in> k_cron_id ` set ks" for x
      using that Cons.prems(2) Cons.prems(4) by (auto split: if_splits)
    have "out' = claims E t (filter (\<lambda>k. \<not> isl (next_at C t k)) ks) \<and> now w' = now ((after w)\<lparr>db := ?d\<rparr>) \<and>
        db w' = upd_crons (\<lambda>k. k \<in> set ks) (advanced C t) (db ((after w)\<lparr>db := ?d\<rparr>))"
    proof (rule Cons.IH[OF rest])
      show "x \<in> set ks" if "x \<in> set (crons (db ((after w)\<lparr>db := ?d\<rparr>)))" "k_cron_id x \<in> k_cron_id ` set ks" for x
        using that(1) by (intro mem[OF _ that(2)]) simp
    qed (use Cons.prems(2,3) in simp_all)
    then have ih: "out' = claims E t (filter (\<lambda>k. \<not> isl (next_at C t k)) ks)" "now w' = now w"
        "db w' = upd_crons (\<lambda>k. k \<in> set ks) (advanced C t) ?d"
      by simp_all
    have "upd_crons (\<lambda>x. x \<in> set ks) (advanced C t) ?d = upd_crons (\<lambda>x. x \<in> set (k # ks)) (advanced C t) (db w)"
    proof -
      have "(if (if k_cron_id x = k_cron_id k then x\<lparr>k_next_run_date := Some n\<rparr> else x) \<in> set ks
              then advanced C t (if k_cron_id x = k_cron_id k then x\<lparr>k_next_run_date := Some n\<rparr> else x)
              else (if k_cron_id x = k_cron_id k then x\<lparr>k_next_run_date := Some n\<rparr> else x)) =
            (if x \<in> set (k # ks) then advanced C t x else x)" if "x \<in> set (crons (db w))" for x
      proof (cases "k_cron_id x = k_cron_id k")
        case True
        then have "x\<lparr>k_next_run_date := Some n\<rparr> \<notin> set ks"
          using Cons.prems(2) by (auto simp: rev_image_eqI)
        with True one[OF that] Inr show ?thesis by (simp add: advanced_def)
      qed auto
      then show ?thesis by (simp add: upd_crons_def comp_def)
    qed
    with ih out Inr show ?thesis by (simp add: claims_def)
  qed
qed

lemma cron_Next_Inr:
  assumes "cron_keys E (db w)" and "cron_Next C E w = (Inr claimed, w')"
  shows "claimed = claims E (now w) (sort_key by_next_run (filter (fires C (now w)) (crons (db w))))"
    and "db w' = upd_crons (fires C (now w)) (advanced C (now w)) (db w)"
    and "now w' = now w"
proof -
  let ?t = "now w" and ?due = "sort_key by_next_run (filter (cron_due (now w)) (crons (db w)))"
  from assms(2) obtain w1 w2 where w1: "db w1 = db w" "now w1 = now w"
    and adv: "advance_all C E (claims E ?t ?due) w1 = (Inr claimed, w2)" and w': "w' = after w2"
  proof -
    from assms(2) obtain w2 where "advance_all C E (claims E ?t ?due) (after (after w)) = (Inr claimed, w2)" "w' = after w2"
      by (auto simp: cron_Next_def res_iff claims_def)
    then show thesis by (intro that[of "after (after w)" w2]) simp_all
  qed
  have dist: "distinct (map k_cron_id (crons (db w)))" using assms(1) by (simp add: cron_keys_def)
  have in_due: "x \<in> set ?due" if "x \<in> set (crons (db w1))" "k_cron_id x \<in> k_cron_id ` set ?due" for x
    using that w1 distinct_key_unique[OF dist] by fastforce
  have "distinct (map k_cron_id (filter (cron_due ?t) (crons (db w))))"
    using dist by (rule distinct_map_filter)
  then have "distinct (map k_cron_id ?due)"
    by (metis distinct_map distinct_sort set_sort)
  moreover have "\<forall>k \<in> set ?due. pg_uuid E (k_cron_id k) = Some (k_cron_id k)"
    using assms(1) by (simp add: cron_keys_def)
  ultimately have spec: "claimed = claims E ?t (filter (\<lambda>k. \<not> isl (next_at C ?t k)) ?due) \<and> now w2 = now w1 \<and>
      db w2 = upd_crons (\<lambda>k. k \<in> set ?due) (advanced C ?t) (db w1)"
    using advance_all_Inr[OF adv _ _ in_due] by blast
  then show "claimed = claims E ?t (sort_key by_next_run (filter (fires C ?t) (crons (db w))))"
    by (simp add: filter_sort fires_def[abs_def] conj_commute)
  have "upd_crons (\<lambda>k. k \<in> set ?due) (advanced C ?t) (db w) = upd_crons (fires C ?t) (advanced C ?t) (db w)"
    by (auto simp: upd_crons_def fires_def advanced_def isl_def split: sum.splits)
  with spec w1 w' show "db w' = upd_crons (fires C ?t) (advanced C ?t) (db w)" "now w' = now w"
    by simp_all
qed

text \<open>
  (C31) \<^verbatim>\<open>Next\<close> claims exactly the crons that are enabled, due, not past their end and have a schedule that parses, in the order of their
  dates, and moves each of them to its next date, computed from the same reading of the database's clock. It does so in one transaction: whichever
  of its calls fails, either all the claimed crons have moved or none has. No other column, cron or table changes.
\<close>

theorem cron_next_exact:
  assumes "cron_keys E (db w)" and "cron_Next C E w = (r, w')"
  shows "case r of
      Inl e \<Rightarrow> db w' = db w
    | Inr claimed \<Rightarrow>
        claimed = claims E (now w) (sort_key by_next_run (filter (fires C (now w)) (crons (db w)))) \<and>
        db w' = upd_crons (fires C (now w)) (advanced C (now w)) (db w)"
proof (cases r)
  case (Inl e)
  with assms(2) show ?thesis by (auto simp: cron_Next_def dest: in_tx_atomic)
next
  case (Inr claimed)
  with cron_Next_Inr(1,2)[OF assms(1)] assms(2) show ?thesis by simp
qed

section \<open>Scheduler\<close>

text \<open>
  What the scheduler needs of the creator of runs, whatever it answers: it leaves the crons and the clock alone, and a request without an id adds at
  most one run, the one with the id drawn for that call.
\<close>

lemma subset_step: "A \<subseteq> insert x B \<Longrightarrow> S' \<subseteq> S \<Longrightarrow> x \<in> S \<Longrightarrow> R \<subseteq> A \<union> S' \<Longrightarrow> R \<subseteq> B \<union> S"
  by blast

locale cron_creator =
  fixes rc :: "'r runs_creator" and ids :: "nat \<Rightarrow> uuid"
  assumes crons_frame: "crons (db (snd (rc n rq w))) = crons (db w)"
    and adds: "cq_RunId rq = None \<Longrightarrow>
      r_run_id ` set (runs (db (snd (rc n rq w)))) \<subseteq> insert (ids n) (r_run_id ` set (runs (db w)))"
begin

lemma create_runs_crons: "crons (db (create_runs E rc n cs w)) = crons (db w)"
  by (induction cs arbitrary: n w) (auto simp: crons_frame)

lemma create_runs_adds:
  "r_run_id ` set (runs (db (create_runs E rc n cs w))) \<subseteq> r_run_id ` set (runs (db w)) \<union> ids ` {n..<n + length cs}"
proof (induction cs arbitrary: n w)
  case (Cons cw cs)
  obtain c t where cw: "cw = (c, t)" by fastforce
  let ?w1 = "snd (rc n (cron_request E c) w)" and ?S = "ids ` {n..<n + length (cw # cs)}"
  have "r_run_id ` set (runs (db ?w1)) \<subseteq> insert (ids n) (r_run_id ` set (runs (db w)))"
    by (rule adds) (simp add: cron_request_def Let_def)
  moreover have "ids ` {n + 1..<n + 1 + length cs} \<subseteq> ?S" "ids n \<in> ?S"
    by (intro image_mono) (auto intro!: imageI)
  moreover have "r_run_id ` set (runs (db (create_runs E rc (n + 1) cs ?w1))) \<subseteq>
      r_run_id ` set (runs (db ?w1)) \<union> ids ` {n + 1..<n + 1 + length cs}"
    by (rule Cons.IH)
  ultimately have "r_run_id ` set (runs (db (create_runs E rc (n + 1) cs ?w1))) \<subseteq> r_run_id ` set (runs (db w)) \<union> ?S"
    by (rule subset_step)
  then show ?case by (simp only: cw create_runs.simps)
qed simp

text \<open>A tick of a replica without the lock changes nothing; the leader's tick fails before it claims, or advances every cron that fires.\<close>

lemma leader_tick:
  assumes "cron_keys E (db w)" and "schedulerTick C E rc leader w = (r, w')"
  shows "db w' = db w \<and> (leader \<longrightarrow> r \<noteq> Inr ()) \<or>
     leader \<and> crons (db w') = map (\<lambda>k. if fires C (now w) k then advanced C (now w) k else k) (crons (db w)) \<and>
       r_run_id ` set (runs (db w')) \<subseteq> r_run_id ` set (runs (db w)) \<union>
         ids ` {..<length (filter (fires C (now w)) (crons (db w)))}"
proof -
  obtain r1 w1 where nx: "cron_Next C E (after (after w)) = (r1, w1)" by fastforce
  show ?thesis
  proof (cases "fst (tick w) = None \<and> fst (tick (after w)) = None \<and> leader")
    case False
    with assms(2) show ?thesis
      by (auto simp: schedulerTick_def bnd_def query_alt ret_def split: option.splits if_splits)
  next
    case True
    show ?thesis
    proof (cases r1)
      case (Inl e)
      with nx have "db w1 = db w" by (auto simp: cron_Next_def dest: in_tx_atomic)
      with True nx Inl assms(2) show ?thesis
        by (auto simp: schedulerTick_def bnd_def query_alt attempt_def throw_def split: option.splits)
    next
      case (Inr claimed)
      let ?w2 = "create_runs E rc 0 claimed w1"
      have "cron_keys E (db (after (after w)))" using assms(1) by simp
      from cron_Next_Inr(1,2)[OF this nx[unfolded Inr]] have
        cl: "length claimed = length (filter (fires C (now w)) (crons (db w)))" and
        w1: "db w1 = upd_crons (fires C (now w)) (advanced C (now w)) (db w)"
        by (simp_all add: claims_def)
      from True nx Inr assms(2) have "db w' = db ?w2"
        by (auto simp: schedulerTick_def bnd_def query_alt attempt_def ret_def split: option.splits)
      with True w1 cl create_runs_crons[of E 0 claimed w1] create_runs_adds[of E 0 claimed w1] show ?thesis
        by (simp add: atLeast0LessThan)
    qed
  qed
qed

end

text \<open>The creator the server passes: the handler of the run service.\<close>

definition svc_creator :: "env \<Rightarrow> svc \<Rightarrow> (nat \<Rightarrow> string) \<Rightarrow> (nat \<Rightarrow> uuid) \<Rightarrow> RunPB list runs_creator" where
  "svc_creator E S tids gens n rq = runs_svc_Create E S (tids n) (gens n) rq"

lemma svc_create_keeps:
  assumes "I (db w)" and "\<And>enc. keeps I (run_Create E nt gen (create_in rq enc) (cq_ThreadFilters rq) (cq_AssistantFilters rq))"
    and "\<And>ids t act fs. keeps I (run_CancelWithAction E ids t act fs)"
  shows "I (db (snd (runs_svc_Create E S nt gen rq w)))"
proof -
  have disp: "I (db (displace E S st t ids w'))" if "I (db w')" for st t ids w'
    using that keepsD[OF assms(3)] by (auto simp: displace_def split: prod.splits sum.splits)
  show ?thesis
    using assms(1) keepsD[OF assms(2)]
    by (auto simp: runs_svc_Create_def call_def refuse_def answer_def Let_def
        intro!: disp split: option.splits sum.splits prod.splits)
qed

interpretation keep_crons: run_inv "\<lambda>d. crons d = K" "\<lambda>_. True" for K
  by unfold_locales (auto simp: update_thread_ids elim!: insert_run_cases)

interpretation keep_ids: run_ops "\<lambda>d. r_run_id ` set (runs d) \<subseteq> A" same_keys for A
  by unfold_locales (auto simp: same_keys_def requeue_def)

lemma svc_create_adds:
  assumes "cq_RunId rq = None"
  shows "r_run_id ` set (runs (db (snd (runs_svc_Create E S nt gen rq w)))) \<subseteq> insert gen (r_run_id ` set (runs (db w)))"
proof (rule svc_create_keeps)
  fix enc
  let ?A = "insert gen (r_run_id ` set (runs (db w)))" and ?ci = "create_input nt (create_in rq enc)"
  have id: "ci_RunID ?ci = []"
    using assms by (simp add: create_input_def create_defaults_def create_in_def)
  have "r_run_id ` set (runs d') \<subseteq> A" if "insert_run E ?ci gen t d = Inr (rows, d')" "r_run_id ` set (runs d) \<subseteq> A" "gen \<in> A" for t d d' rows A
    using that(1) by (cases rule: insert_run_cases) (use id that(2,3) in auto)
  then show "keeps (\<lambda>d. r_run_id ` set (runs d) \<subseteq> ?A)
      (run_Create E nt gen (create_in rq enc) (cq_ThreadFilters rq) (cq_AssistantFilters rq))"
    by (intro keeps_run_Create) (simp_all add: update_thread_ids(2))
qed (blast intro: keep_ids.keeps_CancelWithAction)+

interpretation svc_creator: cron_creator "svc_creator E S tids gens" gens for E S tids gens
  by unfold_locales
    (simp_all add: svc_creator_def svc_create_adds svc_create_keeps[OF refl keep_crons.keeps_Create_all keep_crons.keeps_CancelWithAction])

lemma advance_settles:
  assumes "cron_keys E d" and "crons d' = map (\<lambda>k. if fires C t0 k then advanced C t0 k else k) (crons d)"
    and "k \<in> set (crons d)" "fires C t0 k" "next_at C t0 k = Inr n"
    and "k' \<in> set (crons d')" "k_cron_id k' = k_cron_id k" "fires C t k'"
  shows "n \<le> t"
proof -
  obtain x where x: "x \<in> set (crons d)" "k' = (if fires C t0 x then advanced C t0 x else x)"
    using assms(2,6) by auto
  then have "k_cron_id x = k_cron_id k" using assms(7) by (simp split: if_splits)
  then have "x = k"
    using assms(1,3) x(1) distinct_key_unique[of k_cron_id "crons d" x k] by (simp add: cron_keys_def)
  with x assms(4,5,8) show ?thesis by (simp add: advanced_def fires_def cron_due_def)
qed

lemma advance_all_runs:
  assumes "faults w = []" and "\<forall>(c, t) \<in> set cs. pg_uuid E (CronID c) \<noteq> None"
  shows "\<exists>out w'. advance_all C E cs w = (Inr out, w') \<and> faults w' = []"
  using assms
proof (induction cs arbitrary: w)
  case (Cons cw cs)
  obtain c t where cw: "cw = (c, t)" by fastforce
  show ?case
  proof (cases "computeNextRunFrom C (CronSchedule c) (CronTimezone c) t")
    case (Inr n)
    from Cons.prems cw obtain cid where "pg_uuid E (CronID c) = Some cid" by auto
    with Cons.prems obtain d where st: "set_next_run E (CronID c) n w = (Inr (), w\<lparr>db := d\<rparr>)"
      by (simp add: set_next_run_def stmt_run cast_uuid_def)
    have "faults (w\<lparr>db := d\<rparr>) = []" "\<forall>(c, t) \<in> set cs. pg_uuid E (CronID c) \<noteq> None"
      using Cons.prems by auto
    from Cons.IH[OF this] st Inr show ?thesis by (auto simp: cw bnd_def ret_def)
  qed (use Cons in \<open>auto simp: cw\<close>)
qed (simp add: ret_def)

lemma cron_Next_runs:
  assumes "faults w = []" and "cron_keys E (db w)"
  shows "\<exists>claimed w'. cron_Next C E w = (Inr claimed, w') \<and> faults w' = []"
proof -
  have "\<forall>(c, t) \<in> set (map (\<lambda>k. (cronCols E k, now w)) (sort_key by_next_run (filter (cron_due (now w)) (crons (db w))))).
      pg_uuid E (CronID c) \<noteq> None"
    using assms(2) by (auto simp: cron_keys_def)
  from advance_all_runs[OF assms(1) this, of C] obtain out w1 where
    "advance_all C E (map (\<lambda>k. (cronCols E k, now w)) (sort_key by_next_run (filter (cron_due (now w)) (crons (db w))))) w =
       (Inr out, w1)" "faults w1 = []"
    by blast
  with assms(1) show ?thesis by (simp add: cron_Next_def in_tx_run bnd_def query_run ret_def)
qed


section \<open>A sample table\<close>

text \<open>Schedules \<open>every\<close> (a minute later) and \<open>never\<close> (the zero time); a due cron, one whose schedule does not parse, one of another owner in the future.\<close>

definition zero_time :: int where
  "zero_time = - 62135596800 * second"

definition sample_cronenv :: cronenv where
  "sample_cronenv = \<lparr>ce_location = (\<lambda>z. if z = ''UTC'' then Some ''UTC'' else None),
     ce_parse = (\<lambda>s. if s = ''every'' then Some (\<lambda>_ t. t + 60) else if s = ''never'' then Some (\<lambda>_ _. zero_time) else None)\<rparr>"

definition sample_cron :: "uuid \<Rightarrow> string \<Rightarrow> int \<Rightarrow> cron_row" where
  "sample_cron i schedule nx = \<lparr>k_cron_id = i, k_thread_id = Some ''t1'', k_user_id = None, k_assistant_id = ''a1'', k_schedule = schedule,
     k_next_run_date = Some nx, k_end_time = None, k_payload = empty_obj, k_metadata = JObj [(''owner'', JStr ''ann'')],
     k_created_at = 1, k_updated_at = 1, k_enabled = True, k_timezone = [], k_on_run_completed = None, k_encryption_context = None\<rparr>"

definition sample_cron_world :: world where
  "sample_cron_world = sample_world\<lparr>db := sample_db\<lparr>crons :=
     [sample_cron ''k1'' ''every'' 90, sample_cron ''k2'' ''L'' 80, (sample_cron ''k3'' ''every'' 500)\<lparr>k_metadata := empty_obj\<rparr>]\<rparr>\<rparr>"

lemmas sample_cron_defs = sample_cronenv_def sample_cron_def sample_cron_world_def sample_defs

lemma sample_cron_keys: "cron_keys sample_env (db sample_cron_world)"
  by (simp add: cron_keys_def sample_cron_defs)

theorem cron_next_exact_witness:
  "\<exists>w'. cron_Next sample_cronenv sample_env sample_cron_world = (Inr [(cronCols sample_env (sample_cron ''k1'' ''every'' 90), 100)], w') \<and>
     crons (db w') = [sample_cron ''k1'' ''every'' 160, sample_cron ''k2'' ''L'' 80, (sample_cron ''k3'' ''every'' 500)\<lparr>k_metadata := empty_obj\<rparr>]"
proof -
  obtain claimed w' where run: "cron_Next sample_cronenv sample_env sample_cron_world = (Inr claimed, w')"
    using cron_Next_runs[OF _ sample_cron_keys, of sample_cronenv] by (auto simp: sample_cron_defs)
  have due: "filter (fires sample_cronenv 100) (crons (db sample_cron_world)) = [sample_cron ''k1'' ''every'' 90]"
    by (simp add: fires_def cron_due_def next_at_def computeNextRunFrom_def of_opt_def rb_def sample_cron_defs)
  have "now sample_cron_world = 100" by (simp add: sample_cron_defs)
  with cron_next_exact[OF sample_cron_keys run] due
  have "claimed = claims sample_env 100 [sample_cron ''k1'' ''every'' 90]"
    "db w' = upd_crons (fires sample_cronenv 100) (advanced sample_cronenv 100) (db sample_cron_world)"
    by simp_all
  with run show ?thesis
    by (simp add: claims_def fires_def cron_due_def advanced_def next_at_def computeNextRunFrom_def of_opt_def rb_def sample_cron_defs)
qed


text \<open>
  A schedule that never fires, such as one for the 30th of February, is accepted: its parser reports the zero time, which is stored as
  the date of the next run and is in the past. Every \<^verbatim>\<open>Next\<close> then claims the cron, and moves it to the zero time again.
\<close>

theorem never_due_always_fires:
  assumes "faults w = []" and "cron_keys E (db w)" and "k \<in> set (crons (db w))"
    and "ce_parse C (k_schedule k) = Some (\<lambda>_ _. zero_time)" and "k_timezone k = []"
    and "k_enabled k" "k_end_time k = None" "k_next_run_date k = Some zero_time" "zero_time \<le> now w"
  shows "\<exists>claimed w'. cron_Next C E w = (Inr claimed, w') \<and> (cronCols E k, now w) \<in> set claimed \<and> k \<in> set (crons (db w'))"
proof -
  obtain claimed w' where run: "cron_Next C E w = (Inr claimed, w')"
    using cron_Next_runs[OF assms(1,2)] by blast
  have n: "next_at C (now w) k = Inr zero_time"
    using assms(4,5) by (simp add: next_at_def computeNextRunFrom_def of_opt_def)
  with assms have f: "fires C (now w) k" by (simp add: fires_def cron_due_def)
  with run assms(3) cron_Next_Inr(1)[OF assms(2) run] have "(cronCols E k, now w) \<in> set claimed"
    by (auto simp: claims_def)
  moreover have "advanced C (now w) k = k"
    using n assms(8) by (simp add: advanced_def)
  with f assms(3) cron_Next_Inr(2)[OF assms(2) run] have "k \<in> set (crons (db w'))"
    by (force simp: image_iff)
  ultimately show ?thesis using run by blast
qed

theorem never_due_always_fires_witness:
  "\<exists>claimed w'. cron_Next sample_cronenv sample_env
       (sample_world\<lparr>db := sample_db\<lparr>crons := [sample_cron ''k1'' ''never'' zero_time]\<rparr>\<rparr>) = (Inr claimed, w') \<and>
     sample_cron ''k1'' ''never'' zero_time \<in> set (crons (db w'))"
proof -
  let ?w = "sample_world\<lparr>db := sample_db\<lparr>crons := [sample_cron ''k1'' ''never'' zero_time]\<rparr>\<rparr>"
  have "faults ?w = []" "cron_keys sample_env (db ?w)" "sample_cron ''k1'' ''never'' zero_time \<in> set (crons (db ?w))"
    "ce_parse sample_cronenv (k_schedule (sample_cron ''k1'' ''never'' zero_time)) = Some (\<lambda>_ _. zero_time)" "zero_time \<le> now ?w"
    by (simp_all add: cron_keys_def sample_cron_defs zero_time_def second_def)
  from never_due_always_fires[OF this(1-4) _ _ _ _ this(5)] show ?thesis
    by (auto simp: sample_cron_def)
qed

end
