(* ===== verification/Crons_Write.thy ===== *)
theory Crons_Write
  imports Crons_Correct
begin

text \<open>
  What \<^verbatim>\<open>Patch\<close>, \<^verbatim>\<open>Delete\<close>, \<^verbatim>\<open>Create\<close> and the searches of the cron store do to the tables. The statements are assembled
  from optional parts with numbered placeholders; \<open>sets_mean\<close> says what a partly assembled \<^verbatim>\<open>SET\<close> list does, whatever arguments follow.
\<close>

section \<open>Patch\<close>

definition sets_mean :: "env \<Rightarrow> cron_arg list \<Rightarrow> cron_set list \<times> cron_arg list \<times> nat \<Rightarrow> (cron_row \<Rightarrow> cron_row) \<Rightarrow> bool \<Rightarrow> bool" where
  "sets_mean E pre st f c = (case st of (sets, args, idx) \<Rightarrow> idx = length pre + length args + 1 \<and>
     (\<forall>post gs. res_map (apply_cron_set E (pre @ args @ post)) sets = Inr gs \<longrightarrow> c \<and> fold (\<lambda>g. g) gs = f))"

lemma karg_at: "karg (xs @ v # ys) (length xs + 1) = Some v"
  by (simp add: karg_def)

lemma res_map_snoc: "res_map f (xs @ [x]) = Inr gs \<longleftrightarrow> (\<exists>gs' g. gs = gs' @ [g] \<and> res_map f xs = Inr gs' \<and> f x = Inr g)"
  by (auto simp: res_map_Inr list_all2_append1 list_all2_Cons1) (metis list_all2_lengthD)

lemma sets_step:
  assumes "sets_mean E pre st f c"
    and some: "\<And>v A i g. a = Some v \<Longrightarrow> karg A i = Some v \<Longrightarrow> apply_cron_set E A (mk i) = Inr g \<Longrightarrow> c' \<and> g = h"
    and none: "a = None \<Longrightarrow> c' \<and> h = id"
  shows "sets_mean E pre (add_set mk a st) (h \<circ> f) (c \<and> c')"
proof (cases a)
  case None
  with assms(1) none show ?thesis by (auto simp: add_set_def split: prod.splits)
next
  case (Some v)
  obtain sets args idx where st: "st = (sets, args, idx)" by (metis prod_cases3)
  have idx: "idx = length (pre @ args) + 1" using assms(1) st by (simp add: sets_mean_def)
  have "c \<and> c' \<and> fold (\<lambda>g. g) gs = h \<circ> f"
    if r: "res_map (apply_cron_set E (pre @ (args @ [v]) @ post)) (sets @ [mk idx]) = Inr gs" for post gs
  proof -
    let ?A = "(pre @ args) @ v # post"
    have eq: "pre @ (args @ [v]) @ post = ?A" "pre @ args @ v # post = ?A" by simp_all
    from r obtain gs' g where g: "gs = gs' @ [g]" "res_map (apply_cron_set E ?A) sets = Inr gs'" "apply_cron_set E ?A (mk idx) = Inr g"
      unfolding eq res_map_snoc by blast
    have "karg ?A idx = Some v" unfolding idx by (rule karg_at)
    from some[OF Some this g(3)] have "c'" "g = h" by simp_all
    moreover have "c \<and> fold (\<lambda>g. g) gs' = f"
      using assms(1) g(2) unfolding st sets_mean_def prod.case eq(2)[symmetric] by blast
    ultimately show ?thesis by (simp add: g(1))
  qed
  with idx Some st show ?thesis by (simp add: add_set_def sets_mean_def)
qed

text \<open>The row after the patch: each column only if it is given, payload and metadata merged.\<close>

definition cron_patched :: "env \<Rightarrow> int option \<Rightarrow> PatchCronInput \<Rightarrow> string option \<Rightarrow> cron_row \<Rightarrow> cron_row" where
  "cron_patched E nextRun pin merged k = k\<lparr>
     k_next_run_date := (case nextRun of None \<Rightarrow> k_next_run_date k | Some n \<Rightarrow> Some n),
     k_schedule := (if kp_Schedule pin = [] then k_schedule k else kp_Schedule pin),
     k_timezone := (if kp_Timezone pin = [] then k_timezone k else kp_Timezone pin),
     k_enabled := (case kp_Enabled pin of None \<Rightarrow> k_enabled k | Some b \<Rightarrow> b),
     k_end_time := (case kp_EndTime pin of None \<Rightarrow> k_end_time k | Some t \<Rightarrow> Some t),
     k_payload := (case merged of None \<Rightarrow> k_payload k | Some m \<Rightarrow> the (pg_jsonb E m)),
     k_metadata := (if kp_Metadata pin = [] then k_metadata k else jconcat (k_metadata k) (the (pg_jsonb E (kp_Metadata pin)))),
     k_on_run_completed := (case kp_OnRunCompleted pin of None \<Rightarrow> k_on_run_completed k | Some s \<Rightarrow> Some s)\<rparr>"

lemma sets_mean_steps:
  assumes "sets_mean E pre st f c"
  shows "sets_mean E pre (add_set KSetNext (map_option KTime n) st)
      ((\<lambda>k. k\<lparr>k_next_run_date := (case n of None \<Rightarrow> k_next_run_date k | Some x \<Rightarrow> Some x)\<rparr>) \<circ> f) (c \<and> True)"
    and "sets_mean E pre (add_set KSetSchedule (text_arg s) st)
      ((\<lambda>k. k\<lparr>k_schedule := (if s = [] then k_schedule k else s)\<rparr>) \<circ> f) (c \<and> True)"
    and "sets_mean E pre (add_set KSetTimezone (text_arg s) st)
      ((\<lambda>k. k\<lparr>k_timezone := (if s = [] then k_timezone k else s)\<rparr>) \<circ> f) (c \<and> True)"
    and "sets_mean E pre (add_set KSetEnabled (map_option KBool b) st)
      ((\<lambda>k. k\<lparr>k_enabled := (case b of None \<Rightarrow> k_enabled k | Some x \<Rightarrow> x)\<rparr>) \<circ> f) (c \<and> True)"
    and "sets_mean E pre (add_set KSetEndTime (map_option KTime n) st)
      ((\<lambda>k. k\<lparr>k_end_time := (case n of None \<Rightarrow> k_end_time k | Some x \<Rightarrow> Some x)\<rparr>) \<circ> f) (c \<and> True)"
    and "sets_mean E pre (add_set KSetPayload (map_option KText m) st)
      ((\<lambda>k. k\<lparr>k_payload := (case m of None \<Rightarrow> k_payload k | Some x \<Rightarrow> the (pg_jsonb E x))\<rparr>) \<circ> f)
      (c \<and> (\<forall>x. m = Some x \<longrightarrow> pg_jsonb E x \<noteq> None))"
    and "sets_mean E pre (add_set KSetMetadata (text_arg s) st)
      ((\<lambda>k. k\<lparr>k_metadata := (if s = [] then k_metadata k else jconcat (k_metadata k) (the (pg_jsonb E s)))\<rparr>) \<circ> f)
      (c \<and> (s \<noteq> [] \<longrightarrow> pg_jsonb E s \<noteq> None))"
    and "sets_mean E pre (add_set KSetOnRunCompleted (map_option KText m) st)
      ((\<lambda>k. k\<lparr>k_on_run_completed := (case m of None \<Rightarrow> k_on_run_completed k | Some x \<Rightarrow> Some x)\<rparr>) \<circ> f) (c \<and> True)"
  by (rule sets_step[OF assms]; auto simp: bind_text_def bind_bool_def bind_time_def text_arg_def res_iff id_def split: if_splits)+

lemma cron_sets_mean:
  assumes "cron_sets (length pre + 1) nextRun pin merged = (sets, args)"
    and "res_map (apply_cron_set E (pre @ args)) sets = Inr gs"
  shows "fold (\<lambda>g. g) gs = cron_patched E nextRun pin merged"
    and "(\<forall>m. merged = Some m \<longrightarrow> pg_jsonb E m \<noteq> None) \<and> (kp_Metadata pin \<noteq> [] \<longrightarrow> pg_jsonb E (kp_Metadata pin) \<noteq> None)"
proof -
  have "sets_mean E pre ([], [], length pre + 1) id True"
    by (simp add: sets_mean_def id_def)
  note * = sets_mean_steps(1)[OF this, of nextRun]
  note * = sets_mean_steps(2)[OF *, of "kp_Schedule pin"]
  note * = sets_mean_steps(3)[OF *, of "kp_Timezone pin"]
  note * = sets_mean_steps(4)[OF *, of "kp_Enabled pin"]
  note * = sets_mean_steps(5)[OF *, of "kp_EndTime pin"]
  note * = sets_mean_steps(6)[OF *, of merged]
  note * = sets_mean_steps(7)[OF *, of "kp_Metadata pin"]
  note * = sets_mean_steps(8)[OF *, of "kp_OnRunCompleted pin"]
  from assms(1) obtain idx where st: "add_set KSetOnRunCompleted (map_option KText (kp_OnRunCompleted pin)) (add_set KSetMetadata (text_arg (kp_Metadata pin))
     (add_set KSetPayload (map_option KText merged) (add_set KSetEndTime (map_option KTime (kp_EndTime pin)) (add_set KSetEnabled (map_option KBool (kp_Enabled pin))
     (add_set KSetTimezone (text_arg (kp_Timezone pin)) (add_set KSetSchedule (text_arg (kp_Schedule pin))
     (add_set KSetNext (map_option KTime nextRun) ([], [], length pre + 1)))))))) = (sets, args, idx)"
    by (auto simp: cron_sets_def Let_def split: prod.splits)
  have "res_map (apply_cron_set E (pre @ args @ [])) sets = Inr gs" using assms(2) by simp
  note R = *[unfolded st sets_mean_def prod.case, THEN conjunct2, THEN spec, THEN spec, THEN mp, OF this]
  show "fold (\<lambda>g. g) gs = cron_patched E nextRun pin merged"
    unfolding R[THEN conjunct2] comp_def id_def cron_patched_def by (simp add: fun_eq_iff cong: option.case_cong if_cong)
  show "(\<forall>m. merged = Some m \<longrightarrow> pg_jsonb E m \<noteq> None) \<and> (kp_Metadata pin \<noteq> [] \<longrightarrow> pg_jsonb E (kp_Metadata pin) \<noteq> None)"
    using R[THEN conjunct1] by blast
qed

definition cron_sel :: "env \<Rightarrow> uuid \<Rightarrow> auth_filter list \<Rightarrow> cron_row \<Rightarrow> bool" where
  "cron_sel E i fs k = (k_cron_id k = i \<and> visible E fs (k_metadata k))"

lemma cron_where_Inr:
  assumes "ApplyToQuery fs ''metadata'' 2 = Inr (fr, as)" and "cron_where E s fr (s # as @ post) = Inr P"
  shows "\<exists>i. pg_uuid E s = Some i \<and> P = cron_sel E i fs"
proof -
  have q: "ApplyToQuery fs ''metadata'' (Suc (length [s])) = Inr (fr, as)" using assms(1) by (simp add: numeral_2_eq_2)
  from assms(2) show ?thesis
    using ApplyToQuery_eval(2)[OF q, of E post]
    by (auto simp: cron_where_def auth_where_def res_iff cron_sel_def[abs_def] split: if_splits)
qed

lemma find_sel_unique:
  assumes "cron_keys E d" and "filter (cron_sel E i fs) (crons d) = k # ks" and "\<And>x. k_cron_id (f x) = k_cron_id x"
  shows "k \<in> set (crons d)" "cron_sel E i fs k" "upd_crons (cron_sel E i fs) f d = upd_crons (\<lambda>x. k_cron_id x = i) f d"
proof -
  have "k \<in> set (filter (cron_sel E i fs) (crons d))" unfolding assms(2) by simp
  then show k: "k \<in> set (crons d)" "cron_sel E i fs k" by simp_all
  have "cron_sel E i fs x \<longleftrightarrow> k_cron_id x = i" if "x \<in> set (crons d)" for x
    using k that assms(1) distinct_key_unique[of k_cron_id "crons d" x k] by (auto simp: cron_sel_def cron_keys_def)
  then show "upd_crons (cron_sel E i fs) f d = upd_crons (\<lambda>x. k_cron_id x = i) f d"
    by (simp add: upd_crons_def)
qed

lemma cron_patched_key [simp]: "k_cron_id (cron_patched E n pin m k) = k_cron_id k"
  by (simp add: cron_patched_def)

text \<open>The final statement of \<^verbatim>\<open>Patch\<close>.\<close>

definition cron_update :: "env \<Rightarrow> string \<Rightarrow> frag \<Rightarrow> string list \<Rightarrow> int option \<Rightarrow> PatchCronInput \<Rightarrow> string option \<Rightarrow> Cron op" where
  "cron_update E s fr as n pin merged =
     bnd (stmt (cron_update_stmt E s fr as (cron_sets (2 + length as) n pin merged))) (first_row ErrNotFound)"

lemma cron_Patch_alt:
  "cron_Patch C E pj clock s pin fs =
     bnd (lift (ApplyToQuery fs ''metadata'' 2)) (\<lambda>(fr, as). bnd (cron_patch_next C E clock s pin) (\<lambda>n.
       if kp_Payload pin = [] then cron_update E s fr as n pin None
       else in_tx (
          bnd (query (\<lambda>_ d. rb (cron_where E s fr (s # as)) (\<lambda>P. Inr (map (\<lambda>k. pg_text E (k_payload k)) (filter P (crons d)))))) (\<lambda>rows.
          bnd (first_row ErrNotFound rows) (\<lambda>raw.
          bnd (lift (mergePayload E pj raw (kp_Payload pin))) (\<lambda>merged.
          bnd (cron_update E s fr as n pin (Some merged)) (\<lambda>c. ret (Commit c))))))))"
  unfolding cron_Patch_def cron_update_def Let_def by (rule refl)

lemma cron_update_Inr:
  assumes "ApplyToQuery fs ''metadata'' 2 = Inr (fr, as)" and "cron_keys E (db w)"
    and "cron_update E s fr as n pin merged w = (Inr c, w')"
  shows "\<exists>i k. pg_uuid E s = Some i \<and> k \<in> set (crons (db w)) \<and> cron_sel E i fs k \<and>
    (\<forall>m. merged = Some m \<longrightarrow> pg_jsonb E m \<noteq> None) \<and> (kp_Metadata pin \<noteq> [] \<longrightarrow> pg_jsonb E (kp_Metadata pin) \<noteq> None) \<and>
    c = cronCols E (cron_patched E n pin merged (k\<lparr>k_updated_at := now w\<rparr>)) \<and>
    db w' = upd_crons (\<lambda>x. k_cron_id x = i) (\<lambda>x. cron_patched E n pin merged (x\<lparr>k_updated_at := now w\<rparr>)) (db w)"
proof -
  obtain sets sargs where cs: "cron_sets (2 + length as) n pin merged = (sets, sargs)" by fastforce
  let ?pre = "KText s # map KText as"
  from assms(3)[unfolded cron_update_def cs] obtain P gs k ks where P: "cron_where E s fr (map karg_text (?pre @ sargs)) = Inr P"
    and gs: "res_map (apply_cron_set E (?pre @ sargs)) sets = Inr gs"
    and c: "filter P (crons (db w)) = k # ks" "c = cronCols E (fold (\<lambda>g. g) gs (k\<lparr>k_updated_at := now w\<rparr>))"
    and w': "db w' = upd_crons P (\<lambda>k. fold (\<lambda>g. g) gs (k\<lparr>k_updated_at := now w\<rparr>)) (db w)"
    by (auto simp: res_iff cron_update_stmt_def Let_def simp del: res_map_Inr)
  have "cron_sets (length ?pre + 1) n pin merged = (sets, sargs)" using cs by simp
  note m = cron_sets_mean[OF this gs]
  have "cron_where E s fr (s # as @ map karg_text sargs) = Inr P"
    using P by (simp add: comp_def)
  then obtain i where i: "pg_uuid E s = Some i" "P = cron_sel E i fs"
    using cron_where_Inr[OF assms(1)] by blast
  note k = c[unfolded i(2)]
  have u: "upd_crons (cron_sel E i fs) (\<lambda>x. cron_patched E n pin merged (x\<lparr>k_updated_at := now w\<rparr>)) (db w) =
      upd_crons (\<lambda>x. k_cron_id x = i) (\<lambda>x. cron_patched E n pin merged (x\<lparr>k_updated_at := now w\<rparr>)) (db w)"
    by (rule find_sel_unique(3)[OF assms(2) k(1)]) simp
  show ?thesis
    using i(1) find_sel_unique(1,2)[OF assms(2) k(1), of "\<lambda>x. x"] k(2) m w' u unfolding i(2) m(1) by auto
qed

lemma cron_update_Inl:
  assumes "cron_update E s fr as n pin merged w = (Inl e, w')"
  shows "db w' = db w"
proof -
  have nil: "upd_crons P f d = d" if "filter P (crons d) = []" for P f d
    using that by (intro upd_crons_none) (auto simp: filter_empty_conv)
  obtain sets sargs where cs: "cron_sets (2 + length as) n pin merged = (sets, sargs)" by fastforce
  show ?thesis
    using assms[unfolded cron_update_def cs]
    by (auto simp: res_iff cron_update_stmt_def Let_def first_row_def throw_def ret_def nil dest!: stmt_Inl split: list.splits)
      (metis list.exhaust)
qed

lemma patch_next_Inr:
  assumes "cron_patch_next C E clock s pin w = (Inr n, w')" and "cron_keys E (db w)" and "pg_uuid E s = Some i"
    and "k \<in> set (crons (db w))" "k_cron_id k = i"
  shows "db w' = db w \<and> now w' = now w \<and>
    (if kp_Schedule pin = [] \<and> kp_Timezone pin = [] then n = None
     else \<exists>x. n = Some x \<and> computeNextRun C clock (if kp_Schedule pin = [] then k_schedule k else kp_Schedule pin)
            (if kp_Timezone pin = [] then k_timezone k else kp_Timezone pin) = Inr x)"
proof -
  have "filter (\<lambda>x. k_cron_id x = i) (crons (db w)) = [k]"
    using assms(2,4,5) filter_key_single[of k_cron_id "crons (db w)" k] by (simp add: cron_keys_def)
  with assms(1,3) show ?thesis
    by (auto simp: cron_patch_next_def res_iff cast_uuid_def split: if_splits)
qed

lemma patch_next_frame:
  assumes "cron_patch_next C E clock s pin w = (r, w')"
  shows "db w' = db w" "now w' = now w"
  using assms
  by (auto simp: cron_patch_next_def bnd_def query_alt ret_def throw_def lift_def first_row_def
      split: if_splits sum.splits option.splits prod.splits list.splits)

text \<open>A successful \<^verbatim>\<open>Patch\<close>: the date it computed, the payload it merged under the lock, and its final statement.\<close>

definition merged_from :: "env \<Rightarrow> (string \<Rightarrow> CronPayload option) \<Rightarrow> PatchCronInput \<Rightarrow> cron_row \<Rightarrow> string option \<Rightarrow> bool" where
  "merged_from E pj pin k merged = (if kp_Payload pin = [] then merged = None
     else \<exists>m. merged = Some m \<and> mergePayload E pj (pg_text E (k_payload k)) (kp_Payload pin) = Inr m)"

lemma cron_Patch_Inr:
  assumes "cron_keys E (db w)" and "cron_Patch C E pj clock s pin fs w = (Inr c, w')"
  obtains fr as n merged w1 w2 w3 where "ApplyToQuery fs ''metadata'' 2 = Inr (fr, as)"
    and "cron_patch_next C E clock s pin w = (Inr n, w1)" and "cron_update E s fr as n pin merged w2 = (Inr c, w3)"
    and "db w2 = db w" "now w2 = now w" "db w' = db w3"
    and "\<And>i k. pg_uuid E s = Some i \<Longrightarrow> k \<in> set (crons (db w)) \<Longrightarrow> cron_sel E i fs k \<Longrightarrow> merged_from E pj pin k merged"
proof -
  from assms(2)[unfolded cron_Patch_alt] obtain fr as n w1 where q: "ApplyToQuery fs ''metadata'' 2 = Inr (fr, as)"
    and nx: "cron_patch_next C E clock s pin w = (Inr n, w1)"
    and up: "(if kp_Payload pin = [] then cron_update E s fr as n pin None
       else in_tx (
          bnd (query (\<lambda>_ d. rb (cron_where E s fr (s # as)) (\<lambda>P. Inr (map (\<lambda>k. pg_text E (k_payload k)) (filter P (crons d)))))) (\<lambda>rows.
          bnd (first_row ErrNotFound rows) (\<lambda>raw.
          bnd (lift (mergePayload E pj raw (kp_Payload pin))) (\<lambda>merged.
          bnd (cron_update E s fr as n pin (Some merged)) (\<lambda>c. ret (Commit c))))))) w1 = (Inr c, w')"
    by (auto simp: bnd_Inr lift_Inr simp del: in_tx_Inr split: prod.splits)
  note w1 = patch_next_frame[OF nx]
  show thesis
  proof (cases "kp_Payload pin = []")
    case True
    with up w1 show thesis by (intro that[OF q nx, of None w1 w']) (simp_all add: merged_from_def)
  next
    case False
    with up w1 obtain P k ks m w3 where P: "cron_where E s fr (s # as @ []) = Inr P" "filter P (crons (db w)) = k # ks"
        "mergePayload E pj (pg_text E (k_payload k)) (kp_Payload pin) = Inr m"
        "cron_update E s fr as n pin (Some m) (after (after w1)) = (Inr c, w3)" "db w' = db w3"
      by (auto simp: res_iff)
    show thesis
    proof (rule that[OF q nx P(4)])
      fix i k' assume i: "pg_uuid E s = Some i" and k': "k' \<in> set (crons (db w))" "cron_sel E i fs k'"
      have sel: "filter (cron_sel E i fs) (crons (db w)) = k # ks"
        using cron_where_Inr[OF q P(1)] i P(2) by auto
      have "k' = k"
        using find_sel_unique(1,2)[OF assms(1) sel, of "\<lambda>x. x"] k' assms(1)
          distinct_key_unique[of k_cron_id "crons (db w)" k' k] by (auto simp: cron_sel_def cron_keys_def)
      with False P(3) show "merged_from E pj pin k' (Some m)" by (simp add: merged_from_def)
    qed (use w1 P(5) in simp_all)
  qed
qed

text \<open>
  (C34) \<^verbatim>\<open>Crons.Patch\<close>, whichever database call fails: an error leaves the tables as they were, and success means that the named cron
  existed, the filters accept it, and only its row changed. Each column is written only if it is given; the date of the next run moves exactly if the
  schedule or the time zone is given, computed from the patched one and the stored other; the payload is the stored one, in the newer shape, merged
  with the given keys; the metadata are merged. Arguments of filters and of the \<^verbatim>\<open>SET\<close> list never mix, whatever is given.
\<close>

theorem cron_patch_exact:
  assumes "cron_keys E (db w)" and "cron_Patch C E pj clock s pin fs w = (r, w')"
  shows "case r of Inl e \<Rightarrow> db w' = db w
    | Inr c \<Rightarrow> \<exists>i k n merged. pg_uuid E s = Some i \<and> k \<in> set (crons (db w)) \<and> k_cron_id k = i \<and> visible E fs (k_metadata k) \<and>
        (if kp_Schedule pin = [] \<and> kp_Timezone pin = [] then n = None
         else \<exists>x. n = Some x \<and> computeNextRun C clock (if kp_Schedule pin = [] then k_schedule k else kp_Schedule pin)
                (if kp_Timezone pin = [] then k_timezone k else kp_Timezone pin) = Inr x) \<and>
        merged_from E pj pin k merged \<and> (\<forall>m. merged = Some m \<longrightarrow> pg_jsonb E m \<noteq> None) \<and>
        c = cronCols E (cron_patched E n pin merged (k\<lparr>k_updated_at := now w\<rparr>)) \<and>
        db w' = upd_crons (\<lambda>x. k_cron_id x = i) (\<lambda>x. cron_patched E n pin merged (x\<lparr>k_updated_at := now w\<rparr>)) (db w)"
proof (cases r)
  case (Inl e)
  from assms(2) show ?thesis
    unfolding Inl cron_Patch_alt
    by (auto simp: res_iff lift_def dest!: patch_next_frame(1) cron_update_Inl in_tx_atomic split: if_splits)
next
  case (Inr c)
  obtain fr as n merged w1 w2 w3 where q: "ApplyToQuery fs ''metadata'' 2 = Inr (fr, as)"
    and nx: "cron_patch_next C E clock s pin w = (Inr n, w1)"
    and u: "cron_update E s fr as n pin merged w2 = (Inr c, w3)" "db w2 = db w" "now w2 = now w" "db w' = db w3"
    and m: "\<And>i k. pg_uuid E s = Some i \<Longrightarrow> k \<in> set (crons (db w)) \<Longrightarrow> cron_sel E i fs k \<Longrightarrow> merged_from E pj pin k merged"
    using cron_Patch_Inr[OF assms(1) assms(2)[unfolded Inr]] by metis
  from cron_update_Inr[OF q _ u(1)] u(2,3) assms(1) obtain i k where i: "pg_uuid E s = Some i" "k \<in> set (crons (db w))" "cron_sel E i fs k"
    "\<forall>m. merged = Some m \<longrightarrow> pg_jsonb E m \<noteq> None"
    "c = cronCols E (cron_patched E n pin merged (k\<lparr>k_updated_at := now w\<rparr>))"
    "db w3 = upd_crons (\<lambda>x. k_cron_id x = i) (\<lambda>x. cron_patched E n pin merged (x\<lparr>k_updated_at := now w\<rparr>)) (db w)"
    by auto
  have sel: "k_cron_id k = i" "visible E fs (k_metadata k)" using i(3) by (simp_all add: cron_sel_def)
  note n = patch_next_Inr[OF nx assms(1) i(1,2) sel(1), THEN conjunct2, THEN conjunct2]
  show ?thesis
    unfolding Inr sum.case u(4)
    by (intro exI[of _ i] exI[of _ k] exI[of _ n] exI[of _ merged] conjI) (rule i sel n m[OF i(1-3)])+
qed

definition sample_patch :: PatchCronInput where
  "sample_patch = \<lparr>kp_Schedule = ''every'', kp_Timezone = [], kp_Enabled = Some False, kp_EndTime = None, kp_Payload = [],
     kp_Metadata = ''{}'', kp_OnRunCompleted = Some ''keep''\<rparr>"

theorem cron_patch_exact_witness:
  "\<exists>w'. cron_Patch sample_cronenv sample_env (\<lambda>_. None) 7 ''k2'' sample_patch [] sample_cron_world =
      (Inr (cronCols sample_env ((sample_cron ''k2'' ''every'' 67)\<lparr>k_enabled := False, k_on_run_completed := Some ''keep'', k_updated_at := 100\<rparr>)), w') \<and>
    (sample_cron ''k1'' ''every'' 90) \<in> set (crons (db w'))"
proof -
  obtain c w' where run: "cron_Patch sample_cronenv sample_env (\<lambda>_. None) 7 ''k2'' sample_patch [] sample_cron_world = (Inr c, w')"
  proof -
    have "\<not> isl (fst (cron_Patch sample_cronenv sample_env (\<lambda>_. None) 7 ''k2'' sample_patch [] sample_cron_world))" by code_simp
    then show thesis using that by (metis isl_def prod.collapse sum.exhaust_disc sum.collapse(2))
  qed
  have sp: "kp_Schedule sample_patch = ''every''" "kp_Timezone sample_patch = []" "kp_Payload sample_patch = []"
    and nw: "now sample_cron_world = 100" and cr: "set (crons (db sample_cron_world)) =
      {sample_cron ''k1'' ''every'' 90, sample_cron ''k2'' ''L'' 80, (sample_cron ''k3'' ''every'' 500)\<lparr>k_metadata := empty_obj\<rparr>}"
    and id: "pg_uuid sample_env ''k2'' = Some ''k2''"
    by (simp_all add: sample_patch_def sample_cron_world_def sample_world_def sample_env_def)
  obtain k n where k: "k \<in> set (crons (db sample_cron_world))" "k_cron_id k = ''k2''"
      "computeNextRun sample_cronenv 7 ''every'' (k_timezone k) = Inr n"
      "c = cronCols sample_env (cron_patched sample_env (Some n) sample_patch None (k\<lparr>k_updated_at := 100\<rparr>))"
      "db w' = upd_crons (\<lambda>x. k_cron_id x = ''k2'') (\<lambda>x. cron_patched sample_env (Some n) sample_patch None (x\<lparr>k_updated_at := 100\<rparr>)) (db sample_cron_world)"
    using cron_patch_exact[OF sample_cron_keys run] by (auto simp: sp nw id merged_from_def)
  from k(1,2) have kk: "k = sample_cron ''k2'' ''L'' 80" unfolding cr by (auto simp: sample_cron_def)
  with k(3) have "n = 67" by (simp add: computeNextRun_def computeNextRunFrom_def of_opt_def rb_def sample_cronenv_def sample_cron_def)
  with kk k(4) have "c = cronCols sample_env ((sample_cron ''k2'' ''every'' 67)\<lparr>k_enabled := False, k_on_run_completed := Some ''keep'', k_updated_at := 100\<rparr>)"
    by (simp add: cron_patched_def sample_patch_def sample_cron_def sample_env_def obj_merge_def empty_obj_def)
  moreover have "sample_cron ''k1'' ''every'' 90 \<in> set (crons (db w'))"
    unfolding k(5) by (simp add: sample_cron_world_def sample_cron_def)
  ultimately show ?thesis using run by blast
qed

section \<open>Create\<close>

definition new_cron :: "env \<Rightarrow> CreateCronInput \<Rightarrow> string \<Rightarrow> int \<Rightarrow> int \<Rightarrow> cron_row" where
  "new_cron E ci cronID nextRun t =
     \<lparr>k_cron_id = the (pg_uuid E cronID), k_thread_id = (if kc_ThreadID ci = [] then None else pg_uuid E (kc_ThreadID ci)),
      k_user_id = (if kc_UserID ci = [] then None else Some (kc_UserID ci)), k_assistant_id = the (pg_uuid E (kc_AssistantID ci)),
      k_schedule = kc_Schedule ci, k_next_run_date = Some nextRun, k_end_time = kc_EndTime ci,
      k_payload = the (pg_jsonb E (case kc_Payload ci of None \<Rightarrow> ''{}'' | Some p \<Rightarrow> p)),
      k_metadata = the (pg_jsonb E (case kc_Metadata ci of None \<Rightarrow> ''{}'' | Some m \<Rightarrow> m)),
      k_created_at = t, k_updated_at = t, k_enabled = kc_Enabled ci, k_timezone = kc_Timezone ci,
      k_on_run_completed = (if kc_OnRunCompleted ci = [] then None else Some (kc_OnRunCompleted ci)),
      k_encryption_context = (case kc_EncryptionContext ci of None \<Rightarrow> None | Some b \<Rightarrow> pg_jsonb E b)\<rparr>"

definition slot_arg :: "cron_arg list \<Rightarrow> nat option \<Rightarrow> cron_arg option" where
  "slot_arg args sl = (case sl of None \<Rightarrow> None | Some i \<Rightarrow> karg args i)"

lemma opt_arg_at:
  assumes "opt_arg a args = (args', sl)"
  obtains ext where "args' = args @ ext" and "\<And>post. slot_arg (args @ ext @ post) sl = a" and "sl = None \<longleftrightarrow> a = None"
proof (cases a)
  case None
  with assms that[of "[]"] show thesis by (simp add: opt_arg_def slot_arg_def)
next
  case (Some v)
  with assms have "args' = args @ [v]" "sl = Some (length args + 1)" by (auto simp: opt_arg_def)
  with Some that[of "[v]"] karg_at[of args v] show thesis by (simp add: slot_arg_def)
qed

lemma bind_opt_slot:
  assumes "sl = None \<longleftrightarrow> slot_arg A sl = None"
  shows "slot_arg A sl = text_arg s \<Longrightarrow> bind_opt (bind_text A) sl = Inr (if s = [] then None else Some s)"
    and "slot_arg A sl = text_arg s \<Longrightarrow>
      bind_opt (\<lambda>i. rb (bind_text A i) f) sl = (if s = [] then Inr None else rb (f s) (\<lambda>x. Inr (Some x)))"
    and "slot_arg A sl = map_option KTime e \<Longrightarrow> bind_opt (bind_time A) sl = Inr e"
    and "slot_arg A sl = map_option KText b \<Longrightarrow>
      bind_opt (\<lambda>i. rb (bind_text A i) f) sl = (case b of None \<Rightarrow> Inr None | Some x \<Rightarrow> rb (f x) (\<lambda>y. Inr (Some y)))"
  using assms by (cases sl; auto simp: slot_arg_def text_arg_def bind_opt_def bind_text_def bind_time_def split: option.splits if_splits)+

lemma cron_new_row_Inr:
  assumes "cron_create_args cronID n ci = (args, sl)" and "cron_new_row E (args @ post) sl t = Inr row"
  shows "row = new_cron E ci cronID n t" and "pg_uuid E cronID = Some (k_cron_id row)"
    and "pg_uuid E (kc_AssistantID ci) = Some (k_assistant_id row)"
    and "kc_ThreadID ci \<noteq> [] \<Longrightarrow> k_thread_id row \<noteq> None \<and> pg_uuid E (kc_ThreadID ci) = k_thread_id row"
proof -
  let ?base = "[KText cronID, KText (kc_AssistantID ci), KText (kc_Schedule ci), KText (kc_Timezone ci), KBool (kc_Enabled ci), KTime n,
    KText (case kc_Payload ci of None \<Rightarrow> ''{}'' | Some p \<Rightarrow> p), KText (case kc_Metadata ci of None \<Rightarrow> ''{}'' | Some m \<Rightarrow> m)]"
  obtain a1 th a2 us a3 en a4 orc enc where
    o: "opt_arg (text_arg (kc_ThreadID ci)) ?base = (a1, th)" "opt_arg (text_arg (kc_UserID ci)) a1 = (a2, us)"
      "opt_arg (map_option KTime (kc_EndTime ci)) a2 = (a3, en)" "opt_arg (text_arg (kc_OnRunCompleted ci)) a3 = (a4, orc)"
      "opt_arg (map_option KText (kc_EncryptionContext ci)) a4 = (args, enc)"
    and sl: "sl = \<lparr>sl_base = 2, sl_thread = th, sl_user = us, sl_end = en, sl_orc = orc, sl_enc = enc\<rparr>"
    using assms(1) by (auto simp: cron_create_args_def Let_def split: prod.splits)
  obtain e1 where e1: "a1 = ?base @ e1" "\<And>p. slot_arg (?base @ e1 @ p) th = text_arg (kc_ThreadID ci)" "th = None \<longleftrightarrow> text_arg (kc_ThreadID ci) = None"
    using opt_arg_at[OF o(1)] by blast
  obtain e2 where e2: "a2 = a1 @ e2" "\<And>p. slot_arg (a1 @ e2 @ p) us = text_arg (kc_UserID ci)" "us = None \<longleftrightarrow> text_arg (kc_UserID ci) = None"
    using opt_arg_at[OF o(2)] by blast
  obtain e3 where e3: "a3 = a2 @ e3" "\<And>p. slot_arg (a2 @ e3 @ p) en = map_option KTime (kc_EndTime ci)" "en = None \<longleftrightarrow> map_option KTime (kc_EndTime ci) = None"
    using opt_arg_at[OF o(3)] by blast
  obtain e4 where e4: "a4 = a3 @ e4" "\<And>p. slot_arg (a3 @ e4 @ p) orc = text_arg (kc_OnRunCompleted ci)" "orc = None \<longleftrightarrow> text_arg (kc_OnRunCompleted ci) = None"
    using opt_arg_at[OF o(4)] by blast
  obtain e5 where e5: "args = a4 @ e5" "\<And>p. slot_arg (a4 @ e5 @ p) enc = map_option KText (kc_EncryptionContext ci)"
      "enc = None \<longleftrightarrow> map_option KText (kc_EncryptionContext ci) = None"
    using opt_arg_at[OF o(5)] by blast
  let ?A = "args @ post" and ?rest = "e1 @ e2 @ e3 @ e4 @ e5 @ post"
  have A: "?A = ?base @ ?rest" using e1(1) e2(1) e3(1) e4(1) e5(1) by simp
  have "slot_arg ?A th = text_arg (kc_ThreadID ci)" "slot_arg ?A us = text_arg (kc_UserID ci)" "slot_arg ?A en = map_option KTime (kc_EndTime ci)"
    "slot_arg ?A orc = text_arg (kc_OnRunCompleted ci)" "slot_arg ?A enc = map_option KText (kc_EncryptionContext ci)"
    using e1(2)[of "e2 @ e3 @ e4 @ e5 @ post"] e2(2)[of "e3 @ e4 @ e5 @ post"] e3(2)[of "e4 @ e5 @ post"] e4(2)[of "e5 @ post"] e5(2)[of post]
    by (simp_all add: e1(1) e2(1) e3(1) e4(1) e5(1))
  note sa = this
  have s1: "bind_opt (\<lambda>i. rb (bind_text ?A i) (cast_uuid E)) th =
      (if kc_ThreadID ci = [] then Inr None else rb (cast_uuid E (kc_ThreadID ci)) (\<lambda>x. Inr (Some x)))"
    by (rule bind_opt_slot(2)[OF _ sa(1)]) (simp add: sa e1(3))
  have s2: "bind_opt (bind_text ?A) us = Inr (if kc_UserID ci = [] then None else Some (kc_UserID ci))"
    by (rule bind_opt_slot(1)[OF _ sa(2)]) (simp add: sa e2(3))
  have s3: "bind_opt (bind_time ?A) en = Inr (kc_EndTime ci)"
    by (rule bind_opt_slot(3)[OF _ sa(3)]) (simp add: sa e3(3))
  have s4: "bind_opt (bind_text ?A) orc = Inr (if kc_OnRunCompleted ci = [] then None else Some (kc_OnRunCompleted ci))"
    by (rule bind_opt_slot(1)[OF _ sa(4)]) (simp add: sa e4(3))
  have s5: "bind_opt (\<lambda>i. rb (bind_text ?A i) (cast_jsonb E)) enc =
      (case kc_EncryptionContext ci of None \<Rightarrow> Inr None | Some x \<Rightarrow> rb (cast_jsonb E x) (\<lambda>y. Inr (Some y)))"
    by (rule bind_opt_slot(4)[OF _ sa(5)]) (simp add: sa e5(3))
  note slots = s1 s2 s3 s4 s5
  have base: "bind_text ?A (Suc 0) = Inr cronID" "bind_text ?A 2 = Inr (kc_AssistantID ci)" "bind_text ?A 3 = Inr (kc_Schedule ci)"
    "bind_text ?A 4 = Inr (kc_Timezone ci)" "bind_bool ?A 5 = Inr (kc_Enabled ci)" "bind_time ?A 6 = Inr n"
    "bind_text ?A 7 = Inr (case kc_Payload ci of None \<Rightarrow> ''{}'' | Some p \<Rightarrow> p)"
    "bind_text ?A 8 = Inr (case kc_Metadata ci of None \<Rightarrow> ''{}'' | Some m \<Rightarrow> m)"
    unfolding A by (simp_all add: bind_text_def bind_bool_def bind_time_def karg_def)
  have eq: "cron_new_row E ?A sl t =
     rb (cast_uuid E cronID) (\<lambda>cid. rb (cast_uuid E (kc_AssistantID ci)) (\<lambda>aid.
     rb (if kc_ThreadID ci = [] then Inr None else rb (cast_uuid E (kc_ThreadID ci)) (\<lambda>x. Inr (Some x))) (\<lambda>th.
     rb (cast_jsonb E (case kc_Payload ci of None \<Rightarrow> ''{}'' | Some p \<Rightarrow> p)) (\<lambda>payload.
     rb (cast_jsonb E (case kc_Metadata ci of None \<Rightarrow> ''{}'' | Some m \<Rightarrow> m)) (\<lambda>meta.
     rb (case kc_EncryptionContext ci of None \<Rightarrow> Inr None | Some x \<Rightarrow> rb (cast_jsonb E x) (\<lambda>y. Inr (Some y))) (\<lambda>encr.
     Inr ((new_cron E ci cronID n t)\<lparr>k_cron_id := cid, k_thread_id := th, k_assistant_id := aid, k_payload := payload, k_metadata := meta,
       k_encryption_context := encr\<rparr>)))))))"
    by (simp add: sl cron_new_row_def Let_def base slots new_cron_def)
  from assms(2)[unfolded eq rb_Inr] obtain cid aid th payload meta encr where
    c: "pg_uuid E cronID = Some cid" "pg_uuid E (kc_AssistantID ci) = Some aid"
      "pg_jsonb E (case kc_Payload ci of None \<Rightarrow> ''{}'' | Some p \<Rightarrow> p) = Some payload"
      "pg_jsonb E (case kc_Metadata ci of None \<Rightarrow> ''{}'' | Some m \<Rightarrow> m) = Some meta"
    and th: "(if kc_ThreadID ci = [] then Inr None else rb (cast_uuid E (kc_ThreadID ci)) (\<lambda>x. Inr (Some x))) = Inr th"
    and encr: "(case kc_EncryptionContext ci of None \<Rightarrow> Inr None | Some x \<Rightarrow> rb (cast_jsonb E x) (\<lambda>y. Inr (Some y))) = Inr encr"
    and row: "row = (new_cron E ci cronID n t)\<lparr>k_cron_id := cid, k_thread_id := th, k_assistant_id := aid, k_payload := payload, k_metadata := meta,
       k_encryption_context := encr\<rparr>"
    unfolding cast_uuid_Inr cast_jsonb_Inr sum.inject by metis
  have th': "th = (if kc_ThreadID ci = [] then None else pg_uuid E (kc_ThreadID ci))" "kc_ThreadID ci \<noteq> [] \<Longrightarrow> th \<noteq> None"
    using th by (auto simp: res_iff split: if_splits)
  have "encr = (case kc_EncryptionContext ci of None \<Rightarrow> None | Some b \<Rightarrow> pg_jsonb E b)"
    using encr by (auto simp: res_iff split: option.splits)
  with c th'(1) row show "row = new_cron E ci cronID n t" by (simp add: new_cron_def)
  show "pg_uuid E cronID = Some (k_cron_id row)" "pg_uuid E (kc_AssistantID ci) = Some (k_assistant_id row)"
    using c row by simp_all
  show "kc_ThreadID ci \<noteq> [] \<Longrightarrow> k_thread_id row \<noteq> None \<and> pg_uuid E (kc_ThreadID ci) = k_thread_id row"
    using th' row by simp
qed

text \<open>One optional \<^verbatim>\<open>WITH\<close> clause: its arguments are appended, and it means what the filters mean whatever follows.\<close>

definition gate :: "bool \<Rightarrow> auth_filter list \<Rightarrow> string \<Rightarrow> cron_arg list \<Rightarrow> nat \<Rightarrow> err + frag option \<times> cron_arg list \<times> nat" where
  "gate b fs col args idx = (if b then Inr (None, args, idx)
     else rb (ApplyToQuery fs col idx) (\<lambda>(q, as). Inr (Some q, args @ map KText as, idx + length as)))"

lemma gate_Inr:
  assumes "gate b fs col args idx = Inr (q, args1, idx1)"
    and "idx = length args + 1"
  shows "idx1 = length args1 + 1" and "\<exists>ext. args1 = args @ ext"
    and "opt_auth E (map karg_text (args1 @ post)) q = Inr okA \<Longrightarrow>
      (okA = None \<longleftrightarrow> b) \<and> (\<forall>ok cv. okA = Some ok \<longrightarrow> ok cv = visible E fs (cv col))"
proof -
  have kt: "map (karg_text \<circ> KText) xs = xs" for xs by (induction xs) simp_all
  show "idx1 = length args1 + 1" "\<exists>ext. args1 = args @ ext"
    using assms by (auto simp: gate_def res_iff split: if_splits)
  show "(okA = None \<longleftrightarrow> b) \<and> (\<forall>ok cv. okA = Some ok \<longrightarrow> ok cv = visible E fs (cv col))"
    if okA: "opt_auth E (map karg_text (args1 @ post)) q = Inr okA"
  proof (cases b)
    case True
    with assms okA show ?thesis by (auto simp: gate_def opt_auth_def)
  next
    case False
    with assms obtain fr as where q: "ApplyToQuery fs col (Suc (length (map karg_text args))) = Inr (fr, as)"
      "q = Some fr" "args1 = args @ map KText as"
      by (auto simp: gate_def res_iff)
    with okA obtain ok where ok: "okA = Some ok" "auth_where E (map karg_text args @ as @ map karg_text post) fr = Inr ok"
      by (auto simp: opt_auth_def res_iff kt)
    with False ApplyToQuery_eval(2)[OF q(1)] show ?thesis by (auto simp: auth_where_def split: if_splits)
  qed
qed

text \<open>The two outcomes of the statement: what was there before and may be seen, or one new row whose clauses all hold.\<close>

definition create_outcome :: "env \<Rightarrow> cron_row \<Rightarrow> ((string \<Rightarrow> json) \<Rightarrow> bool) option \<Rightarrow> ((string \<Rightarrow> json) \<Rightarrow> bool) option \<Rightarrow>
    ((string \<Rightarrow> json) \<Rightarrow> bool) \<Rightarrow> db \<Rightarrow> Cron list \<Rightarrow> db \<Rightarrow> bool" where
  "create_outcome E row okA okT okF d rows d' \<longleftrightarrow>
     d' = d \<and> (\<forall>c \<in> set rows. \<exists>k \<in> set (crons d). k_cron_id k = k_cron_id row \<and> okF (\<lambda>_. k_metadata k) \<and> c = cronCols E k) \<or>
     rows = [cronCols E row] \<and> d' = d\<lparr>crons := crons d @ [row]\<rparr> \<and> k_cron_id row \<notin> k_cron_id ` set (crons d) \<and>
     (\<exists>a \<in> set (assistants d). a_assistant_id a = k_assistant_id row) \<and>
     (\<forall>ok. okA = Some ok \<longrightarrow> (\<exists>a \<in> set (assistants d). a_assistant_id a = k_assistant_id row \<and> ok (\<lambda>_. a_metadata a))) \<and>
     (\<forall>ok. okT = Some ok \<longrightarrow> (\<exists>th \<in> set (threads d). Some (t_thread_id th) = k_thread_id row \<and> ok (\<lambda>_. t_metadata th)))"

lemma create_stmt_Inr:
  assumes "cron_create_stmt E args sl aSQL tSQL fSQL t d = Inr (rows, d')"
  obtains row okA okT okF where "cron_new_row E args sl t = Inr row"
    and "opt_auth E (map karg_text args) aSQL = Inr okA" "opt_auth E (map karg_text args) tSQL = Inr okT"
    and "auth_where E (map karg_text args) fSQL = Inr okF"
    and "create_outcome E row okA okT okF d rows d'"
proof -
  from assms obtain row okA okT okF where r: "cron_new_row E args sl t = Inr row"
    "opt_auth E (map karg_text args) aSQL = Inr okA" "opt_auth E (map karg_text args) tSQL = Inr okT"
    "auth_where E (map karg_text args) fSQL = Inr okF"
    unfolding cron_create_stmt_def rb_Inr by blast
  define as where "as = (case okA of None \<Rightarrow> [k_assistant_id row]
    | Some ok \<Rightarrow> map a_assistant_id (filter (\<lambda>a. a_assistant_id a = k_assistant_id row \<and> ok (\<lambda>_. a_metadata a)) (assistants d)))"
  define ts where "ts = (case okT of None \<Rightarrow> [k_thread_id row]
    | Some ok \<Rightarrow> map (\<lambda>th. Some (t_thread_id th)) (filter (\<lambda>th. Some (t_thread_id th) = k_thread_id row \<and> ok (\<lambda>_. t_metadata th)) (threads d)))"
  define rws where "rws = concat (map (\<lambda>a. map (\<lambda>th. row\<lparr>k_assistant_id := a, k_thread_id := th\<rparr>) ts) as)"
  have ids: "a = k_assistant_id row" if "a \<in> set as" for a using that by (auto simp: as_def split: option.splits)
  have thr: "th = k_thread_id row" if "th \<in> set ts" for th using that by (auto simp: ts_def split: option.splits)
  have same: "x = row" if "x \<in> set rws" for x
    using that ids thr by (fastforce simp: rws_def)
  have run: "Inr (rows, d') = (let old = filter (\<lambda>k. k_cron_id k = k_cron_id row) (crons d); seen = filter (\<lambda>k. okF (\<lambda>_. k_metadata k)) old
     in if rws = [] \<or> old \<noteq> [] then Inr (map (cronCols E) (take 1 seen), d)
        else if \<not> list_ex (\<lambda>a. a_assistant_id a = k_assistant_id (hd rws)) (assistants d) then Inl fk_violation
        else Inr ([cronCols E (hd rws)], d\<lparr>crons := crons d @ [hd rws]\<rparr>))"
    using assms[symmetric] unfolding cron_create_stmt_def r Let_def as_def ts_def rws_def by simp
  show thesis
  proof (rule that[OF r], cases "rws = [] \<or> filter (\<lambda>k. k_cron_id k = k_cron_id row) (crons d) \<noteq> []")
    case True
    with run show "create_outcome E row okA okT okF d rows d'"
      unfolding create_outcome_def by (intro disjI1) (auto simp: Let_def dest!: in_set_takeD[of _ "Suc 0"])
  next
    case False
    then have h: "hd rws = row" using same by (cases rws) auto
    have ne: "as \<noteq> []" "ts \<noteq> []" using False by (auto simp: rws_def)
    show "create_outcome E row okA okT okF d rows d'"
      using run False h ne unfolding create_outcome_def
      by (intro disjI2) (auto simp: Let_def list_ex_iff filter_empty_conv as_def ts_def image_iff split: if_splits option.splits)
  qed
qed

text \<open>Everything \<^verbatim>\<open>Create\<close> computes before its one statement.\<close>

definition cron_prep :: "cronenv \<Rightarrow> int \<Rightarrow> string \<Rightarrow> CreateCronInput \<Rightarrow> err + cron_arg list \<times> cron_slots \<times> frag option \<times> frag option \<times> frag" where
  "cron_prep C clock cid ci =
     rb (computeNextRun C clock (kc_Schedule ci) (kc_Timezone ci)) (\<lambda>n. case cron_create_args cid n ci of (args, sl) \<Rightarrow>
     rb (gate (kc_AssistantFilters ci = []) (kc_AssistantFilters ci) ''assistant.metadata'' args (length args + 1)) (\<lambda>(aSQL, args1, idx1).
     rb (gate (kc_ThreadID ci = [] \<or> kc_ThreadFilters ci = []) (kc_ThreadFilters ci) ''thread.metadata'' args1 idx1) (\<lambda>(tSQL, args2, idx2).
     rb (ApplyToQuery (kc_Filters ci) ''c.metadata'' idx2) (\<lambda>(fSQL, fArgs). Inr (args2 @ map KText fArgs, sl, aSQL, tSQL, fSQL)))))"

lemma bnd_lift_rb: "bnd (lift (rb m f)) k = bnd (lift m) (\<lambda>x. bnd (lift (f x)) k)"
  by (cases m) simp_all

lemma bnd_lift_case: "bnd (lift (case p of (a, b) \<Rightarrow> f a b)) k = (case p of (a, b) \<Rightarrow> bnd (lift (f a b)) k)"
  by (cases p) simp

lemma cron_Create_alt:
  "cron_Create C E clock newUUID ci = bnd (lift (cron_prep C clock (if kc_CronID ci = [] then newUUID else kc_CronID ci) ci))
     (\<lambda>(args, sl, aSQL, tSQL, fSQL). bnd (stmt (cron_create_stmt E args sl aSQL tSQL fSQL)) (first_row ErrNotFound))"
  unfolding cron_Create_def cron_prep_def gate_def Let_def bnd_lift_rb bnd_lift_case lift_simps bnd_ret prod.case by (rule refl)

lemma create_outcome_visible:
  assumes "create_outcome E row okA okT okF d (c # rows) d'" and F: "\<And>cv. okF cv = visible E fs (cv col)"
    and A: "(okA = None \<longleftrightarrow> afs = []) \<and> (\<forall>ok cv. okA = Some ok \<longrightarrow> ok cv = visible E afs (cv acol))"
    and T: "(okT = None \<longleftrightarrow> \<not> b) \<and> (\<forall>ok cv. okT = Some ok \<longrightarrow> ok cv = visible E tfs (cv tcol))"
  shows "if k_cron_id row \<in> k_cron_id ` set (crons d)
     then d' = d \<and> (\<exists>k \<in> set (crons d). k_cron_id k = k_cron_id row \<and> visible E fs (k_metadata k) \<and> c = cronCols E k)
     else c = cronCols E row \<and> d' = d\<lparr>crons := crons d @ [row]\<rparr> \<and>
       (\<exists>a \<in> set (assistants d). a_assistant_id a = k_assistant_id row \<and> visible E afs (a_metadata a)) \<and>
       (b \<longrightarrow> (\<exists>th \<in> set (threads d). k_thread_id row = Some (t_thread_id th) \<and> visible E tfs (t_metadata th)))"
  using assms(1) unfolding create_outcome_def F
proof (elim disjE conjE)
  assume d: "d' = d" and "\<forall>c' \<in> set (c # rows). \<exists>k \<in> set (crons d). k_cron_id k = k_cron_id row \<and>
      visible E fs (k_metadata k) \<and> c' = cronCols E k"
  then obtain k where k: "k \<in> set (crons d)" "k_cron_id k = k_cron_id row" "visible E fs (k_metadata k)" "c = cronCols E k"
    by (meson list.set_intros(1))
  then have "k_cron_id row \<in> k_cron_id ` set (crons d)" by (metis imageI)
  with d k show ?thesis by (simp only: if_True) blast
next
  assume c: "c # rows = [cronCols E row]" "d' = d\<lparr>crons := crons d @ [row]\<rparr>"
    and new: "k_cron_id row \<notin> k_cron_id ` set (crons d)"
    and as: "\<exists>a \<in> set (assistants d). a_assistant_id a = k_assistant_id row"
    and asF: "\<forall>ok. okA = Some ok \<longrightarrow> (\<exists>a \<in> set (assistants d). a_assistant_id a = k_assistant_id row \<and> ok (\<lambda>_. a_metadata a))"
    and thF: "\<forall>ok. okT = Some ok \<longrightarrow> (\<exists>th \<in> set (threads d). Some (t_thread_id th) = k_thread_id row \<and> ok (\<lambda>_. t_metadata th))"
  have "\<exists>a \<in> set (assistants d). a_assistant_id a = k_assistant_id row \<and> visible E afs (a_metadata a)"
    using as asF A by (cases okA) (simp_all add: visible_def)
  moreover have "b \<longrightarrow> (\<exists>th \<in> set (threads d). k_thread_id row = Some (t_thread_id th) \<and> visible E tfs (t_metadata th))"
    using thF T by (cases okT) (auto simp: eq_commute[of "k_thread_id row"])
  ultimately show ?thesis using c new by (simp only: if_False list.inject simp_thms)
qed

text \<open>What the prepared arguments bind to: the row of the input, and each clause what its filters mean.\<close>

lemma cron_prep_Inr:
  assumes "cron_prep C clock cid ci = Inr (args', sl, aSQL, tSQL, fSQL)"
    and "cron_new_row E args' sl t = Inr row"
    and "opt_auth E (map karg_text args') aSQL = Inr okA" and "opt_auth E (map karg_text args') tSQL = Inr okT"
    and "auth_where E (map karg_text args') fSQL = Inr okF"
  shows "\<exists>n. computeNextRun C clock (kc_Schedule ci) (kc_Timezone ci) = Inr n \<and> row = new_cron E ci cid n t"
    and "(okA = None \<longleftrightarrow> kc_AssistantFilters ci = []) \<and> (\<forall>ok cv. okA = Some ok \<longrightarrow> ok cv = visible E (kc_AssistantFilters ci) (cv ''assistant.metadata''))"
    and "(okT = None \<longleftrightarrow> \<not> (kc_ThreadID ci \<noteq> [] \<and> kc_ThreadFilters ci \<noteq> [])) \<and>
      (\<forall>ok cv. okT = Some ok \<longrightarrow> ok cv = visible E (kc_ThreadFilters ci) (cv ''thread.metadata''))"
    and "\<And>cv. okF cv = visible E (kc_Filters ci) (cv ''c.metadata'')"
proof -
  from assms(1) obtain n where n: "computeNextRun C clock (kc_Schedule ci) (kc_Timezone ci) = Inr n"
    by (auto simp: cron_prep_def rb_Inr)
  obtain args sl' where "cron_create_args cid n ci = (args, sl')" by fastforce
  with assms(1) n obtain args1 idx1 args2 idx2 fArgs where as: "cron_create_args cid n ci = (args, sl)"
    and a: "gate (kc_AssistantFilters ci = []) (kc_AssistantFilters ci) ''assistant.metadata'' args (length args + 1) = Inr (aSQL, args1, idx1)"
    and t: "gate (kc_ThreadID ci = [] \<or> kc_ThreadFilters ci = []) (kc_ThreadFilters ci) ''thread.metadata'' args1 idx1 = Inr (tSQL, args2, idx2)"
    and f: "ApplyToQuery (kc_Filters ci) ''c.metadata'' idx2 = Inr (fSQL, fArgs)" and args': "args' = args2 @ map KText fArgs"
    by (auto simp: cron_prep_def res_iff)
  note a' = gate_Inr[OF a refl] and t' = gate_Inr[OF t gate_Inr(1)[OF a refl]]
  obtain e1 e2 where e: "args1 = args @ e1" "args2 = args1 @ e2" using a'(2) t'(2) by blast
  have "cron_new_row E (args @ (e1 @ e2 @ map KText fArgs)) sl t = Inr row" using assms(2) by (simp add: args' e)
  from n cron_new_row_Inr(1)[OF as this]
  show "\<exists>n. computeNextRun C clock (kc_Schedule ci) (kc_Timezone ci) = Inr n \<and> row = new_cron E ci cid n t" by blast
  show "(okA = None \<longleftrightarrow> kc_AssistantFilters ci = []) \<and> (\<forall>ok cv. okA = Some ok \<longrightarrow> ok cv = visible E (kc_AssistantFilters ci) (cv ''assistant.metadata''))"
    by (rule a'(3)[of E "e2 @ map KText fArgs"]) (use assms(3) in \<open>simp add: args' e\<close>)
  have "(okT = None \<longleftrightarrow> kc_ThreadID ci = [] \<or> kc_ThreadFilters ci = []) \<and>
      (\<forall>ok cv. okT = Some ok \<longrightarrow> ok cv = visible E (kc_ThreadFilters ci) (cv ''thread.metadata''))"
    by (rule t'(3)[of E "map KText fArgs"]) (use assms(4) in \<open>simp add: args'\<close>)
  then show "(okT = None \<longleftrightarrow> \<not> (kc_ThreadID ci \<noteq> [] \<and> kc_ThreadFilters ci \<noteq> [])) \<and>
      (\<forall>ok cv. okT = Some ok \<longrightarrow> ok cv = visible E (kc_ThreadFilters ci) (cv ''thread.metadata''))" by blast
  have q: "ApplyToQuery (kc_Filters ci) ''c.metadata'' (Suc (length (map karg_text args2))) = Inr (fSQL, fArgs)"
    using f t'(1) by simp
  have "map (karg_text \<circ> KText) fArgs = fArgs" by (simp add: map_idI)
  with assms(5) have "auth_where E (map karg_text args2 @ fArgs) fSQL = Inr okF" by (simp add: args')
  then show "okF cv = visible E (kc_Filters ci) (cv ''c.metadata'')" for cv
    by (rule auth_where_visible[OF q])
qed

text \<open>
  (C33) \<^verbatim>\<open>Crons.Create\<close>, whichever database call fails: an error leaves the tables as they were. A success under an id in use changes nothing
  and returns that cron, and only if the filters accept it. Otherwise exactly one cron was added, with the given columns and its next run computed from
  the schedule; its assistant exists and the assistant filters accept it, and with thread filters its thread exists and they accept that too.
  Every optional column and every filter gets its own argument, whichever are given.
\<close>

theorem cron_create_exact:
  assumes "cron_Create C E clock newUUID ci w = (r, w')"
  shows "case r of Inl e \<Rightarrow> db w' = db w
    | Inr c \<Rightarrow> \<exists>n row. computeNextRun C clock (kc_Schedule ci) (kc_Timezone ci) = Inr n \<and>
        row = new_cron E ci (if kc_CronID ci = [] then newUUID else kc_CronID ci) n (now w) \<and>
        (if k_cron_id row \<in> k_cron_id ` set (crons (db w))
         then db w' = db w \<and> (\<exists>k \<in> set (crons (db w)). k_cron_id k = k_cron_id row \<and> visible E (kc_Filters ci) (k_metadata k) \<and> c = cronCols E k)
         else c = cronCols E row \<and> db w' = (db w)\<lparr>crons := crons (db w) @ [row]\<rparr> \<and>
           (\<exists>a \<in> set (assistants (db w)). a_assistant_id a = k_assistant_id row \<and> visible E (kc_AssistantFilters ci) (a_metadata a)) \<and>
           (kc_ThreadID ci \<noteq> [] \<and> kc_ThreadFilters ci \<noteq> [] \<longrightarrow>
             (\<exists>th \<in> set (threads (db w)). k_thread_id row = Some (t_thread_id th) \<and> visible E (kc_ThreadFilters ci) (t_metadata th))))"
proof (cases r)
  case (Inl e)
  have nil: "d' = d" if "cron_create_stmt E args sl aSQL tSQL fSQL t d = Inr ([], d')" for args sl aSQL tSQL fSQL t d d'
    using that by (rule create_stmt_Inr) (auto simp: create_outcome_def)
  from assms show ?thesis
    unfolding Inl cron_Create_alt
    by (auto simp: res_iff lift_def first_row_def throw_def ret_def nil dest!: stmt_Inl split: list.splits) (metis list.exhaust)
next
  case (Inr c)
  let ?cid = "if kc_CronID ci = [] then newUUID else kc_CronID ci"
  from assms[unfolded Inr cron_Create_alt] obtain args sl aSQL tSQL fSQL rows where
    p: "cron_prep C clock ?cid ci = Inr (args, sl, aSQL, tSQL, fSQL)"
    and st: "cron_create_stmt E args sl aSQL tSQL fSQL (now w) (db w) = Inr (c # rows, db w')"
    by (auto simp: res_iff)
  from st obtain row okA okT okF where row: "cron_new_row E args sl (now w) = Inr row"
    and ok: "opt_auth E (map karg_text args) aSQL = Inr okA" "opt_auth E (map karg_text args) tSQL = Inr okT"
      "auth_where E (map karg_text args) fSQL = Inr okF"
    and out: "create_outcome E row okA okT okF (db w) (c # rows) (db w')"
    by (rule create_stmt_Inr)
  note prep = cron_prep_Inr[OF p row ok]
  from prep(1) create_outcome_visible[OF out prep(4,2,3)] show ?thesis
    unfolding Inr sum.case by blast
qed

definition sample_create_cron :: CreateCronInput where
  "sample_create_cron = \<lparr>kc_CronID = ''k9'', kc_AssistantID = ''a1'', kc_ThreadID = [], kc_UserID = ''u'', kc_Schedule = ''every'', kc_Timezone = ''UTC'',
     kc_Enabled = True, kc_EndTime = Some 900, kc_Payload = None, kc_Metadata = None, kc_OnRunCompleted = ''keep'', kc_EncryptionContext = None,
     kc_Filters = [], kc_AssistantFilters = [], kc_ThreadFilters = []\<rparr>"

theorem cron_create_exact_witness:
  "\<exists>w'. cron_Create sample_cronenv sample_env 7 ''g'' sample_create_cron sample_cron_world =
      (Inr (cronCols sample_env (new_cron sample_env sample_create_cron ''k9'' 67 100)), w') \<and>
    crons (db w') = crons (db sample_cron_world) @ [new_cron sample_env sample_create_cron ''k9'' 67 100]"
proof -
  obtain c w' where run: "cron_Create sample_cronenv sample_env 7 ''g'' sample_create_cron sample_cron_world = (Inr c, w')"
  proof -
    have "\<not> isl (fst (cron_Create sample_cronenv sample_env 7 ''g'' sample_create_cron sample_cron_world))" by code_simp
    then show thesis using that by (metis isl_def prod.collapse sum.exhaust_disc sum.collapse(2))
  qed
  have "computeNextRun sample_cronenv 7 ''every'' ''UTC'' = Inr 67" and id: "kc_CronID sample_create_cron = ''k9''"
    "kc_Schedule sample_create_cron = ''every''" "kc_Timezone sample_create_cron = ''UTC''" "now sample_cron_world = 100"
    by (simp_all add: computeNextRun_def computeNextRunFrom_def of_opt_def rb_def sample_cron_defs sample_create_cron_def)
  moreover have "k_cron_id (new_cron sample_env sample_create_cron ''k9'' 67 100) \<notin> k_cron_id ` set (crons (db sample_cron_world))"
    by (simp add: new_cron_def sample_cron_defs)
  ultimately show ?thesis
    using cron_create_exact[OF run] run by (auto simp: id)
qed

end
