(* ===== verification/Assistants_Correct.thy ===== *)
theory Assistants_Correct
  imports Assistants_Service Crons_Write
begin

text \<open>
  What the assistant store guarantees: every assistant agrees with the entry of its history it claims to be at, whatever sequence of calls was made
  and whichever failed; and what each operation does. \<open>findArgIdx\<close>, which looks arguments up by value, always finds the right value.
\<close>

section \<open>Arguments of Patch\<close>

lemma find_from_val: "val \<in> set (take n args) \<Longrightarrow> n \<le> length args \<Longrightarrow> args ! (find_from args val n - 1) = val \<and> find_from args val n \<le> length args"
  by (induction n) (auto simp: take_Suc_conv_app_nth)

lemma findArgIdx_val: "val \<in> set args \<Longrightarrow> args ! (findArgIdx args val - 1) = val" "val \<in> set args \<Longrightarrow> findArgIdx args val - 1 < length args"
  using find_from_val[of val "length args" args] by (cases args; auto simp: findArgIdx_def; fastforce)+

text \<open>The values an expression list stands for: the given ones, the others kept.\<close>

definition asst_patched :: "env \<Rightarrow> AsstPatchInput \<Rightarrow> assistant_row \<Rightarrow> assistant_row" where
  "asst_patched E pin a = a\<lparr>
     a_graph_id := (if ap_GraphID pin = [] then a_graph_id a else ap_GraphID pin),
     a_config := (if ap_Config pin = [] then a_config a else the (pg_jsonb E (ap_Config pin))),
     a_context := (if ap_ContextJSON pin = [] then a_context a else the (pg_jsonb E (ap_ContextJSON pin))),
     a_metadata := (if ap_Metadata pin = [] then a_metadata a else jconcat (a_metadata a) (the (pg_jsonb E (ap_Metadata pin)))),
     a_description := (case ap_Description pin of None \<Rightarrow> a_description a | d \<Rightarrow> d),
     a_name := (case ap_Name pin of None \<Rightarrow> a_name a | n \<Rightarrow> n)\<rparr>"

definition patch_parses :: "env \<Rightarrow> AsstPatchInput \<Rightarrow> bool" where
  "patch_parses E pin \<longleftrightarrow> (\<forall>s \<in> {ap_Config pin, ap_ContextJSON pin, ap_Metadata pin}. s \<noteq> [] \<longrightarrow> pg_jsonb E s \<noteq> None)"

text \<open>Places that hold the given values, whatever else the list holds.\<close>

definition places :: "string list \<Rightarrow> AsstPatchInput \<Rightarrow> asst_exprs \<Rightarrow> bool" where
  "places txt pin xs \<longleftrightarrow>
     map_option (\<lambda>i. txt ! (i - 1)) (xp_graph xs) = some_str (ap_GraphID pin) \<and>
     map_option (\<lambda>i. txt ! (i - 1)) (xp_config xs) = some_str (ap_Config pin) \<and>
     map_option (\<lambda>i. txt ! (i - 1)) (xp_context xs) = some_str (ap_ContextJSON pin) \<and>
     map_option (\<lambda>i. txt ! (i - 1)) (xp_meta xs) = some_str (ap_Metadata pin) \<and>
     map_option (\<lambda>i. txt ! (i - 1)) (xp_desc xs) = ap_Description pin \<and>
     map_option (\<lambda>i. txt ! (i - 1)) (xp_name xs) = ap_Name pin"

lemma place_json:
  assumes "map_option (\<lambda>i. txt ! (i - 1)) p = some_str s" and "s \<noteq> [] \<longrightarrow> pg_jsonb E s \<noteq> None"
  shows "(case p of None \<Rightarrow> Inr None | Some i \<Rightarrow> rb (cast_jsonb E (txt ! (i - 1))) (\<lambda>j. Inr (Some j))) = Inr (if s = [] then None else pg_jsonb E s)"
  using assms by (cases p) (auto simp: some_str_def cast_jsonb_def of_opt_def split: if_splits)

lemma place_text: "map_option (\<lambda>i. txt ! (i - 1)) p = o' \<Longrightarrow> (case p of None \<Rightarrow> old | Some i \<Rightarrow> Some (txt ! (i - 1))) = (case o' of None \<Rightarrow> old | x \<Rightarrow> x)"
  by (cases p) auto

lemma eval_places:
  assumes "places txt pin xs" and "patch_parses E pin"
  shows "eval_exprs E txt xs = Inr (asst_patched E pin)"
proof -
  note p = assms(1)[unfolded places_def]
  have graph: "(case xp_graph xs of None \<Rightarrow> g | Some i \<Rightarrow> txt ! (i - 1)) = (if ap_GraphID pin = [] then g else ap_GraphID pin)" for g
    using p by (cases "xp_graph xs") (auto simp: some_str_def split: if_splits)
  have parses: "ap_Config pin \<noteq> [] \<longrightarrow> pg_jsonb E (ap_Config pin) \<noteq> None" "ap_ContextJSON pin \<noteq> [] \<longrightarrow> pg_jsonb E (ap_ContextJSON pin) \<noteq> None"
    "ap_Metadata pin \<noteq> [] \<longrightarrow> pg_jsonb E (ap_Metadata pin) \<noteq> None"
    using assms(2) by (auto simp: patch_parses_def)
  have json: "(case xp_config xs of None \<Rightarrow> Inr None | Some i \<Rightarrow> rb (cast_jsonb E (txt ! (i - 1))) (\<lambda>j. Inr (Some j))) =
      Inr (if ap_Config pin = [] then None else pg_jsonb E (ap_Config pin))"
    "(case xp_context xs of None \<Rightarrow> Inr None | Some i \<Rightarrow> rb (cast_jsonb E (txt ! (i - 1))) (\<lambda>j. Inr (Some j))) =
      Inr (if ap_ContextJSON pin = [] then None else pg_jsonb E (ap_ContextJSON pin))"
    "(case xp_meta xs of None \<Rightarrow> Inr None | Some i \<Rightarrow> rb (cast_jsonb E (txt ! (i - 1))) (\<lambda>j. Inr (Some j))) =
      Inr (if ap_Metadata pin = [] then None else pg_jsonb E (ap_Metadata pin))"
    using p parses by (blast intro: place_json)+
  have opt: "(case (if s = [] then None else pg_jsonb E s) of None \<Rightarrow> x | Some j \<Rightarrow> f j) = (if s = [] then x else f (the (pg_jsonb E s)))"
    if "s \<noteq> [] \<longrightarrow> pg_jsonb E s \<noteq> None" for s :: string and x and f :: "json \<Rightarrow> json"
    using that by auto
  note txts = place_text[OF p[THEN conjunct2, THEN conjunct2, THEN conjunct2, THEN conjunct2, THEN conjunct1]]
    place_text[OF p[THEN conjunct2, THEN conjunct2, THEN conjunct2, THEN conjunct2, THEN conjunct2]]
  show ?thesis
    unfolding eval_exprs_def Let_def json rb_simps graph txts opt[OF parses(1)] opt[OF parses(2)] opt[OF parses(3)] asst_patched_def[abs_def]
    by (rule refl)
qed

lemma eval_parses:
  assumes "places txt pin xs" and "eval_exprs E txt xs = Inr f"
  shows "patch_parses E pin"
proof -
  have "s \<noteq> [] \<longrightarrow> pg_jsonb E s \<noteq> None"
    if "map_option (\<lambda>i. txt ! (i - 1)) p = some_str s" "(case p of None \<Rightarrow> Inr None | Some i \<Rightarrow> rb (cast_jsonb E (txt ! (i - 1))) (\<lambda>j. Inr (Some j))) = Inr x"
    for p s and x :: "json option"
    using that by (cases p) (auto simp: some_str_def res_iff split: if_splits dest: sym)
  note js = this
  from assms(2)[unfolded eval_exprs_def Let_def rb_Inr] obtain cfg ctx meta where
    "(case xp_config xs of None \<Rightarrow> Inr None | Some i \<Rightarrow> rb (cast_jsonb E (txt ! (i - 1))) (\<lambda>j. Inr (Some j))) = Inr cfg"
    "(case xp_context xs of None \<Rightarrow> Inr None | Some i \<Rightarrow> rb (cast_jsonb E (txt ! (i - 1))) (\<lambda>j. Inr (Some j))) = Inr ctx"
    "(case xp_meta xs of None \<Rightarrow> Inr None | Some i \<Rightarrow> rb (cast_jsonb E (txt ! (i - 1))) (\<lambda>j. Inr (Some j))) = Inr meta"
    by blast
  with assms(1) js show ?thesis unfolding places_def patch_parses_def by blast
qed

lemma add_expr_at:
  assumes "add_expr a args = (args', p)"
  obtains ext where "args' = args @ ext" and "\<And>post. map_option (\<lambda>i. map go_text (args @ ext @ post) ! (i - 1)) p = map_option go_text a"
    and "set_option a \<subseteq> set ext"
proof (cases a)
  case None
  with assms that[of "[]"] show thesis by (simp add: add_expr_def)
next
  case (Some v)
  with assms that[of "[v]"] show thesis by (auto simp: add_expr_def nth_append)
qed

lemma patch_args_places:
  assumes "asst_patch_args s as pin = (args, xs)"
  shows "places (map go_text args) pin xs" and "places (map go_text args) pin (asst_set_exprs args pin xs)"
    and "\<exists>ext. args = GoStr s # map GoStr as @ ext"
proof -
  let ?a0 = "GoStr s # map GoStr as"
  obtain a1 g a2 c a3 x a4 m a5 de n where
    o: "add_expr (map_option GoStr (some_str (ap_GraphID pin))) ?a0 = (a1, g)" "add_expr (map_option GoBytes (some_str (ap_Config pin))) a1 = (a2, c)"
      "add_expr (map_option GoBytes (some_str (ap_ContextJSON pin))) a2 = (a3, x)" "add_expr (map_option GoBytes (some_str (ap_Metadata pin))) a3 = (a4, m)"
      "add_expr (map_option GoStr (ap_Description pin)) a4 = (a5, de)" "add_expr (map_option GoStr (ap_Name pin)) a5 = (args, n)"
    and xs: "xs = \<lparr>xp_graph = g, xp_config = c, xp_context = x, xp_meta = m, xp_desc = de, xp_name = n\<rparr>"
    using assms by (auto simp: asst_patch_args_def Let_def split: prod.splits)
  obtain e1 where e1: "a1 = ?a0 @ e1" "\<And>p. map_option (\<lambda>i. map go_text (?a0 @ e1 @ p) ! (i - 1)) g = map_option go_text (map_option GoStr (some_str (ap_GraphID pin)))"
      "set_option (map_option GoStr (some_str (ap_GraphID pin))) \<subseteq> set e1" using add_expr_at[OF o(1)] by metis
  obtain e2 where e2: "a2 = a1 @ e2" "\<And>p. map_option (\<lambda>i. map go_text (a1 @ e2 @ p) ! (i - 1)) c = map_option go_text (map_option GoBytes (some_str (ap_Config pin)))"
      "set_option (map_option GoBytes (some_str (ap_Config pin))) \<subseteq> set e2" using add_expr_at[OF o(2)] by metis
  obtain e3 where e3: "a3 = a2 @ e3" "\<And>p. map_option (\<lambda>i. map go_text (a2 @ e3 @ p) ! (i - 1)) x = map_option go_text (map_option GoBytes (some_str (ap_ContextJSON pin)))"
      "set_option (map_option GoBytes (some_str (ap_ContextJSON pin))) \<subseteq> set e3" using add_expr_at[OF o(3)] by metis
  obtain e4 where e4: "a4 = a3 @ e4" "\<And>p. map_option (\<lambda>i. map go_text (a3 @ e4 @ p) ! (i - 1)) m = map_option go_text (map_option GoBytes (some_str (ap_Metadata pin)))"
      using add_expr_at[OF o(4)] by metis
  obtain e5 where e5: "a5 = a4 @ e5" "\<And>p. map_option (\<lambda>i. map go_text (a4 @ e5 @ p) ! (i - 1)) de = map_option go_text (map_option GoStr (ap_Description pin))"
      "set_option (map_option GoStr (ap_Description pin)) \<subseteq> set e5" using add_expr_at[OF o(5)] by metis
  obtain e6 where e6: "args = a5 @ e6" "\<And>p. map_option (\<lambda>i. map go_text (a5 @ e6 @ p) ! (i - 1)) n = map_option go_text (map_option GoStr (ap_Name pin))"
      "set_option (map_option GoStr (ap_Name pin)) \<subseteq> set e6" using add_expr_at[OF o(6)] by metis
  note eqs = e6(1) e5(1) e4(1) e3(1) e2(1) e1(1)
  have A: "args = ?a0 @ e1 @ e2 @ e3 @ e4 @ e5 @ e6" by (simp add: eqs)
  then show "\<exists>ext. args = GoStr s # map GoStr as @ ext" by simp
  have mm: "map_option go_text (map_option GoStr y) = y" "map_option go_text (map_option GoBytes y) = y" for y by (cases y; simp)+
  show pl: "places (map go_text args) pin xs"
    using e1(2)[of "e2 @ e3 @ e4 @ e5 @ e6"] e2(2)[of "e3 @ e4 @ e5 @ e6"] e3(2)[of "e4 @ e5 @ e6"] e4(2)[of "e5 @ e6"] e5(2)[of e6] e6(2)[of "[]"]
    unfolding places_def xs mm by (simp add: eqs)
  have val: "map_option (\<lambda>i. map go_text args ! (i - 1)) (map_option (\<lambda>s. findArgIdx args (C s)) y) = y"
    if "set_option (map_option C y) \<subseteq> set args" "\<And>s. go_text (C s) = s" for C y
    using that findArgIdx_val[of _ args] by (cases y) auto
  have "set e1 \<subseteq> set args" "set e2 \<subseteq> set args" "set e3 \<subseteq> set args" "set e5 \<subseteq> set args" "set e6 \<subseteq> set args"
    unfolding A by auto
  note sub = subset_trans[OF e1(3) this(1)] subset_trans[OF e2(3) this(2)] subset_trans[OF e3(3) this(3)]
    subset_trans[OF e5(3) this(4)] subset_trans[OF e6(3) this(5)]
  show "places (map go_text args) pin (asst_set_exprs args pin xs)"
    unfolding places_def asst_set_exprs_def asst_exprs.simps
    using pl[unfolded places_def] val[OF sub(1) go_text.simps(1)] val[OF sub(2) go_text.simps(2)] val[OF sub(3) go_text.simps(2)]
      val[OF sub(4) go_text.simps(1)] val[OF sub(5) go_text.simps(1)] by blast
qed

section \<open>Statements\<close>

definition asst_sel :: "env \<Rightarrow> uuid \<Rightarrow> auth_filter list \<Rightarrow> assistant_row \<Rightarrow> bool" where
  "asst_sel E i fs a = (a_assistant_id a = i \<and> visible E fs (a_metadata a))"

lemma asst_where_Inr:
  assumes "ApplyToQuery fs ''metadata'' (Suc (length pre)) = Inr (fr, as)" and "asst_where E s fr (pre @ as @ post) = Inr P"
  shows "\<exists>i. pg_uuid E s = Some i \<and> P = asst_sel E i fs"
  using assms(2) ApplyToQuery_eval(2)[OF assms(1), of E post]
  by (auto simp: asst_where_def auth_where_def res_iff asst_sel_def[abs_def] split: if_splits)

text \<open>The row of an assistant after a patch at time \<open>t\<close> that made version \<open>n\<close>.\<close>

definition patched_to :: "env \<Rightarrow> AsstPatchInput \<Rightarrow> int \<Rightarrow> int \<Rightarrow> assistant_row \<Rightarrow> assistant_row" where
  "patched_to E pin n t a = (asst_patched E pin a)\<lparr>a_version := n, a_updated_at := t\<rparr>"

definition upd_assistants :: "(assistant_row \<Rightarrow> bool) \<Rightarrow> (assistant_row \<Rightarrow> assistant_row) \<Rightarrow> db \<Rightarrow> db" where
  "upd_assistants P f d = d\<lparr>assistants := map (\<lambda>a. if P a then f a else a) (assistants d)\<rparr>"

lemma version_of_patched [simp]: "version_of (a\<lparr>a_version := n, a_updated_at := t\<rparr>) m u = version_of a m u"
  by (simp add: version_of_def)

lemma asst_patch_stmt_Inr:
  assumes "ApplyToQuery fs ''metadata'' 2 = Inr (fr, as)" and "asst_patch_args s as pin = (args, xs)"
    and "asst_patch_stmt E s fr args xs (asst_set_exprs args pin xs) t d = Inr (rows, d')"
  shows "\<exists>i. pg_uuid E s = Some i \<and> patch_parses E pin \<and>
    (rows = [] \<and> d' = d \<and> filter (asst_sel E i fs) (assistants d) = [] \<or>
     (\<exists>cur rest n. filter (asst_sel E i fs) (assistants d) = cur # rest \<and> next_version i d = Inr n \<and>
        rows = map (\<lambda>a. assistantCols E (patched_to E pin n t a)) (filter (\<lambda>a. a_assistant_id a = i) (assistants d)) \<and>
        d' = (upd_assistants (\<lambda>a. a_assistant_id a = i) (patched_to E pin n t) d)\<lparr>versions :=
               versions d @ [version_of (patched_to E pin n t cur) n t]\<rparr>))"
proof -
  note pl = patch_args_places[OF assms(2)]
  obtain ext where args: "args = GoStr s # map GoStr as @ ext" using pl(3) by blast
  from assms(3)[unfolded asst_patch_stmt_def Let_def rb_Inr] obtain i P fv fa where
    i: "cast_uuid E s = Inr i" and P: "asst_where E s fr (map go_text args) = Inr P"
    and ev: "eval_exprs E (map go_text args) xs = Inr fv" "eval_exprs E (map go_text args) (asst_set_exprs args pin xs) = Inr fa"
    and r: "(case filter P (assistants d) of [] \<Rightarrow> Inr ([], d) | cur # _ \<Rightarrow> rb (next_version i d) (\<lambda>n.
         Inr (map (\<lambda>a. assistantCols E ((fa a)\<lparr>a_version := n, a_updated_at := t\<rparr>)) (filter (\<lambda>a. a_assistant_id a = i) (assistants d)),
              d\<lparr>assistants := map (\<lambda>a. if a_assistant_id a = i then (fa a)\<lparr>a_version := n, a_updated_at := t\<rparr> else a) (assistants d),
                versions := versions d @ [version_of (fv cur) n t]\<rparr>))) = Inr (rows, d')"
    by blast
  have parses: "patch_parses E pin" by (rule eval_parses[OF pl(1) ev(1)])
  with ev eval_places[OF pl(1)] eval_places[OF pl(2)] have f: "fv = asst_patched E pin" "fa = asst_patched E pin" by simp_all
  have q: "ApplyToQuery fs ''metadata'' (Suc (length [s])) = Inr (fr, as)" using assms(1) by (simp add: numeral_2_eq_2)
  have "asst_where E s fr ([s] @ as @ map go_text ext) = Inr P" using P by (simp add: args comp_def)
  from asst_where_Inr[OF q this] i have "P = asst_sel E i fs" by (auto simp: res_iff)
  with r parses i show ?thesis
    by (intro exI[of _ i]) (auto simp: f res_iff upd_assistants_def patched_to_def[abs_def] split: list.splits)
qed

section \<open>Invariant\<close>

text \<open>
  Keys and references of \<^verbatim>\<open>assistant_versions\<close>, and the meaning of an assistant's version: there is such an entry in its history, and
  configuration and metadata are those of the entry.
\<close>

definition mirrors :: "assistant_row \<Rightarrow> version_row \<Rightarrow> bool" where
  "mirrors a v \<longleftrightarrow> v_assistant_id v = a_assistant_id a \<and> v_version v = a_version a \<and> v_config v = a_config a \<and> v_metadata v = a_metadata a"

definition version_key :: "version_row \<Rightarrow> uuid \<times> int" where
  "version_key v = (v_assistant_id v, v_version v)"

definition asst_ok :: "db \<Rightarrow> bool" where
  "asst_ok d \<longleftrightarrow> distinct (map version_key (versions d)) \<and> (\<forall>v \<in> set (versions d). v_assistant_id v \<in> a_assistant_id ` set (assistants d)) \<and>
     (\<forall>a \<in> set (assistants d). \<exists>v \<in> set (versions d). mirrors a v)"

lemma fold_max_ge: "(x::int) \<in> set (v # vs) \<Longrightarrow> x \<le> fold max vs v"
proof (induction vs arbitrary: v)
  case (Cons y ys)
  have le: "m \<le> fold max ys m" for m :: int by (induction ys arbitrary: m) (auto intro: order_trans[OF max.cobounded2])
  show ?case
  proof (cases "x = v \<or> x = y")
    case True
    with le[of "max y v"] show ?thesis by auto
  next
    case False
    with Cons show ?thesis by simp
  qed
qed simp

lemma next_version_fresh:
  assumes "next_version i d = Inr n" and "v \<in> set (versions d)" and "v_assistant_id v = i"
  shows "v_version v < n"
proof -
  obtain x xs where xs: "map v_version (filter (\<lambda>v. v_assistant_id v = i) (versions d)) = x # xs"
    using assms(2,3) by (cases "map v_version (filter (\<lambda>v. v_assistant_id v = i) (versions d))") (auto simp: filter_empty_conv)
  have "v_version v \<in> set (x # xs)" unfolding xs[symmetric] using assms(2,3) by auto
  from fold_max_ge[OF this] assms(1) xs show ?thesis
    by (auto simp: next_version_def int4_def split: if_splits)
qed

definition tables_ok :: "db \<Rightarrow> bool" where
  "tables_ok d \<longleftrightarrow> db_ok d \<and> asst_ok d"

lemma tables_ok_create:
  assumes "tables_ok d" and "a_assistant_id row \<notin> a_assistant_id ` set (assistants d)" and "a_version row = 1"
  shows "tables_ok (d\<lparr>assistants := assistants d @ [row], versions := versions d @ [version_of row 1 t]\<rparr>)"
proof -
  have "v_assistant_id v \<noteq> a_assistant_id row" if "v \<in> set (versions d)" for v
    using assms(1,2) that unfolding tables_ok_def asst_ok_def by metis
  with assms show ?thesis
    by (auto simp: tables_ok_def db_ok_def keys_ok_def refs_ok_def asst_ok_def version_key_def version_of_def mirrors_def)
qed

lemma no_first_version:
  assumes "asst_ok d" and "i \<notin> a_assistant_id ` set (assistants d)"
  shows "\<not> list_ex (\<lambda>v. v_assistant_id v = i \<and> v_version v = 1) (versions d)"
  using assms by (auto simp: asst_ok_def list_ex_iff)

lemma upd_asst_ids:
  assumes "\<And>a. a_assistant_id (f a) = a_assistant_id a"
  shows "map a_assistant_id (map (\<lambda>a. if P a then f a else a) xs) = map a_assistant_id xs"
    and "a_assistant_id ` set (map (\<lambda>a. if P a then f a else a) xs) = a_assistant_id ` set xs"
proof -
  show "map a_assistant_id (map (\<lambda>a. if P a then f a else a) xs) = map a_assistant_id xs" using assms by simp
  then show "a_assistant_id ` set (map (\<lambda>a. if P a then f a else a) xs) = a_assistant_id ` set xs" by (metis list.set_map)
qed

lemma db_ok_upd_assistants:
  assumes "db_ok d" and "\<And>a. a_assistant_id (f a) = a_assistant_id a"
  shows "db_ok ((upd_assistants P f d)\<lparr>versions := vs\<rparr>)" and "db_ok (upd_assistants P f d)"
  using assms(1) upd_asst_ids[of f P "assistants d", OF assms(2)]
  by (simp_all add: db_ok_def keys_ok_def refs_ok_def upd_assistants_def del: map_map list.set_map)

lemma asst_ok_upd:
  assumes "\<And>a. a_assistant_id (f a) = a_assistant_id a" and "distinct (map version_key vs)"
    and "\<forall>v \<in> set vs. v_assistant_id v \<in> a_assistant_id ` set (assistants d)"
    and "\<And>a. a \<in> set (assistants d) \<Longrightarrow> \<exists>v \<in> set vs. mirrors (if P a then f a else a) v"
  shows "asst_ok ((upd_assistants P f d)\<lparr>versions := vs\<rparr>)"
proof -
  let ?as = "map (\<lambda>a. if P a then f a else a) (assistants d)"
  have "\<forall>v \<in> set vs. v_assistant_id v \<in> a_assistant_id ` set ?as"
    unfolding upd_asst_ids(2)[OF assms(1)] by (rule assms(3))
  moreover have "\<forall>a \<in> set ?as. \<exists>v \<in> set vs. mirrors a v"
    unfolding set_map using assms(4) by blast
  moreover have "versions ((upd_assistants P f d)\<lparr>versions := vs\<rparr>) = vs" "assistants ((upd_assistants P f d)\<lparr>versions := vs\<rparr>) = ?as"
    by (simp_all add: upd_assistants_def)
  ultimately show ?thesis unfolding asst_ok_def using assms(2) by (simp only: simp_thms)
qed

lemma patched_to_simps [simp]:
  "a_assistant_id (patched_to E pin n t a) = a_assistant_id a" "a_version (patched_to E pin n t a) = n"
  by (simp_all add: patched_to_def asst_patched_def)

lemma tables_ok_patch:
  assumes "tables_ok d" and "cur \<in> set (assistants d)" "a_assistant_id cur = i" and "next_version i d = Inr n"
  shows "tables_ok ((upd_assistants (\<lambda>a. a_assistant_id a = i) (patched_to E pin n t) d)\<lparr>versions :=
               versions d @ [version_of (patched_to E pin n t cur) n t]\<rparr>)"
  unfolding tables_ok_def
proof
  let ?v = "version_of (patched_to E pin n t cur) n t"
  have v: "version_key ?v = (i, n)" "v_assistant_id ?v = i" using assms(3) by (simp_all add: version_key_def version_of_def)
  show "db_ok ((upd_assistants (\<lambda>a. a_assistant_id a = i) (patched_to E pin n t) d)\<lparr>versions := versions d @ [?v]\<rparr>)"
    using assms(1) by (intro db_ok_upd_assistants) (simp_all add: tables_ok_def)
  have "(i, n) \<notin> version_key ` set (versions d)"
    using next_version_fresh[OF assms(4)] by (auto simp: version_key_def)
  moreover have "i \<in> a_assistant_id ` set (assistants d)" using assms(2,3) by auto
  moreover have "\<exists>v \<in> set (versions d @ [?v]). mirrors (if a_assistant_id a = i then patched_to E pin n t a else a) v" if a: "a \<in> set (assistants d)" for a
  proof (cases "a_assistant_id a = i")
    case True
    with assms a have "a = cur"
      using distinct_key_unique[of a_assistant_id "assistants d" a cur] by (simp add: tables_ok_def db_ok_def keys_ok_def)
    with True show ?thesis by (simp add: mirrors_def version_of_def)
  next
    case False
    with assms(1) a show ?thesis by (auto simp: tables_ok_def asst_ok_def)
  qed
  ultimately show "asst_ok ((upd_assistants (\<lambda>a. a_assistant_id a = i) (patched_to E pin n t) d)\<lparr>versions := versions d @ [?v]\<rparr>)"
    using assms(1) v by (intro asst_ok_upd) (auto simp: tables_ok_def asst_ok_def)
qed

lemma tables_ok_set_latest:
  assumes "tables_ok d" and "v \<in> set (versions d)" and "\<And>a. P a \<Longrightarrow> a_assistant_id a = v_assistant_id v"
  shows "tables_ok (upd_assistants P (\<lambda>a. a\<lparr>a_config := v_config v, a_metadata := v_metadata v, a_version := v_version v\<rparr>) d)"
  unfolding tables_ok_def
proof
  let ?f = "\<lambda>a. a\<lparr>a_config := v_config v, a_metadata := v_metadata v, a_version := v_version v\<rparr>"
  show "db_ok (upd_assistants P ?f d)"
    using assms(1) by (intro db_ok_upd_assistants) (simp_all add: tables_ok_def)
  have "\<exists>x \<in> set (versions d). mirrors (if P a then ?f a else a) x" if "a \<in> set (assistants d)" for a
    using that assms by (auto simp: tables_ok_def asst_ok_def mirrors_def)
  then have "asst_ok ((upd_assistants P ?f d)\<lparr>versions := versions d\<rparr>)"
    using assms(1) by (intro asst_ok_upd) (auto simp: tables_ok_def asst_ok_def)
  then show "asst_ok (upd_assistants P ?f d)" by (simp add: upd_assistants_def)
qed

lemma del_assistants_tables:
  "assistants (del_assistants P d) = filter (\<lambda>a. \<not> P a) (assistants d)"
  "runs (del_assistants P d) = filter (\<lambda>r. r_assistant_id r \<notin> a_assistant_id ` {a \<in> set (assistants d). P a}) (runs d)"
  "versions (del_assistants P d) = filter (\<lambda>v. v_assistant_id v \<notin> a_assistant_id ` {a \<in> set (assistants d). P a}) (versions d)"
  "crons (del_assistants P d) = filter (\<lambda>k. k_assistant_id k \<notin> a_assistant_id ` {a \<in> set (assistants d). P a}) (crons d)"
  "threads (del_assistants P d) = threads d" "writes (del_assistants P d) = writes d" "blobs (del_assistants P d) = blobs d"
  "checkpoints (del_assistants P d) = checkpoints (del_runs (\<lambda>r. r_assistant_id r \<in> a_assistant_id ` {a \<in> set (assistants d). P a}) d)"
  by (simp_all add: del_assistants_def Let_def)

lemma tables_ok_delete:
  assumes "tables_ok d"
  shows "tables_ok (del_assistants P d)"
proof -
  let ?gone = "a_assistant_id ` {a \<in> set (assistants d). P a}"
  have stay: "x \<in> a_assistant_id ` {a \<in> set (assistants d). \<not> P a}" if "x \<in> a_assistant_id ` set (assistants d)" "x \<notin> ?gone" for x
    using that by auto
  have "db_ok (del_runs (\<lambda>r. r_assistant_id r \<in> ?gone) d)"
    using assms by (simp add: tables_ok_def del_runs_ok)
  then have runs: "keys_ok (del_runs (\<lambda>r. r_assistant_id r \<in> ?gone) d)" "refs_ok (del_runs (\<lambda>r. r_assistant_id r \<in> ?gone) d)"
    by (simp_all add: db_ok_def)
  have "keys_ok (del_assistants P d)"
    using runs(1) assms by (simp add: keys_ok_def del_assistants_tables tables_ok_def db_ok_def distinct_map_filter)
  moreover have "refs_ok (del_assistants P d)"
    using runs(2) stay unfolding refs_ok_def del_assistants_tables by (simp add: conj_imp_eq_imp_imp) 
  moreover have "asst_ok (del_assistants P d)"
  proof -
    have a: "asst_ok d" "distinct (map a_assistant_id (assistants d))" using assms by (simp_all add: tables_ok_def db_ok_def keys_ok_def)
    have "\<exists>v \<in> set (versions d). v_assistant_id v \<notin> ?gone \<and> mirrors a v" if x: "a \<in> set (assistants d)" "\<not> P a" for a
    proof -
      obtain v where v: "v \<in> set (versions d)" "mirrors a v" using a(1) x(1) unfolding asst_ok_def by blast
      have "a_assistant_id a \<notin> ?gone"
      proof
        assume "a_assistant_id a \<in> ?gone"
        then obtain b where "b \<in> set (assistants d)" "P b" "a_assistant_id a = a_assistant_id b" by blast
        with distinct_key_unique[OF a(2) x(1)] x(2) show False by metis
      qed
      with v have "v_assistant_id v \<notin> ?gone" by (simp only: mirrors_def simp_thms)
      with v show ?thesis by blast
    qed
    moreover have "distinct (map version_key (filter (\<lambda>v. v_assistant_id v \<notin> ?gone) (versions d)))"
      using a(1) by (simp add: asst_ok_def distinct_map_filter)
    moreover have "v_assistant_id v \<in> a_assistant_id ` {a \<in> set (assistants d). \<not> P a}" if "v \<in> set (versions d)" "v_assistant_id v \<notin> ?gone" for v
      using a(1) stay that by (simp only: asst_ok_def simp_thms)
    ultimately show ?thesis
      unfolding asst_ok_def del_assistants_tables set_filter by blast
  qed
  ultimately show ?thesis by (simp add: tables_ok_def db_ok_def)
qed

lemma asst_new_row_Inr: "asst_new_row E gen ci args t = Inr row \<Longrightarrow> a_version row = 1"
  by (auto simp: asst_new_row_def Let_def res_iff)

lemma tables_ok_create_stmt:
  assumes "tables_ok d" and "asst_create_stmt E gen ci args u t d = Inr (rows, d')"
  shows "tables_ok d'"
proof -
  from assms(2)[unfolded asst_create_stmt_def rb_Inr] obtain row P where row: "asst_new_row E gen ci args t = Inr row"
    and r: "(if list_ex (\<lambda>a. a_assistant_id a = a_assistant_id row) (assistants d)
       then Inr (map (assistantCols E) (take 1 (filter P (assistants d))), d)
       else Inr ([assistantCols E row], d\<lparr>assistants := assistants d @ [row],
            versions := (if list_ex (\<lambda>v. v_assistant_id v = a_assistant_id row \<and> v_version v = 1) (versions d) then versions d
                         else versions d @ [version_of row 1 t])\<rparr>)) = (Inr (rows, d') :: string + _)"
    by blast
  show ?thesis
  proof (cases "list_ex (\<lambda>a. a_assistant_id a = a_assistant_id row) (assistants d)")
    case True
    with r assms(1) show ?thesis by simp
  next
    case False
    then have new: "a_assistant_id row \<notin> a_assistant_id ` set (assistants d)" by (simp only: list_ex_key simp_thms)
    with no_first_version[of d] assms(1) have "\<not> list_ex (\<lambda>v. v_assistant_id v = a_assistant_id row \<and> v_version v = 1) (versions d)"
      unfolding tables_ok_def by blast
    with r False have "d' = d\<lparr>assistants := assistants d @ [row], versions := versions d @ [version_of row 1 t]\<rparr>"
      by simp
    with tables_ok_create[OF assms(1) new asst_new_row_Inr[OF row]] show ?thesis by simp
  qed
qed

section \<open>Operations keep the tables\<close>

lemma asst_latest_stmt_Inr:
  assumes "asst_latest_stmt E s version fr as d = Inr (rows, d')"
  obtains i where "pg_uuid E s = Some i" "filter (\<lambda>v. v_assistant_id v = i \<and> v_version v = version) (versions d) = []" "rows = []" "d' = d"
  | i ok v where "pg_uuid E s = Some i" "v \<in> set (versions d)" "v_assistant_id v = i" "v_version v = version"
      "auth_where E ([s, int_str version] @ as) fr = Inr ok"
      "rows = map (\<lambda>a. assistantCols E (a\<lparr>a_config := v_config v, a_metadata := v_metadata v, a_version := v_version v\<rparr>))
        (filter (\<lambda>a. a_assistant_id a = i \<and> ok (\<lambda>_. a_metadata a)) (assistants d))"
      "d' = upd_assistants (\<lambda>a. a_assistant_id a = i \<and> ok (\<lambda>_. a_metadata a))
        (\<lambda>a. a\<lparr>a_config := v_config v, a_metadata := v_metadata v, a_version := v_version v\<rparr>) d"
proof -
  from assms have "\<not> length ([s, int_str version] @ as) \<noteq> fold max (placeholders fr) 2"
    by (simp add: asst_latest_stmt_def Let_def split: if_splits)
  from assms[unfolded asst_latest_stmt_def Let_def if_not_P[OF this] rb_Inr] obtain n i ok where
    i': "cast_uuid E s = Inr i" "int4 version = Inr n" "auth_where E ([s, int_str version] @ as) fr = Inr ok"
    and r': "(case filter (\<lambda>v. v_assistant_id v = i \<and> v_version v = n) (versions d) of
           [] \<Rightarrow> Inr ([], d)
         | v # _ \<Rightarrow> Inr (map (\<lambda>a. assistantCols E (a\<lparr>a_config := v_config v, a_metadata := v_metadata v, a_version := v_version v\<rparr>))
             (filter (\<lambda>a. a_assistant_id a = i \<and> ok (\<lambda>_. a_metadata a)) (assistants d)),
                     d\<lparr>assistants := map (\<lambda>a. if a_assistant_id a = i \<and> ok (\<lambda>_. a_metadata a)
                       then a\<lparr>a_config := v_config v, a_metadata := v_metadata v, a_version := v_version v\<rparr> else a) (assistants d)\<rparr>)) =
        (Inr (rows, d') :: string + _)"
    by blast
  have i: "pg_uuid E s = Some i" "n = version" using i' by (auto simp: res_iff int4_def split: if_splits)
  note r = r'[unfolded i(2)]
  show thesis
  proof (cases "filter (\<lambda>v. v_assistant_id v = i \<and> v_version v = version) (versions d)")
    case Nil
    from r[unfolded Nil] have "rows = []" "d' = d" by simp_all
    from that(1)[OF i(1) Nil this] show thesis .
  next
    case (Cons v vs)
    then have "v \<in> set (filter (\<lambda>v. v_assistant_id v = i \<and> v_version v = version) (versions d))" by simp
    then have v: "v \<in> set (versions d)" "v_assistant_id v = i" "v_version v = version" by simp_all
    from r have d: "rows = map (\<lambda>a. assistantCols E (a\<lparr>a_config := v_config v, a_metadata := v_metadata v, a_version := v_version v\<rparr>))
        (filter (\<lambda>a. a_assistant_id a = i \<and> ok (\<lambda>_. a_metadata a)) (assistants d))"
      "d' = upd_assistants (\<lambda>a. a_assistant_id a = i \<and> ok (\<lambda>_. a_metadata a))
        (\<lambda>a. a\<lparr>a_config := v_config v, a_metadata := v_metadata v, a_version := v_version v\<rparr>) d"
      unfolding Cons by (simp_all add: upd_assistants_def)
    show thesis by (rule that(2)[OF i(1) v i'(3) d])
  qed
qed

text \<open>
  What every assistant operation keeps, for any property of the tables that its four ways of writing keep: a new assistant with its first version, a
  patch with its new version, a return to a version of the history, and deletion with cascades.
\<close>

locale asst_ops =
  fixes I :: "db \<Rightarrow> bool"
  assumes created: "I d \<Longrightarrow> asst_create_stmt E gen ci args u t d = Inr (rows, d') \<Longrightarrow> I d'"
    and patched: "I d \<Longrightarrow> cur \<in> set (assistants d) \<Longrightarrow> a_assistant_id cur = i \<Longrightarrow> next_version i d = Inr n \<Longrightarrow>
      I ((upd_assistants (\<lambda>a. a_assistant_id a = i) (patched_to E pin n t) d)\<lparr>versions := versions d @ [version_of (patched_to E pin n t cur) n t]\<rparr>)"
    and set_latest: "I d \<Longrightarrow> v \<in> set (versions d) \<Longrightarrow> (\<And>a. P a \<Longrightarrow> a_assistant_id a = v_assistant_id v) \<Longrightarrow>
      I (upd_assistants P (\<lambda>a. a\<lparr>a_config := v_config v, a_metadata := v_metadata v, a_version := v_version v\<rparr>) d)"
    and deleted: "I d \<Longrightarrow> I (del_assistants P d)"
    and threads_deleted: "I d \<Longrightarrow> I (del_threads Q d)"
begin

lemma keeps_asst_Create: "keeps I (asst_Create E gen ci)"
  unfolding asst_Create_def Let_def by (intro keeps_intro keeps_stmt) (erule (1) created)+

lemma keeps_asst_Patch: "keeps I (asst_Patch E s pin fs)"
proof (rule keepsI)
  fix w r w' assume I: "I (db w)" and run: "asst_Patch E s pin fs w = (r, w')"
  show "I (db w')"
  proof (cases "ApplyToQuery fs ''metadata'' 2")
    case (Inr q)
    obtain fr as args xs where q: "q = (fr, as)" and a: "asst_patch_args s as pin = (args, xs)" by fastforce
    have "keeps I (stmt (asst_patch_stmt E s fr args xs (asst_set_exprs args pin xs)))"
    proof (rule keeps_stmt)
      fix t d x d' assume d: "I d" and st: "asst_patch_stmt E s fr args xs (asst_set_exprs args pin xs) t d = Inr (x, d')"
      from asst_patch_stmt_Inr[OF Inr[unfolded q] a st] consider "d' = d"
        | i cur rest n where "filter (asst_sel E i fs) (assistants d) = cur # rest" "next_version i d = Inr n"
          "d' = (upd_assistants (\<lambda>a. a_assistant_id a = i) (patched_to E pin n t) d)\<lparr>versions := versions d @ [version_of (patched_to E pin n t cur) n t]\<rparr>"
        by blast
      then show "I d'"
      proof cases
        case (2 i cur rest n)
        from 2(1) have "cur \<in> set (assistants d) \<and> asst_sel E i fs cur" by (auto simp: filter_eq_Cons_iff)
        with patched[OF d _ _ 2(2)] 2(3) show ?thesis by (simp add: asst_sel_def)
      qed (use d in simp)
    qed
    then have "keeps I (asst_Patch E s pin fs)"
      unfolding asst_Patch_def Inr q by (simp add: a keeps_bnd keeps_first_row)
    from keepsD[OF this I run] show ?thesis .
  qed (use I run in \<open>simp add: asst_Patch_def throw_def\<close>)
qed

lemma keeps_asst_Delete: "keeps I (asst_Delete E s b fs)"
  unfolding asst_Delete_def by (intro keeps_intro keeps_stmt) (auto simp: res_iff intro: deleted threads_deleted)

lemma keeps_asst_SetLatest: "keeps I (asst_SetLatest E s n fs)"
  unfolding asst_SetLatest_def by (intro keeps_intro keeps_stmt) (auto elim!: asst_latest_stmt_Inr intro: set_latest)

end

lemma tables_ok_del_threads: "tables_ok d \<Longrightarrow> tables_ok (del_threads P d)"
  by (simp add: tables_ok_def del_threads_ok asst_ok_def)

interpretation asst_history: asst_ops tables_ok
  by unfold_locales
    (rule tables_ok_create_stmt tables_ok_patch tables_ok_set_latest tables_ok_delete tables_ok_del_threads; assumption | simp)+

end
