(* ===== verification/Assistants_Write.thy ===== *)
theory Assistants_Write
  imports Assistants_Correct
begin

text \<open>What each write of the assistant store does, on every outcome.\<close>

section \<open>Patch\<close>

lemma next_version_above:
  assumes "next_version i d = Inr n" and "v \<in> set (versions d)" and "v_assistant_id v = i"
  shows "\<exists>v \<in> set (versions d). v_assistant_id v = i \<and> v_version v = n - 1"
proof -
  obtain x xs where xs: "map v_version (filter (\<lambda>v. v_assistant_id v = i) (versions d)) = x # xs"
    using assms(2,3) by (cases "map v_version (filter (\<lambda>v. v_assistant_id v = i) (versions d))") (auto simp: filter_empty_conv)
  have "fold max ys y \<in> set (y # ys)" for ys and y :: int
  proof (induction ys arbitrary: y)
    case (Cons a ys)
    from Cons[of "max a y"] show ?case by (auto simp: max_def split: if_splits)
  qed simp
  moreover have "n - 1 = fold max xs x"
    using assms(1) unfolding next_version_def xs by (auto simp: int4_def split: if_splits)
  ultimately have "n - 1 \<in> set (map v_version (filter (\<lambda>v. v_assistant_id v = i) (versions d)))"
    unfolding xs by metis
  then show ?thesis by auto
qed

lemma asst_Patch_run:
  "ApplyToQuery fs ''metadata'' 2 = Inr (fr, as) \<Longrightarrow> asst_patch_args s as pin = (args, xs) \<Longrightarrow>
   asst_Patch E s pin fs = bnd (stmt (asst_patch_stmt E s fr args xs (asst_set_exprs args pin xs))) (first_row ErrNotFound)"
  by (simp add: asst_Patch_def)

lemma patch_rows_same:
  assumes "ApplyToQuery fs ''metadata'' 2 = Inr (fr, as)" and "asst_patch_args s as pin = (args, xs)"
    and "asst_patch_stmt E s fr args xs (asst_set_exprs args pin xs) t d = Inr ([], d')"
  shows "d' = d"
proof (rule ccontr)
  assume "d' \<noteq> d"
  with asst_patch_stmt_Inr[OF assms] obtain i cur rest where "filter (asst_sel E i fs) (assistants d) = cur # rest"
    "filter (\<lambda>a. a_assistant_id a = i) (assistants d) = []" by auto
  then have "cur \<in> set (filter (asst_sel E i fs) (assistants d))" "\<forall>a \<in> set (assistants d). a_assistant_id a \<noteq> i"
    by (simp_all add: filter_empty_conv)
  then show False by (simp add: asst_sel_def)
qed

lemma asst_Patch_Inl:
  assumes "asst_Patch E s pin fs w = (Inl e, w')"
  shows "db w' = db w"
proof (cases "ApplyToQuery fs ''metadata'' 2")
  case (Inr q)
  obtain fr as args xs where q: "q = (fr, as)" and a: "asst_patch_args s as pin = (args, xs)" by fastforce
  from assms show ?thesis
    unfolding asst_Patch_run[OF Inr[unfolded q] a]
    by (auto simp: bnd_def first_row_def throw_def ret_def dest!: stmt_Inl patch_rows_same[OF Inr[unfolded q] a] simp: stmt_Inr
        split: prod.splits sum.splits list.splits)
qed (use assms in \<open>simp add: asst_Patch_def throw_def\<close>)

text \<open>
  (C35) \<^verbatim>\<open>Assistants.Patch\<close>, whichever database call fails: an error leaves the tables as they were, and success means that the named assistant
  existed and the filters accepted it. The row then has the given columns, the others kept and the metadata merged, under the version number after
  the largest of its history; the history has gained exactly that row; and no other assistant and no other table changed. The places of the \<^verbatim>\<open>SET\<close>
  list, which \<open>findArgIdx\<close> finds by value, hold the right values even if two arguments are equal.
\<close>

theorem asst_patch_exact:
  assumes "tables_ok (db w)" and "asst_Patch E s pin fs w = (r, w')"
  shows "case r of Inl e \<Rightarrow> db w' = db w
    | Inr a \<Rightarrow> \<exists>i cur n new. pg_uuid E s = Some i \<and> cur \<in> set (assistants (db w)) \<and> a_assistant_id cur = i \<and> visible E fs (a_metadata cur) \<and>
        patch_parses E pin \<and> new = (asst_patched E pin cur)\<lparr>a_version := n, a_updated_at := now w\<rparr> \<and>
        (\<forall>v \<in> set (versions (db w)). v_assistant_id v = i \<longrightarrow> v_version v < n) \<and>
        (\<exists>v \<in> set (versions (db w)). v_assistant_id v = i \<and> v_version v = n - 1) \<and>
        a = assistantCols E new \<and>
        db w' = (db w)\<lparr>assistants := map (\<lambda>x. if a_assistant_id x = i then new else x) (assistants (db w)),
                       versions := versions (db w) @ [version_of new n (now w)]\<rparr>"
proof (cases r)
  case (Inl e)
  with assms(2) asst_Patch_Inl show ?thesis by simp
next
  case (Inr a)
  obtain fr as where q1: "ApplyToQuery fs ''metadata'' 2 = Inr (fr, as)"
    using assms(2) unfolding Inr asst_Patch_def by (auto simp: res_iff lift_def)
  obtain args xs where q2: "asst_patch_args s as pin = (args, xs)" by fastforce
  obtain rows d where q: "asst_patch_stmt E s fr args xs (asst_set_exprs args pin xs) (now w) (db w) = Inr (a # rows, d)" "db w' = d"
    using assms(2) unfolding Inr asst_Patch_run[OF q1 q2] by (auto simp: res_iff)
  from asst_patch_stmt_Inr[OF q1 q2 q(1)] obtain i cur rest n where i: "pg_uuid E s = Some i" "patch_parses E pin"
    "filter (asst_sel E i fs) (assistants (db w)) = cur # rest" "next_version i (db w) = Inr n"
    "a # rows = map (\<lambda>a. assistantCols E (patched_to E pin n (now w) a)) (filter (\<lambda>a. a_assistant_id a = i) (assistants (db w)))"
    "d = (upd_assistants (\<lambda>a. a_assistant_id a = i) (patched_to E pin n (now w)) (db w))\<lparr>versions :=
            versions (db w) @ [version_of (patched_to E pin n (now w) cur) n (now w)]\<rparr>"
    by (metis list.distinct(1))
  let ?new = "patched_to E pin n (now w) cur"
  have "cur \<in> set (filter (asst_sel E i fs) (assistants (db w)))" unfolding i(3) by simp
  then have cur: "cur \<in> set (assistants (db w))" "a_assistant_id cur = i" "visible E fs (a_metadata cur)" by (simp_all add: asst_sel_def)
  have dist: "distinct (map a_assistant_id (assistants (db w)))" using assms(1) by (simp add: tables_ok_def db_ok_def keys_ok_def)
  then have one: "x = cur" if "x \<in> set (assistants (db w))" "a_assistant_id x = i" for x
    using that cur(1,2) by (metis distinct_key_unique)
  obtain v where v: "v \<in> set (versions (db w))" "v_assistant_id v = i"
    using assms(1) cur(1,2) unfolding tables_ok_def asst_ok_def mirrors_def by metis
  have "a = assistantCols E ?new" using i(5) filter_key_single[OF dist cur(1)] cur(2) by simp
  moreover have "map (\<lambda>a. if a_assistant_id a = i then patched_to E pin n (now w) a else a) (assistants (db w)) =
      map (\<lambda>x. if a_assistant_id x = i then ?new else x) (assistants (db w))"
    using one by auto
  then have "db w' = (db w)\<lparr>assistants := map (\<lambda>x. if a_assistant_id x = i then ?new else x) (assistants (db w)),
                       versions := versions (db w) @ [version_of ?new n (now w)]\<rparr>"
    using q(2) i(6) by (simp add: upd_assistants_def)
  ultimately show ?thesis
    unfolding Inr sum.case using i(1,2) cur next_version_fresh[OF i(4)] next_version_above[OF i(4) v]
    by (intro exI[of _ i] exI[of _ cur] exI[of _ n] exI[of _ ?new]) (auto simp: patched_to_def)
qed

definition sample_versions :: "version_row list" where
  "sample_versions = [version_of sample_assistant 1 0, version_of (sample_assistant\<lparr>a_name := Some ''old''\<rparr>) 4 0]"

definition sample_asst_world :: world where
  "sample_asst_world = sample_world\<lparr>db := (db sample_world)\<lparr>versions := sample_versions\<rparr>\<rparr>"

definition sample_asst_patch :: AsstPatchInput where
  "sample_asst_patch = \<lparr>ap_Name = Some ''x'', ap_Description = Some ''x'', ap_GraphID = ''x'', ap_Config = [], ap_ContextJSON = [], ap_Metadata = ''{}''\<rparr>"

lemma sample_asst_ok: "tables_ok (db sample_asst_world)"
  using sample_ok by (simp add: sample_asst_world_def tables_ok_def asst_ok_def db_ok_def keys_ok_def refs_ok_def sample_versions_def
      sample_world_def sample_db_def version_key_def version_of_def mirrors_def sample_assistant_def)

theorem asst_patch_exact_witness:
  "\<exists>a w'. asst_Patch sample_env ''a1'' sample_asst_patch [] sample_asst_world = (Inr a, w') \<and> AsstVersion a = 5 \<and> AsstName a = ''x'' \<and> AsstGraphID a = ''x''"
proof -
  have "\<not> isl (fst (asst_Patch sample_env ''a1'' sample_asst_patch [] sample_asst_world))" by code_simp
  then obtain a w' where run: "asst_Patch sample_env ''a1'' sample_asst_patch [] sample_asst_world = (Inr a, w')"
    by (metis isl_def prod.collapse sum.collapse(2))
  obtain cur n where a: "\<forall>v \<in> set (versions (db sample_asst_world)). v_assistant_id v = ''a1'' \<longrightarrow> v_version v < n"
    "\<exists>v \<in> set (versions (db sample_asst_world)). v_assistant_id v = ''a1'' \<and> v_version v = n - 1"
    "a = assistantCols sample_env ((asst_patched sample_env sample_asst_patch cur)\<lparr>a_version := n, a_updated_at := now sample_asst_world\<rparr>)"
    using asst_patch_exact[OF sample_asst_ok run] by (auto simp: sample_env_def)
  from a(1,2) have "n = 5"
    by (auto simp: sample_asst_world_def sample_versions_def version_of_def sample_assistant_def)
  with run a(3) show ?thesis by (simp add: assistantCols_def asst_patched_def sample_asst_patch_def str_of_def)
qed

section \<open>Create\<close>

definition new_assistant :: "env \<Rightarrow> uuid \<Rightarrow> AsstCreateInput \<Rightarrow> int \<Rightarrow> assistant_row" where
  "new_assistant E i ci t = \<lparr>a_assistant_id = i, a_graph_id = ac_GraphID ci, a_version = 1, a_created_at = t, a_updated_at = t,
     a_config = the (pg_jsonb E (case ac_Config ci of None \<Rightarrow> ''{}'' | Some c \<Rightarrow> c)),
     a_context = the (pg_jsonb E (case ac_ContextJSON ci of None \<Rightarrow> ''{}'' | Some c \<Rightarrow> c)),
     a_metadata = the (pg_jsonb E (case ac_Metadata ci of None \<Rightarrow> ''{}'' | Some m \<Rightarrow> m)),
     a_name = Some (ac_Name ci), a_description = ac_Description ci\<rparr>"

text \<open>The id the new assistant is to have.\<close>

definition asst_id :: "env \<Rightarrow> uuid \<Rightarrow> AsstCreateInput \<Rightarrow> uuid option" where
  "asst_id E gen ci = (if ac_AssistantID ci = [] then Some gen else pg_uuid E (ac_AssistantID ci))"

lemma asst_new_row_eq:
  assumes "asst_new_row E gen ci (asst_create_args ci @ ext) t = Inr row"
  shows "\<exists>i. asst_id E gen ci = Some i \<and> row = new_assistant E i ci t"
proof (cases "ac_AssistantID ci = []")
  case True
  with assms show ?thesis
    by (auto simp: asst_new_row_def asst_create_args_def asst_id_def new_assistant_def Let_def res_iff str_of_def numeral_nat)
next
  case False
  with assms show ?thesis
    by (auto simp: asst_new_row_def asst_create_args_def asst_id_def new_assistant_def Let_def res_iff str_of_def numeral_nat)
qed

lemma asst_create_stmt_Inr:
  assumes "asst_ok d" and "asst_create_stmt E gen ci (asst_create_args ci @ ext) u t d = Inr (rows, d')"
  obtains i where "asst_id E gen ci = Some i" "i \<notin> a_assistant_id ` set (assistants d)" "rows = [assistantCols E (new_assistant E i ci t)]"
      "d' = d\<lparr>assistants := assistants d @ [new_assistant E i ci t], versions := versions d @ [version_of (new_assistant E i ci t) 1 t]\<rparr>"
  | i P where "asst_id E gen ci = Some i" "i \<in> a_assistant_id ` set (assistants d)" "rows = map (assistantCols E) (take 1 (filter P (assistants d)))" "d' = d"
      "(case u of None \<Rightarrow> Inr (\<lambda>a. False)
        | Some fr \<Rightarrow> asst_where E (str_of ((asst_create_args ci @ ext) ! 0)) fr (map str_of (asst_create_args ci @ ext))) = Inr P"
proof -
  from assms(2)[unfolded asst_create_stmt_def rb_Inr] obtain row P where row: "asst_new_row E gen ci (asst_create_args ci @ ext) t = Inr row"
    and P: "(case u of None \<Rightarrow> Inr (\<lambda>a. False)
        | Some fr \<Rightarrow> asst_where E (str_of ((asst_create_args ci @ ext) ! 0)) fr (map str_of (asst_create_args ci @ ext))) = Inr P"
    and r: "(if list_ex (\<lambda>a. a_assistant_id a = a_assistant_id row) (assistants d)
       then Inr (map (assistantCols E) (take 1 (filter P (assistants d))), d)
       else Inr ([assistantCols E row], d\<lparr>assistants := assistants d @ [row],
            versions := (if list_ex (\<lambda>v. v_assistant_id v = a_assistant_id row \<and> v_version v = 1) (versions d) then versions d
                         else versions d @ [version_of row 1 t])\<rparr>)) = (Inr (rows, d') :: string + _)"
    by blast
  from asst_new_row_eq[OF row] obtain i where i: "asst_id E gen ci = Some i" "row = new_assistant E i ci t" by blast
  have id: "a_assistant_id row = i" by (simp add: i new_assistant_def)
  show thesis
  proof (cases "i \<in> a_assistant_id ` set (assistants d)")
    case True
    then have "list_ex (\<lambda>a. a_assistant_id a = a_assistant_id row) (assistants d)" by (simp only: id list_ex_key)
    with r have "rows = map (assistantCols E) (take 1 (filter P (assistants d)))" "d' = d" by auto
    from that(2)[OF i(1) True this P] show thesis .
  next
    case False
    then have "\<not> list_ex (\<lambda>a. a_assistant_id a = a_assistant_id row) (assistants d)" by (simp only: id list_ex_key simp_thms)
    with r no_first_version[OF assms(1) False] have "rows = [assistantCols E row]"
      "d' = d\<lparr>assistants := assistants d @ [row], versions := versions d @ [version_of row 1 t]\<rparr>" by (simp_all add: id)
    from that(1)[OF i(1) False this[unfolded i(2)]] show thesis .
  qed
qed

text \<open>What a creation may answer, given the tables before it.\<close>

definition asst_created :: "env \<Rightarrow> uuid \<Rightarrow> AsstCreateInput \<Rightarrow> int \<Rightarrow> db \<Rightarrow> Assistant \<Rightarrow> db \<Rightarrow> bool" where
  "asst_created E gen ci t d a d' \<longleftrightarrow> (\<exists>i. asst_id E gen ci = Some i \<and>
     (if i \<in> a_assistant_id ` set (assistants d)
      then ac_IfExists ci = ''do_nothing'' \<and> ac_AssistantID ci \<noteq> [] \<and> d' = d \<and>
           (\<exists>cur \<in> set (assistants d). a_assistant_id cur = i \<and> visible E (ac_Filters ci) (a_metadata cur) \<and> a = assistantCols E cur)
      else a = assistantCols E (new_assistant E i ci t) \<and>
           d' = d\<lparr>assistants := assistants d @ [new_assistant E i ci t], versions := versions d @ [version_of (new_assistant E i ci t) 1 t]\<rparr>))"

lemma create_plain:
  assumes "asst_ok d" and "asst_create_stmt E gen ci (asst_create_args ci) None t d = Inr (a # rows, d')"
  shows "asst_created E gen ci t d a d'"
proof -
  from assms(2) have "asst_create_stmt E gen ci (asst_create_args ci @ []) None t d = Inr (a # rows, d')" by simp
  from assms(1) this show ?thesis
    by (cases rule: asst_create_stmt_Inr) (auto simp: asst_created_def)
qed

lemma create_union:
  assumes "asst_ok d" and "ac_IfExists ci = ''do_nothing''" "ac_AssistantID ci \<noteq> []"
    and q: "ApplyToQuery (ac_Filters ci) ''metadata'' (length (asst_create_args ci) + 1) = Inr (fr, as)"
    and st: "asst_create_stmt E gen ci (asst_create_args ci @ map Some as) (Some fr) t d = Inr (a # rows, d')"
  shows "asst_created E gen ci t d a d'"
  using assms(1) st
proof (cases rule: asst_create_stmt_Inr)
  case (1 i)
  then show ?thesis by (simp add: asst_created_def)
next
  case (2 i P)
  have q': "ApplyToQuery (ac_Filters ci) ''metadata'' (Suc (length (map str_of (asst_create_args ci)))) = Inr (fr, as)" using q by simp
  have hd: "str_of ((asst_create_args ci @ map Some as) ! 0) = ac_AssistantID ci" using assms(3) by (simp add: asst_create_args_def str_of_def)
  have "asst_where E (ac_AssistantID ci) fr (map str_of (asst_create_args ci) @ as @ []) = Inr P"
    using 2(5) unfolding option.case hd by (simp add: comp_def str_of_def)
  from asst_where_Inr[OF q' this] 2(1) assms(3) have P: "P = asst_sel E i (ac_Filters ci)" by (simp add: asst_id_def)
  obtain x xs where x: "filter P (assistants d) = x # xs" "a = assistantCols E x"
    using 2(3) by (cases "filter P (assistants d)") auto
  then have "x \<in> set (filter P (assistants d))" by simp
  then have "x \<in> set (assistants d) \<and> a_assistant_id x = i \<and> visible E (ac_Filters ci) (a_metadata x)" by (simp add: P asst_sel_def)
  with x(2) have "\<exists>cur \<in> set (assistants d). a_assistant_id cur = i \<and> visible E (ac_Filters ci) (a_metadata cur) \<and> a = assistantCols E cur" by blast
  with 2(1,2,4) assms(2,3) show ?thesis by (simp add: asst_created_def)
qed

lemma create_nothing:
  assumes "asst_ok d" and "asst_create_stmt E gen ci (asst_create_args ci @ ext) u t d = Inr ([], d')"
  shows "d' = d" and "\<exists>i. asst_id E gen ci = Some i \<and> i \<in> a_assistant_id ` set (assistants d)"
  using assms by (cases rule: asst_create_stmt_Inr; simp)+

lemma asst_Create_error:
  assumes "tables_ok (db w)" and "asst_Create E gen ci w = (Inl e, w')"
  shows "db w' = db w \<and> (e = ErrAlreadyExists \<longrightarrow> (\<exists>i. asst_id E gen ci = Some i \<and> i \<in> a_assistant_id ` set (assistants (db w))))"
proof -
  have ok: "asst_ok (db w)" using assms(1) by (simp add: tables_ok_def)
  from assms(2) create_nothing[OF ok] create_nothing[OF ok, where ext = "[]"] show ?thesis
    by (auto simp: asst_Create_def Let_def bnd_def lift_def first_row_def throw_def ret_def stmt_Inr
        dest!: stmt_Inl dest: ApplyToQuery_error split: if_splits sum.splits prod.splits list.splits)
qed

lemma asst_Create_created:
  assumes "tables_ok (db w)" and "asst_Create E gen ci w = (Inr a, w')"
  shows "asst_created E gen ci (now w) (db w) a (db w')"
proof -
  have ok: "asst_ok (db w)" using assms(1) by (simp add: tables_ok_def)
  with assms(2) show ?thesis
    by (auto simp: asst_Create_def Let_def res_iff lift_def create_union create_plain split: if_splits)
qed

text \<open>
  (C36) \<^verbatim>\<open>Assistants.Create\<close>, whichever database call fails. If the id is free, the tables gain the assistant at version 1 and the entry of its
  history for version 1, which agree; if it is in use, nothing changes: under \<^verbatim>\<open>do_nothing\<close> with a given id the assistant that was there is returned,
  provided the filters accept it, and otherwise the call fails. \<^verbatim>\<open>AlreadyExists\<close> is only answered if the id is in use.
\<close>

theorem asst_create_exact:
  assumes "tables_ok (db w)" and "asst_Create E gen ci w = (r, w')"
  shows "case r of
      Inl e \<Rightarrow> db w' = db w \<and> (e = ErrAlreadyExists \<longrightarrow> (\<exists>i. asst_id E gen ci = Some i \<and> i \<in> a_assistant_id ` set (assistants (db w))))
    | Inr a \<Rightarrow> asst_created E gen ci (now w) (db w) a (db w')"
  using asst_Create_error[OF assms(1)] asst_Create_created[OF assms(1)] assms(2) by (cases r) simp_all

definition sample_asst_input :: AsstCreateInput where
  "sample_asst_input = \<lparr>ac_AssistantID = ''a2'', ac_GraphID = ''g'', ac_Name = ''n'', ac_Description = None, ac_Config = None,
     ac_ContextJSON = Some ''{}'', ac_Metadata = None, ac_IfExists = ''do_nothing'', ac_Filters = []\<rparr>"

theorem asst_create_exact_witness:
  "\<exists>a w'. asst_Create sample_env ''u'' sample_asst_input sample_asst_world = (Inr a, w') \<and> AsstVersion a = 1 \<and>
     length (versions (db w')) = 3 \<and> length (assistants (db w')) = 2"
proof -
  have "\<not> isl (fst (asst_Create sample_env ''u'' sample_asst_input sample_asst_world))" by code_simp
  then obtain a w' where run: "asst_Create sample_env ''u'' sample_asst_input sample_asst_world = (Inr a, w')"
    by (metis isl_def prod.collapse sum.collapse(2))
  have "asst_id sample_env ''u'' sample_asst_input = Some ''a2''" "a_assistant_id ` set (assistants (db sample_asst_world)) = {''a1''}"
    by (simp_all add: asst_id_def sample_asst_input_def sample_asst_world_def sample_defs)
  with asst_create_exact[OF sample_asst_ok run] run show ?thesis
    by (simp add: asst_created_def assistantCols_def new_assistant_def sample_asst_world_def sample_versions_def sample_world_def sample_db_def)
qed

section \<open>SetLatest\<close>

lemma upd_assistants_none: "filter P (assistants d) = [] \<Longrightarrow> upd_assistants P f d = d"
proof -
  assume "filter P (assistants d) = []"
  then have "map (\<lambda>a. if P a then f a else a) (assistants d) = assistants d" by (auto simp: filter_empty_conv intro: map_idI)
  then show ?thesis by (simp add: upd_assistants_def)
qed

lemma latest_args:
  assumes "ApplyToQuery fs col 2 = Inr (fr, as)" and "asst_latest_stmt E s n fr as d = Inr x"
  shows "fs = []"
proof (rule ccontr)
  assume "fs \<noteq> []"
  then obtain m where m: "length as = Suc m" using ApplyToQuery_args[OF assms(1)] by (cases as) auto
  have "fold max [2..<k] 2 = (if k \<le> 2 then 2 else k - 1)" for k :: nat by (induction k) auto
  then have "fold max (placeholders fr) 2 = Suc (length as)"
    unfolding ApplyToQuery_placeholders[OF assms(1)] m by simp
  with assms(2) show False by (simp add: asst_latest_stmt_def Let_def)
qed

lemma latest_rows_same:
  assumes "asst_latest_stmt E s n fr as d = Inr ([], d')"
  shows "d' = d"
  using assms by (cases rule: asst_latest_stmt_Inr) (simp_all add: upd_assistants_none)

lemma latest_Inr:
  assumes "tables_ok d" and "asst_latest_stmt E s n FragNone [] d = Inr (a # rows, d')"
  shows "\<exists>i cur v. pg_uuid E s = Some i \<and> cur \<in> set (assistants d) \<and> a_assistant_id cur = i \<and> v \<in> set (versions d) \<and> v_assistant_id v = i \<and>
    v_version v = n \<and> a = assistantCols E (cur\<lparr>a_config := v_config v, a_metadata := v_metadata v, a_version := n\<rparr>) \<and>
    d' = d\<lparr>assistants := map (\<lambda>x. if a_assistant_id x = i then cur\<lparr>a_config := v_config v, a_metadata := v_metadata v, a_version := n\<rparr> else x) (assistants d)\<rparr>"
  using assms(2)
proof (cases rule: asst_latest_stmt_Inr)
  case (2 i ok v)
  have ok: "ok = (\<lambda>_. True)" using 2(5) by (auto simp: res_iff)
  have dist: "distinct (map a_assistant_id (assistants d))" using assms(1) by (simp add: tables_ok_def db_ok_def keys_ok_def)
  obtain cur cs where c: "filter (\<lambda>a. a_assistant_id a = i) (assistants d) = cur # cs" 
    "a = assistantCols E (cur\<lparr>a_config := v_config v, a_metadata := v_metadata v, a_version := v_version v\<rparr>)"
    using 2(6) by (auto simp: ok)
  then have "cur \<in> set (filter (\<lambda>a. a_assistant_id a = i) (assistants d))" by simp
  then have cur: "cur \<in> set (assistants d)" "a_assistant_id cur = i" by simp_all
  then have "x = cur" if "x \<in> set (assistants d)" "a_assistant_id x = i" for x
    using that dist by (metis distinct_key_unique)
  then have m: "map (\<lambda>x. if a_assistant_id x = i then x\<lparr>a_config := v_config v, a_metadata := v_metadata v, a_version := v_version v\<rparr> else x) (assistants d) =
      map (\<lambda>x. if a_assistant_id x = i then cur\<lparr>a_config := v_config v, a_metadata := v_metadata v, a_version := n\<rparr> else x) (assistants d)"
    using 2(4) by auto
  have d': "d' = d\<lparr>assistants := map (\<lambda>x. if a_assistant_id x = i then cur\<lparr>a_config := v_config v, a_metadata := v_metadata v, a_version := n\<rparr> else x) (assistants d)\<rparr>"
    unfolding m[symmetric] 2(7) by (simp add: ok upd_assistants_def)
  show ?thesis
    by (intro exI[of _ i] exI[of _ cur] exI[of _ v] conjI) (rule 2(1-4) cur c(2)[unfolded 2(4)] d')+
qed simp

text \<open>
  (C38) \<^verbatim>\<open>Assistants.SetLatest\<close>, whichever database call fails: success means that there were no filters, that the assistant exists and its history has
  the version, and that configuration, metadata and version of that entry are now those of the assistant, whose other columns, the time of its last
  change included, and every other row are as they were. In every other case nothing changes. In particular the call fails for every request with a
  filter, whatever the filter says: its arguments are numbered from \<^verbatim>\<open>$2\<close>, which is the version, so the statement has one argument too many.
\<close>

theorem set_latest_exact:
  assumes "tables_ok (db w)" and "asst_SetLatest E s n fs w = (r, w')"
  shows "case r of Inl e \<Rightarrow> db w' = db w
    | Inr a \<Rightarrow> fs = [] \<and> (\<exists>i cur v. pg_uuid E s = Some i \<and> cur \<in> set (assistants (db w)) \<and> a_assistant_id cur = i \<and>
        v \<in> set (versions (db w)) \<and> v_assistant_id v = i \<and> v_version v = n \<and>
        a = assistantCols E (cur\<lparr>a_config := v_config v, a_metadata := v_metadata v, a_version := n\<rparr>) \<and>
        db w' = (db w)\<lparr>assistants := map (\<lambda>x. if a_assistant_id x = i then cur\<lparr>a_config := v_config v, a_metadata := v_metadata v, a_version := n\<rparr> else x)
                         (assistants (db w))\<rparr>)"
proof (cases r)
  case (Inl e)
  with assms(2) show ?thesis
    by (auto simp: asst_SetLatest_def bnd_def lift_def first_row_def throw_def ret_def stmt_Inr dest!: stmt_Inl dest: latest_rows_same
        split: sum.splits prod.splits list.splits)
next
  case (Inr a)
  obtain fr as rows where q: "ApplyToQuery fs ''a.metadata'' 2 = Inr (fr, as)" "asst_latest_stmt E s n fr as (db w) = Inr (a # rows, db w')"
    using assms(2) unfolding Inr asst_SetLatest_def by (auto simp: res_iff lift_def)
  have fs: "fs = []" by (rule latest_args[OF q])
  with q have "asst_latest_stmt E s n FragNone [] (db w) = Inr (a # rows, db w')" by (simp add: ApplyToQuery_def)
  from latest_Inr[OF assms(1) this] fs show ?thesis by (simp add: Inr)
qed

theorem set_latest_exact_witness:
  "\<exists>a w'. asst_SetLatest sample_env ''a1'' 4 [] sample_asst_world = (Inr a, w') \<and> AsstVersion a = 4 \<and>
     isl (fst (asst_SetLatest sample_env ''a1'' 4 [EqFilter ''owner'' ''{}''] sample_asst_world))"
proof -
  have "\<not> isl (fst (asst_SetLatest sample_env ''a1'' 4 [] sample_asst_world))" by code_simp
  then obtain a w' where run: "asst_SetLatest sample_env ''a1'' 4 [] sample_asst_world = (Inr a, w')"
    by (metis isl_def prod.collapse sum.collapse(2))
  obtain x u where f: "asst_SetLatest sample_env ''a1'' 4 [EqFilter ''owner'' ''{}''] sample_asst_world = (x, u)" by fastforce
  have "AsstVersion a = 4" using set_latest_exact[OF sample_asst_ok run] by (auto simp: assistantCols_def)
  moreover have "isl x" using set_latest_exact[OF sample_asst_ok f] by (cases x) auto
  ultimately show ?thesis using run f by simp
qed

section \<open>Delete\<close>

text \<open>The threads \<^verbatim>\<open>delete_threads\<close> removes: labelled with the text of the id as given, and visible to the request.\<close>

definition labelled :: "env \<Rightarrow> string \<Rightarrow> auth_filter list \<Rightarrow> thread_row \<Rightarrow> bool" where
  "labelled E s fs t \<longleftrightarrow> jget_text (pg_text E) (t_metadata t) ''assistant_id'' = Some s \<and> visible E fs (t_metadata t)"

lemma del_assistants_none: "filter P (assistants d) = [] \<Longrightarrow> del_assistants P d = d"
proof -
  assume none: "filter P (assistants d) = []"
  then have "{a \<in> set (assistants d). P a} = {}" by (auto simp: filter_empty_conv)
  moreover from none have "filter (\<lambda>a. \<not> P a) (assistants d) = assistants d" by (auto simp: filter_empty_conv filter_id_conv)
  ultimately show ?thesis
    by (simp add: del_assistants_def del_runs_def Let_def)
qed

lemma asst_Delete_Inr:
  assumes "asst_Delete E s b fs w = (Inr ids, w')"
  shows "\<exists>i. pg_uuid E s = Some i \<and> ids = map a_assistant_id (filter (asst_sel E i fs) (assistants (db w))) \<and>
    db w' = (if b \<and> ids \<noteq> [] then del_threads (labelled E s fs) (del_assistants (asst_sel E i fs) (db w)) else del_assistants (asst_sel E i fs) (db w))"
proof -
  from assms obtain fr args where q: "ApplyToQuery fs ''metadata'' (Suc (length [s])) = Inr (fr, args)"
    by (auto simp: asst_Delete_def res_iff lift_def numeral_2_eq_2)
  have sel: "\<exists>i. pg_uuid E s = Some i \<and> P = asst_sel E i fs" if "asst_where E s fr (s # args) = Inr P" for P
    using asst_where_Inr[OF q, of E s "[]" P] that by simp
  have lab: "(\<lambda>t. jget_text (pg_text E) (t_metadata t) ''assistant_id'' = Some s \<and> frag_eval E (s # args) (\<lambda>_. t_metadata t) fr) = labelled E s fs"
    using ApplyToQuery_eval(2)[OF q, of E "[]"] by (auto simp: labelled_def fun_eq_iff)
  from assms q show ?thesis
    by (auto simp: asst_Delete_def res_iff lift_def numeral_2_eq_2 lab split: if_splits dest!: sel)
qed



end
