(* ===== verification/Admin.thy ===== *)
theory Admin
  imports Assistants_Write
begin

text \<open>
  The admin service (\<^verbatim>\<open>internal/admin\<close>): what the server reports about itself, and \<^verbatim>\<open>Truncate\<close>, which empties tables. The services as
  \<^verbatim>\<open>cmd/lsd/main.go\<close> builds them have no pool and the environment \<^verbatim>\<open>prod\<close>.
\<close>

section \<open>Service\<close>

record AdminService =
  ad_version :: string
  ad_schemaVersion :: string
  ad_pool :: bool
  ad_env :: string

definition admin_New :: "string \<Rightarrow> string \<Rightarrow> AdminService" where
  "admin_New version schemaVersion = \<lparr>ad_version = version, ad_schemaVersion = schemaVersion, ad_pool = False, ad_env = ''prod''\<rparr>"

definition admin_NewWithPool :: "string \<Rightarrow> string \<Rightarrow> bool \<Rightarrow> string \<Rightarrow> AdminService" where
  "admin_NewWithPool version schemaVersion pool en = \<lparr>ad_version = version, ad_schemaVersion = schemaVersion, ad_pool = pool, ad_env = en\<rparr>"

definition admin_wired :: AdminService where
  "admin_wired = admin_New ''0.1.0'' ''1''"

record CapabilitiesResponse =
  cr_Version :: string
  cr_SchemaVersion :: string
  cr_Services :: "string list"
  cr_Features :: "string list"

definition admin_Capabilities :: "AdminService \<Rightarrow> CapabilitiesResponse rpc" where
  "admin_Capabilities s = answer \<lparr>cr_Version = ad_version s, cr_SchemaVersion = ad_schemaVersion s,
     cr_Services = [''threads'', ''runs'', ''assistants'', ''crons'', ''checkpointer'', ''cache'', ''admin''],
     cr_Features = [''threads.crud'', ''threads.search'', ''threads.copy'', ''threads.set_status'', ''threads.sweep_ttl'', ''runs.crud'',
       ''runs.lease'', ''runs.heartbeat'', ''runs.cancel'', ''runs.join'', ''runs.sweep'', ''checkpointer.put'', ''checkpointer.get_tuple'',
       ''checkpointer.list'', ''checkpointer.copy_thread'', ''checkpointer.delete_thread'', ''checkpointer.prune'', ''cache.set'', ''cache.get'',
       ''admin.truncate'']\<rparr>"

record TruncateRequest =
  tr_Runs :: bool
  tr_Threads :: bool
  tr_Assistants :: bool
  tr_Checkpointer :: bool
  tr_Store :: bool

definition truncate_tables :: "TruncateRequest \<Rightarrow> string list" where
  "truncate_tables rq =
     (if tr_Runs rq then [''run''] else []) @ (if tr_Threads rq then [''thread''] else []) @
     (if tr_Assistants rq then [''assistant'', ''assistant_versions''] else []) @
     (if tr_Checkpointer rq then [''checkpoints'', ''checkpoint_blobs'', ''checkpoint_writes''] else []) @
     (if tr_Store rq then [''langchain_pg_collection'', ''langchain_pg_embedding'', ''langchain_key_value_stores''] else [])"

text \<open>
  \<^verbatim>\<open>CASCADE\<close>: with a table, every table that refers to it, and so on; the foreign keys of the schema. Tables the model does not keep are named only.
\<close>

definition referring :: "string \<Rightarrow> string list" where
  "referring t = (if t = ''run'' then [''checkpoints'', ''feedback'']
     else if t = ''thread'' then [''run'', ''checkpoints'', ''checkpoint_writes'', ''checkpoint_blobs'', ''feedback'']
     else if t = ''assistant'' then [''assistant_versions'', ''run'', ''cron'']
     else if t = ''langchain_pg_collection'' then [''langchain_pg_embedding''] else [])"

fun cascade :: "nat \<Rightarrow> string list \<Rightarrow> string list" where
  "cascade 0 ts = ts"
| "cascade (Suc n) ts = cascade n (ts @ concat (map referring ts))"

definition truncate_stmt :: "string list \<Rightarrow> db \<Rightarrow> db" where
  "truncate_stmt ts d =
     (let all = cascade 2 ts
      in d\<lparr>runs := (if ''run'' \<in> set all then [] else runs d), threads := (if ''thread'' \<in> set all then [] else threads d),
           assistants := (if ''assistant'' \<in> set all then [] else assistants d),
           versions := (if ''assistant_versions'' \<in> set all then [] else versions d),
           checkpoints := (if ''checkpoints'' \<in> set all then [] else checkpoints d),
           writes := (if ''checkpoint_writes'' \<in> set all then [] else writes d),
           blobs := (if ''checkpoint_blobs'' \<in> set all then [] else blobs d), crons := (if ''cron'' \<in> set all then [] else crons d)\<rparr>)"

definition admin_Truncate :: "AdminService \<Rightarrow> TruncateRequest \<Rightarrow> unit rpc" where
  "admin_Truncate s rq =
     (if ad_env s \<noteq> ''dev'' then refuse PermissionDenied
      else if \<not> ad_pool s then refuse Internal
      else if truncate_tables rq = [] then answer ()
      else call (stmt (\<lambda>_ d. Inr ((), truncate_stmt (truncate_tables rq) d))) (\<lambda>_. Internal) answer)"

section \<open>Lemmas\<close>

text \<open>Two rounds are all: a third adds no table.\<close>

lemma set_cascade2:
  "set (cascade 2 ts) = set ts \<union> (\<Union>u \<in> set ts. set (referring u)) \<union> (\<Union>u \<in> set ts. \<Union>v \<in> set (referring u). set (referring v))"
  by (auto simp: numeral_2_eq_2)

lemma referring_third: "v \<in> set (referring u) \<Longrightarrow> t \<in> set (referring v) \<Longrightarrow> referring t = []"
  by (auto simp: referring_def split: if_splits)

lemma cascade_closed: "t \<in> set (cascade 2 ts) \<Longrightarrow> set (referring t) \<subseteq> set (cascade 2 ts)"
  unfolding set_cascade2 using referring_third by fastforce

lemma truncated_refs:
  "''run'' \<in> set (cascade 2 ts) \<Longrightarrow> ''checkpoints'' \<in> set (cascade 2 ts)"
  "''thread'' \<in> set (cascade 2 ts) \<Longrightarrow> {''run'', ''checkpoints'', ''checkpoint_writes'', ''checkpoint_blobs''} \<subseteq> set (cascade 2 ts)"
  "''assistant'' \<in> set (cascade 2 ts) \<Longrightarrow> {''assistant_versions'', ''run'', ''cron''} \<subseteq> set (cascade 2 ts)"
  using cascade_closed[of "''run''" ts] cascade_closed[of "''thread''" ts] cascade_closed[of "''assistant''" ts]
  by (simp_all add: referring_def)

lemma truncate_asst_pair: "''assistant_versions'' \<in> set (cascade 2 (truncate_tables rq)) \<Longrightarrow> ''assistant'' \<in> set (cascade 2 (truncate_tables rq))"
  by (auto simp: truncate_tables_def numeral_2_eq_2 referring_def split: if_splits)

text \<open>As wired, \<^verbatim>\<open>Truncate\<close> is refused whatever the environment of the process says.\<close>

lemma truncate_refused: "admin_Truncate admin_wired rq w = (Inl (StatusError PermissionDenied), w)"
  by (simp add: admin_Truncate_def admin_wired_def admin_New_def refuse_def)

lemma truncate_db_ok:
  assumes "db_ok d"
  shows "db_ok (truncate_stmt ts d)"
  using assms truncated_refs[of ts] by (auto simp: db_ok_def keys_ok_def refs_ok_def truncate_stmt_def Let_def)

lemma truncate_asst_ok:
  assumes "asst_ok d"
  shows "asst_ok (truncate_stmt (truncate_tables rq) d)"
  using assms truncated_refs(3)[of "truncate_tables rq"] truncate_asst_pair[of rq]
  by (cases "''assistant'' \<in> set (cascade 2 (truncate_tables rq))") (auto simp: asst_ok_def truncate_stmt_def Let_def)

end
