(* ===== verification/Runs_Machine.thy ===== *)
theory Runs_Machine
  imports Runs_Lease
begin

text \<open>
  The run store as a state machine. A step is one call of a method of \<^verbatim>\<open>Store\<close> by some worker or
  request, with any outcome, or the passage of time together with any change of the fault schedule.
  Sequences of steps are the interleavings of all clients at the granularity of store calls.
\<close>

datatype store_call =
    DoCreate string uuid CreateRunInput "auth_filter list" "auth_filter list"
  | DoDelete string string "auth_filter list"
  | DoCancel "string list" string string "auth_filter list"
  | DoCancelByStatus "string list" "auth_filter list"
  | DoSetStatus string string
  | DoMarkDone string
  | DoNext nat
  | DoSweep
  | DoExtendLease string string
  | DoWait int "string option list"

inductive store_step :: "env \<Rightarrow> int \<Rightarrow> store_call \<Rightarrow> world \<Rightarrow> world \<Rightarrow> bool" for E ttl where
  step_Create: "run_Create E nt gen ci tf af w = (res, w') \<Longrightarrow> store_step E ttl (DoCreate nt gen ci tf af) w w'"
| step_Delete: "run_Delete E rid tid fs w = (res, w') \<Longrightarrow> store_step E ttl (DoDelete rid tid fs) w w'"
| step_Cancel: "run_CancelWithAction E ids tid act fs w = (res, w') \<Longrightarrow> store_step E ttl (DoCancel ids tid act fs) w w'"
| step_CancelByStatus: "run_CancelByStatus E ss fs w = (res, w') \<Longrightarrow> store_step E ttl (DoCancelByStatus ss fs) w w'"
| step_SetStatus: "run_SetStatus E rid s w = (res, w') \<Longrightarrow> store_step E ttl (DoSetStatus rid s) w w'"
| step_MarkDone: "run_MarkDone E rid w = (res, w') \<Longrightarrow> store_step E ttl (DoMarkDone rid) w w'"
| step_Next: "run_Next E ttl n w = (res, w') \<Longrightarrow> store_step E ttl (DoNext n) w w'"
| step_Sweep: "run_Sweep w = (res, w') \<Longrightarrow> store_step E ttl DoSweep w w'"
| step_ExtendLease: "run_ExtendLease E ttl rid h w = (res, w') \<Longrightarrow> store_step E ttl (DoExtendLease rid h) w w'"
| step_Wait: "now w \<le> t \<Longrightarrow> store_step E ttl (DoWait t fs) w (w\<lparr>now := t, faults := fs\<rparr>)"

inductive_cases store_stepE: "store_step E ttl c w w'"

inductive_simps store_step_simps:
  "store_step E ttl (DoNext n) w w'" "store_step E ttl DoSweep w w'"
  "store_step E ttl (DoSetStatus rid s) w w'" "store_step E ttl (DoCreate nt gen ci tf af) w w'"

inductive store_run :: "env \<Rightarrow> int \<Rightarrow> store_call list \<Rightarrow> world \<Rightarrow> world \<Rightarrow> bool" for E ttl where
  run_nil: "store_run E ttl [] w w"
| run_step: "store_step E ttl c w w1 \<Longrightarrow> store_run E ttl cs w1 w' \<Longrightarrow> store_run E ttl (c # cs) w w'"

text \<open>An invariant of the steps is an invariant of every run.\<close>

lemma store_run_invariant:
  assumes "store_run E ttl cs w w'" and "I (db w)"
    and "\<And>c w w'. c \<in> set cs \<Longrightarrow> store_step E ttl c w w' \<Longrightarrow> I (db w) \<Longrightarrow> I (db w')"
  shows "I (db w')"
  using assms by (induction rule: store_run.induct) auto

context run_inv
begin

lemma step: "store_step E ttl c w w' \<Longrightarrow> I (db w) \<Longrightarrow> I (db w')"
  by (erule store_stepE) (auto dest: keeps_all[THEN keepsD])

lemma run: "store_run E ttl cs w w' \<Longrightarrow> I (db w) \<Longrightarrow> I (db w')"
  by (rule store_run_invariant) (auto dest: step)

end

text \<open>
  Whatever sequence of calls the clients make, and wherever the database fails: the primary and foreign keys hold,
  and no run has been attempted more often than it was leased.
\<close>

theorem store_run_consistent:
  assumes "store_run E ttl cs w w'" and "db_ok (db w)" and "counters_ok (db w)"
  shows "db_ok (db w') \<and> counters_ok (db w')"
  using integrity.run[OF assms(1,2)] counters.run[OF assms(1,3)] by simp

section \<open>Isolation of threads\<close>

text \<open>Calls as the queue makes them: one run at a time, and nobody sets a run to running by hand.\<close>

fun disciplined :: "store_call \<Rightarrow> bool" where
  "disciplined (DoNext n) = (n \<le> 1)"
| "disciplined (DoSetStatus rid s) = (s \<noteq> ''running'')"
| "disciplined (DoCreate nt gen ci tf af) = (ci_Status ci \<noteq> ''running'')"
| "disciplined _ = True"

definition isolated :: "db \<Rightarrow> bool" where
  "isolated d = (db_ok d \<and> one_running d)"

definition starts_none :: "(run_row \<Rightarrow> run_row) \<Rightarrow> bool" where
  "starts_none f \<longleftrightarrow> same_keys f \<and> (\<forall>r. r_status (f r) = ''running'' \<longrightarrow> r_status r = ''running'')"

lemma one_running_subset:
  assumes "one_running d"
    and "\<And>r'. r' \<in> set (runs d') \<Longrightarrow> r_status r' = ''running'' \<Longrightarrow>
          \<exists>r \<in> set (runs d). r_status r = ''running'' \<and> r_run_id r = r_run_id r' \<and> r_thread_id r = r_thread_id r'"
  shows "one_running d'"
  using assms unfolding one_running_def by metis

lemma isolated_upd:
  assumes "starts_none f" and "isolated d"
  shows "isolated (upd_runs P f d)"
proof -
  have "one_running (upd_runs P f d)"
  proof (rule one_running_subset)
    fix r' assume "r' \<in> set (runs (upd_runs P f d))" and st: "r_status r' = ''running''"
    then obtain r where "r \<in> set (runs d)" "r' = f r \<or> r' = r" by (auto split: if_splits)
    with st assms(1) show "\<exists>r \<in> set (runs d). r_status r = ''running'' \<and> r_run_id r = r_run_id r' \<and> r_thread_id r = r_thread_id r'"
      unfolding starts_none_def same_keys_def by metis
  qed (use assms(2) in \<open>simp add: isolated_def\<close>)
  with assms upd_runs_ok[of f d P] show ?thesis
    by (simp add: isolated_def starts_none_def)
qed

lemma one_running_cong: "one_running d \<Longrightarrow> runs d' = runs d \<Longrightarrow> one_running d'"
  by (erule one_running_subset) auto

lemma isolated_insert:
  assumes "ci_Status ci \<noteq> ''running''" and "isolated d" and "insert_run E ci gen t d = Inr (rows, d')"
  shows "isolated d'"
  using assms(3)
proof (cases rule: insert_run_cases)
  case none
  with assms(2) show ?thesis by simp
next
  case (one rid tid aid kw m enc a th)
  have "r \<in> set (runs d)" if "r \<in> set (runs d')" "r_status r = ''running''" for r
    using that assms(1) by (auto simp: one(11) new_run_def Let_def)
  then have "one_running d'"
    using assms(2) one_running_subset[of d d'] unfolding isolated_def by blast
  with assms(2) insert_run_ok[OF _ assms(3)] show ?thesis
    by (simp add: isolated_def)
qed

lemma isolated_del: "isolated d \<Longrightarrow> isolated (del_runs P d)"
  by (simp add: isolated_def del_runs_ok one_running_def)

interpretation isolation: run_ops isolated starts_none
proof unfold_locales
  show "starts_none f \<Longrightarrow> isolated d \<Longrightarrow> isolated (upd_runs P f d)" for f d P
    by (rule isolated_upd)
  show "isolated d \<Longrightarrow> isolated (del_runs P d)" for d P
    by (rule isolated_del)
  show "isolated d \<Longrightarrow> isolated (d\<lparr>writes := filter Q (writes d)\<rparr>)" for d Q
    by (auto simp: isolated_def del_writes_ok elim: one_running_cong)
qed (simp_all add: starts_none_def same_keys_def requeue_def)

lemma isolated_Create:
  assumes "ci_Status ci \<noteq> ''running''"
  shows "keeps isolated (run_Create E nt gen ci tf af)"
proof (rule keeps_run_Create)
  fix t d rows d'
  assume "isolated d" "insert_run E (create_input nt ci) gen t d = Inr (rows, d')"
  moreover have "ci_Status (create_input nt ci) \<noteq> ''running''"
    using assms by (simp add: create_input_def create_defaults_def Let_def)
  ultimately show "isolated d'"
    by (rule isolated_insert[rotated])
next
  fix tid m c aid t d assume "isolated d"
  then show "isolated (insert_thread tid m c aid t d)"
    by (auto simp: isolated_def insert_thread_ok elim: one_running_cong)
next
  fix tid aid c d d' assume "isolated d" and u: "update_thread tid aid c d = Inr d'"
  then show "isolated d'"
    using update_thread_ok[OF _ u] update_thread_ids(2)[OF u] by (auto simp: isolated_def elim: one_running_cong)
qed

lemma isolated_SetStatus: "s \<noteq> ''running'' \<Longrightarrow> keeps isolated (run_SetStatus E rid s)"
  by (rule isolation.keeps_SetStatus) (simp add: starts_none_def same_keys_def)

lemma isolated_Next: "n \<le> Suc 0 \<Longrightarrow> keeps isolated (run_Next E ttl n)"
  using next_one_running[of n] integrity.keeps_all(7)[of E ttl n] by (simp add: keeps_def isolated_def)

lemma isolated_step:
  assumes "store_step E ttl c w w'" and "disciplined c" and "isolated (db w)"
  shows "isolated (db w')"
  using assms
  by (cases rule: store_step.cases)
    (auto dest: isolated_Create[THEN keepsD] isolated_SetStatus[THEN keepsD] isolated_Next[THEN keepsD]
      isolation.keeps_Delete[THEN keepsD] isolation.keeps_CancelWithAction[THEN keepsD]
      isolation.keeps_CancelByStatus[THEN keepsD] isolation.keeps_MarkDone[THEN keepsD]
      isolation.keeps_Sweep[THEN keepsD] isolation.keeps_ExtendLease[THEN keepsD])

text \<open>
  (C2) Thread isolation: from a consistent state, whatever sequence of calls is made in which \<^verbatim>\<open>Next\<close> takes one run
  at a time and no call writes the status running itself, no thread ever has two running runs.
\<close>

theorem store_run_isolated:
  assumes "store_run E ttl cs w w'" and "list_all disciplined cs" and "db_ok (db w)" and "one_running (db w)"
  shows "one_running (db w')"
proof -
  have "isolated (db w')"
  proof (rule store_run_invariant[OF assms(1)])
    show "isolated (db w)" using assms(3,4) by (simp add: isolated_def)
  qed (use assms(2) in \<open>auto simp: list_all_iff intro: isolated_step\<close>)
  then show ?thesis by (simp add: isolated_def)
qed

section \<open>Generations only grow\<close>

definition row_le :: "run_row \<Rightarrow> run_row \<Rightarrow> bool" where
  "row_le r r' = (r_thread_id r' = r_thread_id r \<and> r_assistant_id r' = r_assistant_id r \<and>
     r_attempt r \<le> r_attempt r' \<and> r_lease_generation r \<le> r_lease_generation r')"

definition grown :: "db \<Rightarrow> db \<Rightarrow> bool" where
  "grown d d' = (\<forall>r \<in> set (runs d). \<forall>r' \<in> set (runs d'). r_run_id r = r_run_id r' \<longrightarrow> row_le r r')"

definition row_grows :: "(run_row \<Rightarrow> run_row) \<Rightarrow> bool" where
  "row_grows f \<longleftrightarrow> (\<forall>r. r_run_id (f r) = r_run_id r \<and> row_le r (f r))"

lemma row_le_trans: "row_le a b \<Longrightarrow> row_le b c \<Longrightarrow> row_le a c"
  by (simp add: row_le_def)

lemma grownI: "(\<And>r'. r' \<in> set (runs d') \<Longrightarrow> \<exists>r \<in> set (runs d). r_run_id r = r_run_id r' \<and> row_le r r') \<Longrightarrow>
    grown d0 d \<Longrightarrow> grown d0 d'"
  unfolding grown_def by (metis row_le_trans)

lemma row_le_refl [simp]: "row_le r r"
  by (simp add: row_le_def)

lemma grown_upd: "row_grows f \<Longrightarrow> grown d0 d \<Longrightarrow> grown d0 (upd_runs P f d)"
  by (erule grownI[rotated]) (auto simp: row_grows_def split: if_splits)

lemma grown_fewer: "set (runs d') \<subseteq> set (runs d) \<Longrightarrow> grown d0 d \<Longrightarrow> grown d0 d'"
  unfolding grown_def by blast

interpretation growth: run_ops "grown d0" row_grows for d0
proof unfold_locales
  show "row_grows f \<Longrightarrow> grown d0 d \<Longrightarrow> grown d0 (upd_runs P f d)" for f d P
    by (rule grown_upd)
qed (auto simp: row_grows_def row_le_def requeue_def elim: grown_fewer[rotated])

text \<open>\<^verbatim>\<open>Create\<close> removes nothing, so the row it adds has an id that was not in use before.\<close>

definition extends :: "db \<Rightarrow> db \<Rightarrow> bool" where
  "extends d d' = (\<exists>new. runs d' = runs d @ new \<and> (\<forall>r \<in> set new. r_run_id r \<notin> r_run_id ` set (runs d)))"

lemma extends_Create: "keeps (extends d0) (run_Create E nt gen ci tf af)"
proof (rule keeps_run_Create)
  fix t d rows d'
  assume ex: "extends d0 d" and ins: "insert_run E (create_input nt ci) gen t d = Inr (rows, d')"
  from ins show "extends d0 d'"
    by (cases rule: insert_run_cases) (use ex in \<open>auto simp: extends_def\<close>)
qed (auto simp: extends_def update_thread_ids(2))

lemma extends_grown: "distinct (map r_run_id (runs d)) \<Longrightarrow> extends d d' \<Longrightarrow> grown d d'"
  unfolding extends_def grown_def
  by (metis Un_iff distinct_key_unique imageI row_le_refl set_append)

text \<open>
  Fencing tokens are monotone: while a run exists, no call moves it to another thread or assistant or lowers its
  attempt or its lease generation, so a worker can tell from the generation that its lease is stale.
\<close>

theorem step_grows:
  assumes "store_step E ttl c w w'" and "db_ok (db w)"
    and "r \<in> set (runs (db w))" and "r' \<in> set (runs (db w'))" and "r_run_id r' = r_run_id r"
  shows "r_thread_id r' = r_thread_id r \<and> r_assistant_id r' = r_assistant_id r \<and>
     r_attempt r \<le> r_attempt r' \<and> r_lease_generation r \<le> r_lease_generation r'"
proof -
  have ids: "distinct (map r_run_id (runs (db w)))"
    using assms(2) by (simp add: db_ok_def keys_ok_def)
  have self: "extends (db w) (db w)" "grown (db w) (db w)"
    using extends_grown[OF ids] by (auto simp: extends_def)
  have "grown (db w) (db w')"
    using assms(1)
  proof (cases rule: store_step.cases)
    case (step_Create nt gen ci tf af res)
    then show ?thesis
      using keepsD[OF extends_Create self(1)] extends_grown[OF ids] by blast
  next
    case (step_SetStatus rid s res)
    have "keeps (grown (db w)) (run_SetStatus E rid s)"
      by (rule growth.keeps_SetStatus) (simp add: row_grows_def row_le_def)
    with step_SetStatus self show ?thesis by (blast dest: keepsD)
  next
    case (step_Next n res)
    have "keeps (grown (db w)) (run_Next E ttl n)"
      by (rule growth.keeps_Next) (simp add: row_grows_def row_le_def claim_def)
    with step_Next self show ?thesis by (blast dest: keepsD)
  qed (use self in \<open>auto dest: growth.keeps_Delete[THEN keepsD] growth.keeps_CancelWithAction[THEN keepsD]
      growth.keeps_CancelByStatus[THEN keepsD] growth.keeps_MarkDone[THEN keepsD]
      growth.keeps_Sweep[THEN keepsD] growth.keeps_ExtendLease[THEN keepsD]\<close>)
  with assms(3-5) show ?thesis
    unfolding grown_def row_le_def by metis
qed

section \<open>An example run\<close>

text \<open>Sweep the expired run, then claim one run: two steps from the sample installation.\<close>

lemma sample_run_steps: "\<exists>w'. store_run sample_env 30 [DoSweep, DoNext 1] sample_world w'"
  by (metis prod.collapse run_nil run_step step_Next step_Sweep)

lemma sample_one_running: "one_running (db sample_world)"
  by (simp add: one_running_def sample_defs)

theorem store_run_consistent_witness:
  "\<exists>w'. store_run sample_env 30 [DoSweep, DoNext 1] sample_world w' \<and> db_ok (db w') \<and> counters_ok (db w')"
proof -
  obtain w' where run: "store_run sample_env 30 [DoSweep, DoNext 1] sample_world w'"
    using sample_run_steps by blast
  moreover have "counters_ok (db sample_world)"
    by (simp add: counters_ok_def sample_defs)
  ultimately show ?thesis
    using store_run_consistent[OF run sample_ok] by blast
qed

theorem store_run_isolated_witness:
  "\<exists>w'. store_run sample_env 30 [DoSweep, DoNext 1] sample_world w' \<and> one_running (db w')"
proof -
  obtain w' where run: "store_run sample_env 30 [DoSweep, DoNext 1] sample_world w'"
    using sample_run_steps by blast
  with store_run_isolated[OF run _ sample_ok sample_one_running] show ?thesis
    by auto
qed

theorem step_grows_witness:
  "\<exists>w' r'. store_step sample_env 30 DoSweep sample_world w' \<and> r' \<in> set (runs (db w')) \<and>
     r_run_id r' = ''r1'' \<and> r_thread_id r' = ''t1'' \<and> 0 \<le> r_lease_generation r'"
proof -
  obtain e ks w' where run: "run_Sweep sample_world = (Inr (e, ks), w')" and
      d: "db w' = upd_runs (\<lambda>r. r_run_id r \<in> set ks) (requeue (now sample_world)) (db sample_world)"
    using sweep_spec[OF sample_ok] by blast
  have st: "store_step sample_env 30 DoSweep sample_world w'"
    using run by (rule step_Sweep)
  have r1: "row_r1 \<in> set (runs (db sample_world))" "r_run_id row_r1 = ''r1''"
    "r_thread_id row_r1 = ''t1''" "r_lease_generation row_r1 = 0"
    by (simp_all add: sample_defs)
  let ?r = "if r_run_id row_r1 \<in> set ks then requeue (now sample_world) row_r1 else row_r1"
  have r': "?r \<in> set (runs (db w'))" "r_run_id ?r = r_run_id row_r1"
    using imageI[OF r1(1), of "\<lambda>r. if r_run_id r \<in> set ks then requeue (now sample_world) r else r"]
    by (simp_all add: d)
  have i: "r_run_id ?r = ''r1''" using r'(2) r1(2) by (rule trans)
  have t: "r_thread_id ?r = ''t1''" and g: "0 \<le> r_lease_generation ?r"
    using step_grows[OF st sample_ok r1(1) r'] unfolding r1(3,4) by blast+
  show ?thesis by (intro exI[of _ w'] exI[of _ ?r] conjI st r'(1) i t g)
qed

end
