(* ===== verification/Checkpoint_Integrity.thy ===== *)
theory Checkpoint_Integrity
  imports Checkpoint_Service "HOL-Library.Sublist"
begin

text \<open>
  The keys of the checkpoint tables: every operation of the checkpoint store keeps the primary and foreign keys of the
  schema, and none of them changes or removes a stored blob, under any sequence of calls and any database faults.
\<close>

section \<open>Invariants\<close>

definition cp_ok :: "db \<Rightarrow> bool" where
  "cp_ok d = (distinct (map cp_key (checkpoints d)) \<and> distinct (map blob_key (blobs d)) \<and>
              distinct (map write_key (writes d)))"

lemma keeps_for_each [intro!, keeps_intro]: "(\<And>x. keeps I (f x)) \<Longrightarrow> keeps I (for_each f xs)"
  by (induction xs) (auto intro!: keeps_bnd)

lemma keeps_loads [intro!, keeps_intro]:
  "keeps I (loadBlobsAndWrites E row)" "keeps I (load_all E rows)"
proof -
  show load: "keeps I (loadBlobsAndWrites E row)" for row
    unfolding loadBlobsAndWrites_def by (intro keeps_intro)
  show "keeps I (load_all E rows)"
    by (induction rows) (auto intro!: keeps_bnd load)
qed

text \<open>Laws of an invariant on the statements of the store, and what they give for its operations.\<close>

locale checkpoint_ops =
  fixes I :: "db \<Rightarrow> bool"
  assumes bump: "same_tid f \<Longrightarrow> I d \<Longrightarrow> I (upd_threads P f d)"
    and upsert: "I d \<Longrightarrow> upsert_checkpoint c d = Inr (u, d') \<Longrightarrow> I d'"
    and blob: "I d \<Longrightarrow> insert_blob E s ns b d = Inr (u, d') \<Longrightarrow> I d'"
    and stored: "I d \<Longrightarrow> insert_write E pw x d = Inr (u, d') \<Longrightarrow> I d'"
    and fewer: "I d \<Longrightarrow> I (d\<lparr>checkpoints := filter Q (checkpoints d)\<rparr>)"
    and copy_c: "I d \<Longrightarrow> copy_checkpoints src dst d = Inr (u, d') \<Longrightarrow> I d'"
    and copy_b: "I d \<Longrightarrow> copy_blobs src dst d = Inr (u, d') \<Longrightarrow> I d'"
    and copy_w: "I d \<Longrightarrow> copy_writes src dst d = Inr (u, d') \<Longrightarrow> I d'"
begin

lemma keeps_bump: "keeps I (bump_thread E s)"
  unfolding bump_thread_def by (rule keeps_stmt) (auto simp: res_iff same_tid_def intro!: bump)

lemma keeps_Put: "keeps I (cp_Put E pin)"
  unfolding cp_Put_def by (intro keeps_intro keeps_bump keeps_stmt) (auto simp: res_iff intro: upsert blob)

lemma keeps_PutWrites: "keeps I (cp_PutWrites E pw)"
  unfolding cp_PutWrites_def by (intro keeps_intro keeps_bump keeps_stmt) (auto intro: stored)

lemma keeps_GetTuple: "keeps I (cp_GetTuple E s ns cid)"
  unfolding cp_GetTuple_def by (intro keeps_intro) (auto split: list.splits)

lemma keeps_List: "keeps I (cp_List E s ns before limit fj)"
  unfolding cp_List_def by (intro keeps_intro)

lemma keeps_DeleteThread: "keeps I (cp_DeleteThread E s)"
  unfolding cp_DeleteThread_def by (rule keeps_stmt) (auto simp: res_iff intro: fewer)

lemma keeps_DeleteForRuns: "keeps I (cp_DeleteForRuns E ids)"
  unfolding cp_DeleteForRuns_def by (intro keeps_intro keeps_stmt) (auto simp: res_iff intro: fewer)

lemma keeps_copyThreadRows: "keeps I (copyThreadRows E src dst)"
  unfolding copyThreadRows_def Let_def
  by (intro keeps_intro keeps_bump keeps_stmt) (auto simp: rb_Inr intro: copy_c copy_b copy_w)

lemma keeps_CopyThread: "keeps I (cp_CopyThread E src dst)"
  unfolding cp_CopyThread_def by (intro keeps_intro keeps_copyThreadRows)

lemma keeps_Prune: "keeps I (cp_Prune E ids st)"
  unfolding cp_Prune_def by (intro keeps_intro keeps_stmt) (auto simp: res_iff intro: fewer)

lemmas keeps_cp = keeps_Put keeps_PutWrites keeps_GetTuple keeps_List keeps_DeleteThread keeps_DeleteForRuns
  keeps_CopyThread keeps_Prune

end

lemma has_thread_iff: "has_thread d tid \<longleftrightarrow> tid \<in> t_thread_id ` set (threads d)"
  by (auto simp: has_thread_def list_ex_iff)

lemma has_run_iff: "has_run d rid \<longleftrightarrow> rid \<in> r_run_id ` set (runs d)"
  by (auto simp: has_run_def list_ex_iff)

lemma fresh_rows_distinct:
  "distinct (map key tbl) \<Longrightarrow> distinct (map key rows) \<Longrightarrow> distinct (map key (tbl @ fresh_rows key rows tbl))"
  by (auto simp: fresh_rows_def distinct_map_filter image_iff)

lemma set_fresh_rows: "set (fresh_rows key rows tbl) \<subseteq> set rows"
  by (auto simp: fresh_rows_def)

text \<open>The copied rows have the keys of the source, with the other thread.\<close>

lemma copied_checkpoints:
  assumes "copy_checkpoints src dst d = Inr (u, d')"
  obtains rows where "d' = d\<lparr>checkpoints := checkpoints d @ fresh_rows cp_key rows (checkpoints d)\<rparr>"
    and "list_all2 (\<lambda>c c'. copy_checkpoint_row dst c = Inr c') (filter (\<lambda>c. c_thread_id c = src) (checkpoints d)) rows"
    and "fresh_rows cp_key rows (checkpoints d) = [] \<or> has_thread d dst"
  using assms unfolding copy_checkpoints_def rb_Inr res_map_Inr Let_def by (auto split: if_splits)

lemma copied_keys:
  assumes "list_all2 (\<lambda>c c'. copy_checkpoint_row dst c = Inr c') cs rows"
  shows "map cp_key rows = map (\<lambda>c. (dst, c_ns c, c_id c)) cs" and "map c_run_id rows = map c_run_id cs"
    and "map c_thread_id rows = map (\<lambda>_. dst) cs"
  using assms by (induction rule: list_all2_induct) (auto simp: cp_key_def copy_checkpoint_row_def res_iff)

lemma src_keys_distinct:
  "distinct (map cp_key xs) \<Longrightarrow> distinct (map (\<lambda>c. (dst, c_ns c, c_id c)) (filter (\<lambda>c. c_thread_id c = src) xs))"
  by (induction xs) (auto simp: cp_key_def image_iff)

lemma refs_add_checkpoints:
  assumes "db_ok d" and "new = [] \<or> has_thread d dst" and "\<And>c. c \<in> set new \<Longrightarrow> c_thread_id c = dst"
    and "c_run_id ` set new \<subseteq> c_run_id ` set (checkpoints d)"
  shows "db_ok (d\<lparr>checkpoints := checkpoints d @ new\<rparr>)"
proof -
  have "c_thread_id c \<in> t_thread_id ` set (threads d) \<and> (\<forall>i \<in> set_option (c_run_id c). i \<in> r_run_id ` set (runs d))"
    if c: "c \<in> set new" for c
  proof -
    from c have "new \<noteq> []" by auto
    with assms(2,3) c have "c_thread_id c \<in> t_thread_id ` set (threads d)" by (simp add: has_thread_iff)
    moreover from c assms(4) obtain c0 where "c0 \<in> set (checkpoints d)" "c_run_id c = c_run_id c0" by auto
    with assms(1) have "\<forall>i \<in> set_option (c_run_id c). i \<in> r_run_id ` set (runs d)"
      unfolding db_ok_def refs_ok_def by metis
    ultimately show ?thesis by blast
  qed
  with assms(1) show ?thesis
    by (simp add: db_ok_def keys_ok_def refs_ok_def ball_Un)
qed

text \<open>Replacing one of the three tables keeps the schema if the new rows belong to known threads and runs.\<close>

lemma db_ok_writes:
  "db_ok d \<Longrightarrow> w_thread_id ` set ws \<subseteq> t_thread_id ` set (threads d) \<Longrightarrow> db_ok (d\<lparr>writes := ws\<rparr>)"
  unfolding db_ok_def keys_ok_def refs_ok_def by simp blast

lemma db_ok_blobs:
  "db_ok d \<Longrightarrow> b_thread_id ` set bs \<subseteq> t_thread_id ` set (threads d) \<Longrightarrow> db_ok (d\<lparr>blobs := bs\<rparr>)"
  unfolding db_ok_def keys_ok_def refs_ok_def by simp blast

lemma db_ok_checkpoints:
  assumes "db_ok d" and "\<And>c. c \<in> set cs \<Longrightarrow> c_thread_id c \<in> t_thread_id ` set (threads d) \<and>
      (\<forall>i \<in> set_option (c_run_id c). i \<in> r_run_id ` set (runs d))"
  shows "db_ok (d\<lparr>checkpoints := cs\<rparr>)"
  using assms unfolding db_ok_def keys_ok_def refs_ok_def by simp

lemma db_ok_rows:
  assumes "db_ok d"
  shows "w_thread_id ` set (writes d) \<subseteq> t_thread_id ` set (threads d)" "b_thread_id ` set (blobs d) \<subseteq> t_thread_id ` set (threads d)"
  using assms unfolding db_ok_def refs_ok_def by blast+

lemma db_ok_add:
  assumes "db_ok d"
  shows "bs = [] \<or> has_thread d tid \<Longrightarrow> b_thread_id ` set bs \<subseteq> {tid} \<Longrightarrow> db_ok (d\<lparr>blobs := blobs d @ bs\<rparr>)"
    and "ws = [] \<or> has_thread d tid \<Longrightarrow> w_thread_id ` set ws \<subseteq> {tid} \<Longrightarrow> db_ok (d\<lparr>writes := writes d @ ws\<rparr>)"
  using db_ok_rows[OF assms] unfolding has_thread_iff
  by (auto intro!: db_ok_blobs[OF assms] db_ok_writes[OF assms] simp: image_Un simp del: set_map) (auto simp: image_subset_iff)

lemma fresh_subset: "f ` set rows \<subseteq> X \<Longrightarrow> f ` set (fresh_rows key rows tbl) \<subseteq> X"
  using set_fresh_rows[of key rows tbl] by blast

lemma upsert_write_ok:
  assumes ok: "db_ok d" and up: "upsert_write row d = Inr (u, d')"
  shows "db_ok d'"
proof (cases "list_ex (\<lambda>y. write_key y = write_key row) (writes d)")
  case True
  show ?thesis
  proof (cases "w_idx row < 0")
    case neg: True
    let ?ws = "map (\<lambda>y. if write_key y = write_key row then y\<lparr>w_channel := w_channel row, w_type := w_type row,
      w_blob := w_blob row, w_task_path := w_task_path row\<rparr> else y) (writes d)"
    have "map w_thread_id ?ws = map w_thread_id (writes d)" by simp
    then have "set (map w_thread_id ?ws) = set (map w_thread_id (writes d))" by (rule arg_cong)
    with db_ok_rows(1)[OF ok] have "w_thread_id ` set ?ws \<subseteq> t_thread_id ` set (threads d)"
      unfolding set_map by simp
    from db_ok_writes[OF ok this] have "db_ok (d\<lparr>writes := ?ws\<rparr>)" .
    moreover have "d' = d\<lparr>writes := ?ws\<rparr>" using up True neg by (simp add: upsert_write_def)
    ultimately show ?thesis by (simp only:)
  next
    case False
    with ok up True show ?thesis by (simp add: upsert_write_def)
  qed
next
  case False
  with up have "has_thread d (w_thread_id row)" "d' = d\<lparr>writes := writes d @ [row]\<rparr>"
    by (simp_all add: upsert_write_def split: if_splits)
  with ok db_ok_rows(1)[OF ok] show ?thesis by (simp add: db_ok_writes has_thread_iff)
qed

lemma upsert_checkpoint_ok:
  assumes ok: "db_ok d" and up: "upsert_checkpoint c d = Inr (u, d')"
  shows "db_ok d'"
proof (cases "list_ex (\<lambda>x. cp_key x = cp_key c) (checkpoints d)")
  case True
  let ?f = "\<lambda>x. if cp_key x = cp_key c then x\<lparr>c_checkpoint := c_checkpoint c, c_metadata := c_metadata c\<rparr> else x"
  have d': "d' = d\<lparr>checkpoints := map ?f (checkpoints d)\<rparr>" using up True by (simp add: upsert_checkpoint_def)
  show ?thesis
    unfolding d'
  proof (rule db_ok_checkpoints[OF ok])
    fix y assume "y \<in> set (map ?f (checkpoints d))"
    then obtain x where x: "x \<in> set (checkpoints d)" "y = ?f x" unfolding set_map by blast
    have "c_thread_id y = c_thread_id x" "c_run_id y = c_run_id x" unfolding x(2) by simp_all
    with x(1) ok show "c_thread_id y \<in> t_thread_id ` set (threads d) \<and> (\<forall>i \<in> set_option (c_run_id y). i \<in> r_run_id ` set (runs d))"
      by (simp add: db_ok_def refs_ok_def)
  qed
next
  case False
  with up have "has_thread d (c_thread_id c)" "\<forall>r \<in> set_option (c_run_id c). has_run d r"
      "d' = d\<lparr>checkpoints := checkpoints d @ [c]\<rparr>"
    by (auto simp: upsert_checkpoint_def split: if_splits option.splits)
  with ok show ?thesis
    unfolding db_ok_def keys_ok_def refs_ok_def by (simp add: ball_Un has_thread_iff has_run_iff)
qed

interpretation cp_integrity: checkpoint_ops db_ok
proof unfold_locales
  fix d src dst u d' assume ok: "db_ok d" and cp: "copy_checkpoints src dst d = Inr (u, d')"
  from cp obtain rows where d': "d' = d\<lparr>checkpoints := checkpoints d @ fresh_rows cp_key rows (checkpoints d)\<rparr>"
    and rows: "list_all2 (\<lambda>c c'. copy_checkpoint_row dst c = Inr c') (filter (\<lambda>c. c_thread_id c = src) (checkpoints d)) rows"
    and th: "fresh_rows cp_key rows (checkpoints d) = [] \<or> has_thread d dst"
    by (rule copied_checkpoints)
  have "c_thread_id ` set rows \<subseteq> {dst}" "c_run_id ` set rows \<subseteq> c_run_id ` set (checkpoints d)"
    using copied_keys(2,3)[OF rows, THEN arg_cong[of _ _ set]] by (auto simp: image_iff)
  with set_fresh_rows[of cp_key rows "checkpoints d"] show "db_ok d'"
    unfolding d' by (intro refs_add_checkpoints[OF ok th]) blast+
next
  fix E s ns b d u d' assume ok: "db_ok d" and ins: "insert_blob E s ns b d = Inr (u, d')"
  then consider "d' = d" | tid row where "d' = d\<lparr>blobs := blobs d @ [row]\<rparr>" "has_thread d tid" "b_thread_id row = tid"
    by (auto simp: insert_blob_def rb_Inr Let_def split: if_splits)
  then show "db_ok d'"
    using ok db_ok_add(1)[OF ok] by cases auto
next
  fix src dst d u d' assume ok: "db_ok d" and cp: "copy_blobs src dst d = Inr (u, d')"
  let ?new = "fresh_rows blob_key (map (\<lambda>b. b\<lparr>b_thread_id := dst\<rparr>) (filter (\<lambda>b. b_thread_id b = src) (blobs d))) (blobs d)"
  have "?new = [] \<or> has_thread d dst" "d' = d\<lparr>blobs := blobs d @ ?new\<rparr>"
    using cp by (auto simp: copy_blobs_def Let_def split: if_splits)
  moreover have "b_thread_id ` set ?new \<subseteq> {dst}" by (rule fresh_subset) auto
  ultimately show "db_ok d'" by (simp only: db_ok_add(1)[OF ok])
next
  fix src dst d u d' assume ok: "db_ok d" and cp: "copy_writes src dst d = Inr (u, d')"
  let ?new = "fresh_rows write_key (map (\<lambda>x. x\<lparr>w_thread_id := dst\<rparr>) (filter (\<lambda>x. w_thread_id x = src) (writes d))) (writes d)"
  have "?new = [] \<or> has_thread d dst" "d' = d\<lparr>writes := writes d @ ?new\<rparr>"
    using cp by (auto simp: copy_writes_def Let_def split: if_splits)
  moreover have "w_thread_id ` set ?new \<subseteq> {dst}" by (rule fresh_subset) auto
  ultimately show "db_ok d'" by (simp only: db_ok_add(2)[OF ok])
next
  fix d Q assume "db_ok d"
  then show "db_ok (d\<lparr>checkpoints := filter Q (checkpoints d)\<rparr>)"
    unfolding db_ok_def keys_ok_def refs_ok_def by simp blast
qed (auto simp: upd_threads_ok insert_write_def rb_Inr intro: upsert_write_ok upsert_checkpoint_ok)

lemma upsert_keys:
  assumes "upsert_checkpoint c d = Inr (u, d')" and "distinct (map cp_key (checkpoints d))"
  shows "distinct (map cp_key (checkpoints d')) \<and> blobs d' = blobs d \<and> writes d' = writes d"
proof -
  have "cp_key (x\<lparr>c_checkpoint := a, c_metadata := b\<rparr>) = cp_key x" for x a b
    by (simp add: cp_key_def)
  then have "map cp_key (map (\<lambda>x. if cp_key x = cp_key c
      then x\<lparr>c_checkpoint := c_checkpoint c, c_metadata := c_metadata c\<rparr> else x) xs) = map cp_key xs" for xs
    by (rule map_upd_key)
  with assms show ?thesis
    by (auto simp: upsert_checkpoint_def list_ex_key simp del: map_map split: if_splits)
qed

lemma insert_blob_keys: "insert_blob E s ns b d = Inr (u, d') \<Longrightarrow> distinct (map blob_key (blobs d)) \<Longrightarrow>
    distinct (map blob_key (blobs d')) \<and> checkpoints d' = checkpoints d \<and> writes d' = writes d"
  by (auto simp: insert_blob_def res_iff Let_def list_ex_key split: if_splits)

text \<open>What a write stores: the row of the request, unless a regular write is already there.\<close>

definition put_write :: "write_row \<Rightarrow> write_row list \<Rightarrow> write_row list" where
  "put_write row ws =
     (if write_key row \<in> write_key ` set ws
      then if w_idx row < 0 then map (\<lambda>y. if write_key y = write_key row then row else y) ws else ws
      else ws @ [row])"

lemma write_row_eq:
  "write_key y = write_key row \<Longrightarrow> y\<lparr>w_channel := w_channel row, w_type := w_type row, w_blob := w_blob row,
     w_task_path := w_task_path row\<rparr> = row"
  by (cases y; cases row) (auto simp: write_key_def)

lemma upsert_write_Inr: "upsert_write row d = Inr (u, d') \<Longrightarrow> d' = d\<lparr>writes := put_write row (writes d)\<rparr>"
  by (auto simp: upsert_write_def put_write_def list_ex_key write_row_eq cong: if_cong split: if_splits)

lemma insert_write_Inr:
  assumes "insert_write E pw x d = Inr (u, d')"
  obtains tid cid task b where "pg_uuid E (pw_ThreadID pw) = Some tid" "pg_uuid E (pw_CheckpointID pw) = Some cid"
    "pg_uuid E (pw_TaskID pw) = Some task" "wi_Blob x = Some b"
    "d' = d\<lparr>writes := put_write (write_row_of pw tid cid task x b) (writes d)\<rparr>"
  using assms by (auto simp: insert_write_def res_iff dest: upsert_write_Inr)

lemma put_write_keys: "distinct (map write_key ws) \<Longrightarrow> distinct (map write_key (put_write row ws))"
proof -
  have "map write_key (map (\<lambda>y. if write_key y = write_key row then row else y) ws) = map write_key ws"
    by simp
  then show "distinct (map write_key ws) \<Longrightarrow> ?thesis"
    by (simp add: put_write_def del: map_map)
qed

interpretation cp_keys: checkpoint_ops cp_ok
proof unfold_locales
  fix d src dst u d' assume ok: "cp_ok d" and cp: "copy_checkpoints src dst d = Inr (u, d')"
  from cp obtain rows where d': "d' = d\<lparr>checkpoints := checkpoints d @ fresh_rows cp_key rows (checkpoints d)\<rparr>"
    and rows: "list_all2 (\<lambda>c c'. copy_checkpoint_row dst c = Inr c') (filter (\<lambda>c. c_thread_id c = src) (checkpoints d)) rows"
    by (rule copied_checkpoints)
  have "distinct (map cp_key rows)"
    using ok unfolding copied_keys(1)[OF rows] by (intro src_keys_distinct) (simp add: cp_ok_def)
  with ok fresh_rows_distinct[of cp_key "checkpoints d" rows] show "cp_ok d'"
    by (simp add: cp_ok_def d')
next
  fix d src dst u d' assume ok: "cp_ok d" and cp: "copy_blobs src dst d = Inr (u, d')"
  have "distinct (map blob_key (map (\<lambda>b. b\<lparr>b_thread_id := dst\<rparr>) (filter (\<lambda>b. b_thread_id b = src) bs)))"
    if "distinct (map blob_key bs)" for bs
    using that by (induction bs) (auto simp: blob_key_def image_iff)
  with ok cp fresh_rows_distinct[of blob_key "blobs d"] show "cp_ok d'"
    by (auto simp: cp_ok_def copy_blobs_def Let_def simp del: map_map split: if_splits)
next
  fix d src dst u d' assume ok: "cp_ok d" and cp: "copy_writes src dst d = Inr (u, d')"
  have "distinct (map write_key (map (\<lambda>x. x\<lparr>w_thread_id := dst\<rparr>) (filter (\<lambda>x. w_thread_id x = src) ws)))"
    if "distinct (map write_key ws)" for ws
    using that by (induction ws) (auto simp: write_key_def image_iff)
  with ok cp fresh_rows_distinct[of write_key "writes d"] show "cp_ok d'"
    by (auto simp: cp_ok_def copy_writes_def Let_def simp del: map_map split: if_splits)
next
  fix E pw x d u d' assume ok: "cp_ok d" and cp: "insert_write E pw x d = Inr (u, d')"
  from cp ok show "cp_ok d'"
    by (cases rule: insert_write_Inr) (auto simp: cp_ok_def put_write_keys)
qed (auto simp: cp_ok_def distinct_map_filter dest: upsert_keys insert_blob_keys)

section \<open>Blobs are immutable\<close>

lemma blobs_grow_laws:
  "upsert_checkpoint c d = Inr (u, d') \<Longrightarrow> blobs d' = blobs d"
  "upsert_write row d = Inr (u, d') \<Longrightarrow> blobs d' = blobs d"
  "copy_checkpoints src dst d = Inr (u, d') \<Longrightarrow> blobs d' = blobs d"
  "copy_writes src dst d = Inr (u, d') \<Longrightarrow> blobs d' = blobs d"
  by (auto simp: upsert_checkpoint_def upsert_write_def copy_checkpoints_def copy_writes_def res_iff Let_def split: if_splits)

lemma blobs_grow_insert: "insert_blob E s ns b d = Inr (u, d') \<Longrightarrow> prefix (blobs d) (blobs d')"
  by (auto simp: insert_blob_def res_iff Let_def split: if_splits)

interpretation cp_blobs: checkpoint_ops "\<lambda>d. prefix bs (blobs d)" for bs
proof unfold_locales
  fix src dst d u d' assume "prefix bs (blobs d)" "copy_blobs src dst d = Inr (u, d')"
  then show "prefix bs (blobs d')" by (auto simp: copy_blobs_def Let_def split: if_splits)
qed (auto simp: blobs_grow_laws insert_write_def rb_Inr dest: blobs_grow_insert intro: prefix_order.trans)

text \<open>The calls of the service that write, and one of them on the store.\<close>

datatype cp_call =
    DoPut PutInput
  | DoPutWrites PutWritesInput
  | DoDeleteThread string
  | DoDeleteForRuns "string list"
  | DoCopyThread string string
  | DoPrune "string list" int

fun cp_exec :: "env \<Rightarrow> cp_call \<Rightarrow> unit op" where
  "cp_exec E (DoPut pin) = cp_Put E pin"
| "cp_exec E (DoPutWrites pw) = cp_PutWrites E pw"
| "cp_exec E (DoDeleteThread s) = cp_DeleteThread E s"
| "cp_exec E (DoDeleteForRuns ids) = cp_DeleteForRuns E ids"
| "cp_exec E (DoCopyThread src dst) = cp_CopyThread E src dst"
| "cp_exec E (DoPrune ids st) = cp_Prune E ids st"

context checkpoint_ops
begin

lemma keeps_exec: "keeps I (cp_exec E c)"
  by (cases c) (simp_all add: keeps_cp)

lemma keeps_execs: "I (db w) \<Longrightarrow> I (db (fold (\<lambda>c w. snd (cp_exec E c w)) cs w))"
  using keeps_exec by (induction cs arbitrary: w) (auto simp: keeps_def)

end

text \<open>
  (C27) The checkpoint tables keep their keys under any sequence of calls and any database faults: no two checkpoints with the same thread,
  namespace and id, no two blobs for a version of a channel, no two writes for an index of a task, and every row
  belongs to an existing thread and run. A stored blob is never changed or removed by the checkpointer, so a reader sees for a
  version of a channel always the same bytes.
\<close>

theorem checkpoint_tables_sound:
  assumes "db_ok (db w)" and "cp_ok (db w)" and "w' = fold (\<lambda>c w. snd (cp_exec E c w)) cs w"
  shows "db_ok (db w') \<and> cp_ok (db w') \<and> prefix (blobs (db w)) (blobs (db w'))"
  using cp_integrity.keeps_execs[OF assms(1)] cp_keys.keeps_execs[OF assms(2)]
    cp_blobs.keeps_execs[of "blobs (db w)" w] by (simp add: assms(3))

theorem checkpoint_tables_sound_witness:
  "db_ok (db (fold (\<lambda>c w. snd (cp_exec sample_env c w)) [DoPrune [''t1''] 1, DoCopyThread ''t1'' ''t2''] sample_world))"
proof -
  have "cp_ok (db sample_world)" by (simp add: cp_ok_def sample_defs)
  from checkpoint_tables_sound[OF sample_ok this refl] show ?thesis by blast
qed

end
