(* ===== verification/Checkpoint_Correct.thy ===== *)
theory Checkpoint_Correct
  imports Checkpoint_Integrity
begin

text \<open>
  What the checkpoint store promises its readers: repeating a batch of writes has no effect, pruning keeps what the
  next reader asks for, a copied thread reads like the original, and a checkpoint that was put is the
  checkpoint that is read.
\<close>

section \<open>Repeated writes\<close>

text \<open>On a table that has all the keys, storing rows only overwrites the sentinel rows, the last one winning.\<close>

fun overwritten :: "write_row list \<Rightarrow> write_row \<Rightarrow> write_row" where
  "overwritten [] y = y"
| "overwritten (r # rs) y = overwritten rs (if write_key y = write_key r \<and> w_idx r < 0 then r else y)"

lemma overwritten_append: "overwritten (rs @ [r]) y =
    (if write_key (overwritten rs y) = write_key r \<and> w_idx r < 0 then r else overwritten rs y)"
  by (induction rs arbitrary: y) auto

lemma overwritten_key [simp]: "write_key (overwritten rs y) = write_key y"
  by (induction rs arbitrary: y) auto

lemma overwritten_other: "write_key y \<notin> write_key ` set rs \<Longrightarrow> overwritten rs y = y"
  by (induction rs) auto

lemma put_write_keys_set: "write_key ` set (put_write r ws) = insert (write_key r) (write_key ` set ws)"
proof -
  have img: "write_key ` (\<lambda>y. if write_key y = write_key r then r else y) ` set ws = write_key ` set ws"
    unfolding image_image by (rule image_cong) simp_all
  show ?thesis
  proof (cases "write_key r \<in> write_key ` set ws")
    case True
    show ?thesis
      unfolding put_write_def if_P[OF True]
      by (cases "w_idx r < 0") (simp_all only: if_True if_False set_map img insert_absorb[OF True])
  next
    case False
    then show ?thesis by (simp add: put_write_def)
  qed
qed

lemma fold_put_keys: "write_key ` set (fold put_write rs ws) = write_key ` set rs \<union> write_key ` set ws"
  by (induction rs arbitrary: ws) (auto simp: put_write_keys_set)

lemma fold_put_present:
  "write_key ` set rs \<subseteq> write_key ` set ws \<Longrightarrow> fold put_write rs ws = map (overwritten rs) ws"
proof (induction rs arbitrary: ws)
  case (Cons r rs)
  have "put_write r ws = map (\<lambda>y. if write_key y = write_key r \<and> w_idx r < 0 then r else y) ws"
    using Cons.prems by (auto simp: put_write_def)
  moreover have "write_key ` set rs \<subseteq> write_key ` set (put_write r ws)"
    using Cons.prems by (auto simp: put_write_keys_set)
  ultimately show ?case
    using Cons.IH[of "put_write r ws"] by (simp add: comp_def)
qed (simp add: map_idI)

lemma overwritten_fixed: "y \<in> set (fold put_write rs ws) \<Longrightarrow> overwritten rs y = y"
proof (induction rs arbitrary: y rule: rev_induct)
  case (snoc r rs)
  let ?T = "fold put_write rs ws"
  from snoc.prems have y: "y \<in> set (put_write r ?T)" by simp
  show ?case
  proof (cases "write_key r \<in> write_key ` set ?T")
    case True
    with y have "y \<in> set ?T \<and> (write_key y = write_key r \<longrightarrow> \<not> w_idx r < 0) \<or> y = r \<and> w_idx r < 0"
      by (auto simp: put_write_def split: if_splits)
    with snoc.IH show ?thesis by (auto simp: overwritten_append)
  next
    case False
    then have "write_key r \<notin> write_key ` set rs" by (simp add: fold_put_keys)
    moreover from y False have "y = r \<or> y \<in> set ?T \<and> write_key y \<noteq> write_key r"
      by (auto simp: put_write_def image_iff)
    ultimately show ?thesis using snoc.IH by (auto simp: overwritten_append overwritten_other)
  qed
qed simp

lemma fold_put_idem: "fold put_write rs (fold put_write rs ws) = fold put_write rs ws"
proof -
  have "write_key ` set rs \<subseteq> write_key ` set (fold put_write rs ws)" by (simp add: fold_put_keys)
  from fold_put_present[OF this] overwritten_fixed show ?thesis by (simp add: map_idI)
qed

text \<open>The loop of \<^verbatim>\<open>PutWrites\<close> under arbitrary faults: the rows are stored one after the other.\<close>

definition write_rows :: "env \<Rightarrow> PutWritesInput \<Rightarrow> write_row list" where
  "write_rows E pw = map (\<lambda>x. write_row_of pw (the (pg_uuid E (pw_ThreadID pw))) (the (pg_uuid E (pw_CheckpointID pw)))
     (the (pg_uuid E (pw_TaskID pw))) x (the (wi_Blob x))) (pw_Writes pw)"

lemma PutWrites_loop:
  "for_each (\<lambda>x. stmt (\<lambda>_ d. insert_write E pw x d)) xs w = (Inr u, w') \<Longrightarrow>
     db w' = (db w)\<lparr>writes := fold put_write (write_rows E (pw\<lparr>pw_Writes := xs\<rparr>)) (writes (db w))\<rparr> \<and> now w' = now w"
proof (induction xs arbitrary: w)
  case (Cons x xs)
  from Cons.prems obtain u1 w1 where
      1: "stmt (\<lambda>_ d. insert_write E pw x d) w = (Inr u1, w1)" and
      2: "for_each (\<lambda>x. stmt (\<lambda>_ d. insert_write E pw x d)) xs w1 = (Inr u, w')"
    by (auto simp: bnd_Inr)
  from 1 obtain d1 where ins: "insert_write E pw x (db w) = Inr (u1, d1)" and w1: "db w1 = d1" "now w1 = now w"
    by (auto simp: stmt_Inr)
  from ins w1 Cons.IH[OF 2] show ?case
    by (cases rule: insert_write_Inr) (simp add: write_rows_def write_row_of_def)
qed (simp add: res_iff write_rows_def)

lemma bump_thread_Inr:
  assumes "bump_thread E s w = (Inr u, w')"
  shows "checkpoints (db w') = checkpoints (db w)" "writes (db w') = writes (db w)" "blobs (db w') = blobs (db w)"
    "runs (db w') = runs (db w)" "map t_thread_id (threads (db w')) = map t_thread_id (threads (db w))"
  using assms by (auto simp: bump_thread_def res_iff)

lemma PutWrites_writes:
  "cp_PutWrites E pw w = (Inr u, w') \<Longrightarrow> writes (db w') = fold put_write (write_rows E pw) (writes (db w))"
  by (auto simp: cp_PutWrites_def res_iff bump_thread_Inr(2) dest!: PutWrites_loop)

text \<open>
  Retrying is safe: when \<^verbatim>\<open>PutWrites\<close> has succeeded and the client sends the same batch again, the pending writes do not change, whatever
  else happens around the two calls in the log of faults. Within a batch, a sentinel channel (error,
  scheduled, interrupt, resume) keeps the last value sent and a regular write the first one stored.
\<close>

theorem put_writes_idempotent:
  assumes "cp_PutWrites E pw w = (Inr u, w1)" and "cp_PutWrites E pw (w1\<lparr>faults := fs\<rparr>) = (Inr u', w2)"
  shows "writes (db w2) = writes (db w1) \<and>
     (\<forall>y \<in> set (writes (db w1)). overwritten (write_rows E pw) y = y)"
  using PutWrites_writes[OF assms(1)] PutWrites_writes[OF assms(2)] overwritten_fixed
  by (auto simp: fold_put_idem)

definition sample_writes :: PutWritesInput where
  "sample_writes = \<lparr>pw_ThreadID = ''t1'', pw_CheckpointNS = [], pw_CheckpointID = ''c1'', pw_TaskID = ''k1'', pw_TaskPath = [],
     pw_Writes = [\<lparr>wi_Idx = 0, wi_Channel = ''x'', wi_Encoding = ''json'', wi_Blob = Some ''1''\<rparr>,
                  \<lparr>wi_Idx = -1, wi_Channel = ''__error__'', wi_Encoding = ''json'', wi_Blob = Some ''2''\<rparr>,
                  \<lparr>wi_Idx = -1, wi_Channel = ''__error__'', wi_Encoding = ''json'', wi_Blob = Some ''3''\<rparr>]\<rparr>"

theorem put_writes_idempotent_witness:
  "\<exists>w1 w2. cp_PutWrites sample_env sample_writes sample_world = (Inr (), w1) \<and>
     cp_PutWrites sample_env sample_writes w1 = (Inr (), w2) \<and> writes (db w2) = writes (db w1) \<and>
     map w_blob (writes (db w1)) = [''1'', ''3'']"
proof -
  define w1 where "w1 = snd (cp_PutWrites sample_env sample_writes sample_world)"
  define w2 where "w2 = snd (cp_PutWrites sample_env sample_writes w1)"
  have 1: "cp_PutWrites sample_env sample_writes sample_world = (Inr (), w1)"
    unfolding w1_def by (rule prod_eqI) (simp, code_simp, simp)
  have "faults w1 = []" unfolding w1_def by code_simp
  then have w1: "w1\<lparr>faults := []\<rparr> = w1" by simp
  have 2: "cp_PutWrites sample_env sample_writes (w1\<lparr>faults := []\<rparr>) = (Inr (), w2)"
    unfolding w1 unfolding w2_def w1_def by (rule prod_eqI) (simp, code_simp, simp)
  have "map w_blob (writes (db w1)) = [''1'', ''3'']" unfolding w1_def by code_simp
  then show ?thesis
    using put_writes_idempotent[OF 1 2] by (intro exI[of _ w1] exI[of _ w2] conjI 1 2[unfolded w1]) simp_all
qed

section \<open>Pruning and deletion\<close>

lemma sort_desc_hd:
  assumes "c \<in> set cs" and "\<And>x. x \<in> set cs \<Longrightarrow> c_id x \<le> c_id c" and "\<And>x. x \<in> set cs \<Longrightarrow> c_id x = c_id c \<Longrightarrow> x = c"
  shows "take 1 (sort_desc c_id cs) = [c]"
proof -
  obtain y ys where ys: "sort_desc c_id cs = y # ys"
    using assms(1) set_sort_desc(1)[of c_id cs] by (cases "sort_desc c_id cs") auto
  then have y: "y \<in> set cs" using set_sort_desc(1)[of c_id cs] by (metis list.set_intros(1))
  have "c \<in> set (y # ys)" using assms(1) set_sort_desc(1)[of c_id cs] ys by simp
  with sort_desc_sorted[of c_id cs] ys have "c_id c \<le> c_id y" by auto
  with assms(2)[OF y] assms(3)[OF y] ys show ?thesis by simp
qed

lemma latest_unique:
  assumes "cp_ok d" and "x \<in> set (checkpoints d)" and "y \<in> set (checkpoints d)"
    and "c_thread_id x = c_thread_id y" and "c_ns x = c_ns y" and "c_id x = c_id y"
  shows "x = y"
  using assms distinct_key_unique[of cp_key "checkpoints d" x y] by (simp add: cp_ok_def cp_key_def)

lemma latest_exists:
  assumes "\<exists>c \<in> set cs. P c"
  shows "\<exists>c \<in> set cs. P c \<and> (\<forall>x \<in> set cs. P x \<longrightarrow> c_id x \<le> c_id c)"
proof -
  let ?S = "c_id ` {c \<in> set cs. P c}"
  have "finite ?S" "?S \<noteq> {}" using assms by auto
  then have "Max ?S \<in> ?S" by (rule Max_in)
  then obtain c where "c \<in> set cs" "P c" "c_id c = Max ?S" by auto
  moreover have "c_id x \<le> Max ?S" if "x \<in> set cs" "P x" for x
    using that \<open>finite ?S\<close> by (intro Max_ge) auto
  ultimately show ?thesis by auto
qed

text \<open>The newest checkpoint of a namespace, as \<^verbatim>\<open>GetTuple\<close> without an id selects it.\<close>

lemma newest_filter:
  assumes "cp_ok d" and "\<And>c. c \<in> set (checkpoints d) \<Longrightarrow> c_thread_id c = t \<Longrightarrow> c_ns c = ns \<Longrightarrow> is_latest d c \<Longrightarrow> Q c"
  shows "take 1 (sort_desc c_id (filter (\<lambda>c. c_thread_id c = t \<and> c_ns c = ns) (filter Q (checkpoints d)))) =
         take 1 (sort_desc c_id (filter (\<lambda>c. c_thread_id c = t \<and> c_ns c = ns) (checkpoints d)))"
proof (cases "\<exists>c \<in> set (checkpoints d). c_thread_id c = t \<and> c_ns c = ns")
  case True
  then obtain c where c: "c \<in> set (checkpoints d)" "c_thread_id c = t" "c_ns c = ns"
      and top: "\<And>x. x \<in> set (checkpoints d) \<Longrightarrow> c_thread_id x = t \<and> c_ns x = ns \<Longrightarrow> c_id x \<le> c_id c"
    using latest_exists[of "checkpoints d" "\<lambda>c. c_thread_id c = t \<and> c_ns c = ns"] by blast
  then have "is_latest d c" by (auto simp: is_latest_def list_all_iff)
  with assms(2) c have q: "Q c" by blast
  have uniq: "x = c" if "x \<in> set (checkpoints d)" "c_thread_id x = t \<and> c_ns x = ns" "c_id x = c_id c" for x
    using latest_unique[OF assms(1) that(1) c(1)] that(2,3) c(2,3) by simp
  have "take 1 (sort_desc c_id (filter (\<lambda>c. c_thread_id c = t \<and> c_ns c = ns) (filter Q (checkpoints d)))) = [c]"
    using c q top uniq by (intro sort_desc_hd) auto
  moreover have "take 1 (sort_desc c_id (filter (\<lambda>c. c_thread_id c = t \<and> c_ns c = ns) (checkpoints d))) = [c]"
    using c top uniq by (intro sort_desc_hd) auto
  ultimately show ?thesis by simp
next
  case False
  then have "filter (\<lambda>c. c_thread_id c = t \<and> c_ns c = ns) (checkpoints d) = []"
    "filter (\<lambda>c. c_thread_id c = t \<and> c_ns c = ns) (filter Q (checkpoints d)) = []"
    by (auto simp: filter_empty_conv)
  then show ?thesis by simp
qed

text \<open>What is read of a row depends on the blobs and the writes, not on the other checkpoints.\<close>

lemma load_frame:
  assumes "faults w = []" and "faults w' = []" and "blobs (db w') = blobs (db w)" and "writes (db w') = writes (db w)"
  shows "fst (loadBlobsAndWrites E row w') = fst (loadBlobsAndWrites E row w)"
  using assms by (simp add: loadBlobsAndWrites_def bnd_def query_run ret_def cong: if_cong split: sum.splits)

lemma GetTuple_newest_frame:
  assumes "faults w = []" and "faults w' = []" and "blobs (db w') = blobs (db w)" and "writes (db w') = writes (db w)"
    and "\<And>t. take 1 (sort_desc c_id (filter (\<lambda>c. c_thread_id c = t \<and> c_ns c = ns) (checkpoints (db w')))) =
             take 1 (sort_desc c_id (filter (\<lambda>c. c_thread_id c = t \<and> c_ns c = ns) (checkpoints (db w))))"
  shows "fst (cp_GetTuple E s ns [] w') = fst (cp_GetTuple E s ns [] w)"
proof (cases "cast_uuid E s")
  case (Inl e)
  with assms(1,2) show ?thesis by (simp add: cp_GetTuple_def bnd_def query_run)
next
  case (Inr t)
  let ?rows = "map (scan_checkpoint E) (take 1 (sort_desc c_id (filter (\<lambda>c. c_thread_id c = t \<and> c_ns c = ns) (checkpoints (db w)))))"
  show ?thesis
  proof (cases ?rows)
    case Nil
    with Inr assms(1,2,5) show ?thesis by (simp add: cp_GetTuple_def bnd_def query_run ret_def)
  next
    case (Cons r rs)
    with Inr assms(1,2,5) load_frame[OF assms(1-4), of E r] show ?thesis
      by (auto simp: cp_GetTuple_def bnd_def query_run ret_def split: prod.splits sum.splits)
  qed
qed

text \<open>
  (C29) Pruning with \<^verbatim>\<open>KEEP_LATEST\<close> is invisible to a reader of the current state: for every thread and namespace, \<^verbatim>\<open>GetTuple\<close> without an id
  answers the same before and after. In the named threads exactly the newest checkpoint of each namespace is left, and
  no other thread loses one.
\<close>

theorem prune_keeps_latest:
  assumes "faults w = []" and "cp_ok (db w)" and "list_all (\<lambda>s. pg_uuid E s \<noteq> None) ids"
  shows "fst (cp_GetTuple E s ns [] (snd (cp_Prune E ids 1 w))) = fst (cp_GetTuple E s ns [] w) \<and>
     fst (cp_Prune E ids 1 w) = Inr () \<and>
     (\<forall>c. c \<in> set (checkpoints (db (snd (cp_Prune E ids 1 w)))) \<longleftrightarrow>
        c \<in> set (checkpoints (db w)) \<and> ((\<exists>i \<in> set ids. pg_uuid E i = Some (c_thread_id c)) \<longrightarrow> is_latest (db w) c))"
proof (cases "ids = []")
  case True
  then show ?thesis by (simp add: cp_Prune_def ret_def)
next
  case False
  define Q where "Q = (\<lambda>c. \<not> (c_thread_id c \<in> set (map (\<lambda>s. the (pg_uuid E s)) ids) \<and> \<not> is_latest (db w) c))"
  have run: "cp_Prune E ids 1 w = (Inr (), w\<lparr>db := (db w)\<lparr>checkpoints := filter Q (checkpoints (db w))\<rparr>\<rparr>)"
    using False assms(1) by (simp add: cp_Prune_def stmt_run res_map_uuid[OF assms(3)] Q_def)
  have "take 1 (sort_desc c_id (filter (\<lambda>c. c_thread_id c = t \<and> c_ns c = ns) (filter Q (checkpoints (db w))))) =
      take 1 (sort_desc c_id (filter (\<lambda>c. c_thread_id c = t \<and> c_ns c = ns) (checkpoints (db w))))" for t
    by (rule newest_filter[OF assms(2)]) (simp add: Q_def)
  then have "fst (cp_GetTuple E s ns [] (w\<lparr>db := (db w)\<lparr>checkpoints := filter Q (checkpoints (db w))\<rparr>\<rparr>)) =
      fst (cp_GetTuple E s ns [] w)"
    using assms(1) by (intro GetTuple_newest_frame) simp_all
  then show ?thesis
    unfolding run by (auto simp: Q_def ids_in[OF assms(3)])
qed

definition sample_checkpoint :: "uuid \<Rightarrow> uuid \<Rightarrow> uuid option \<Rightarrow> checkpoint_row" where
  "sample_checkpoint tid cid par = \<lparr>c_thread_id = tid, c_ns = [], c_id = cid, c_run_id = None, c_parent_id = par,
     c_checkpoint = empty_obj, c_metadata = empty_obj\<rparr>"

definition sample_history :: world where
  "sample_history = sample_world\<lparr>db := sample_db\<lparr>
     checkpoints := [sample_checkpoint ''t1'' ''c2'' (Some ''c1''), sample_checkpoint ''t1'' ''c1'' None],
     blobs := [\<lparr>b_thread_id = ''t1'', b_ns = [], b_channel = ''x'', b_version = ''1'', b_type = ''json'', b_blob = Some ''7''\<rparr>],
     writes := [\<lparr>w_thread_id = ''t1'', w_ns = [], w_checkpoint_id = ''c1'', w_task_id = ''k'', w_idx = 0,
       w_channel = ''__pregel_tasks'', w_type = ''json'', w_blob = ''8'', w_task_path = []\<rparr>]\<rparr>\<rparr>"

lemmas sample_history_defs = sample_history_def sample_checkpoint_def sample_defs

lemma sample_history_ok: "faults sample_history = []" "cp_ok (db sample_history)" "db_ok (db sample_history)"
  by (simp_all add: sample_history_defs cp_ok_def cp_key_def blob_key_def write_key_def db_ok_def keys_ok_def refs_ok_def)

theorem prune_keeps_latest_witness:
  "fst (cp_GetTuple sample_env ''t1'' [] [] (snd (cp_Prune sample_env [''t1''] 1 sample_history))) =
     fst (cp_GetTuple sample_env ''t1'' [] [] sample_history) \<and>
   map c_id (checkpoints (db (snd (cp_Prune sample_env [''t1''] 1 sample_history)))) = [''c2'']"
proof -
  have "list_all (\<lambda>s. pg_uuid sample_env s \<noteq> None) [''t1'']" by (simp add: sample_defs)
  moreover have "map c_id (checkpoints (db (snd (cp_Prune sample_env [''t1''] 1 sample_history)))) = [''c2'']"
    by code_simp
  ultimately show ?thesis
    using prune_keeps_latest[OF sample_history_ok(1,2)] by blast
qed

text \<open>
  \<^verbatim>\<open>DeleteThread\<close> removes every checkpoint of the thread and nothing else: blobs and writes of the thread stay, although the comment of
  the function speaks of a cascade (their foreign keys refer to the thread, not to the checkpoint). They are unreachable for
  a reader, and a later checkpoint with the same channel version would read the old bytes.
\<close>

theorem delete_thread_leaves_rows:
  assumes "faults w = []" and "pg_uuid E s = Some t"
  shows "fst (cp_DeleteThread E s w) = Inr () \<and>
    checkpoints (db (snd (cp_DeleteThread E s w))) = filter (\<lambda>c. c_thread_id c \<noteq> t) (checkpoints (db w)) \<and>
    blobs (db (snd (cp_DeleteThread E s w))) = blobs (db w) \<and> writes (db (snd (cp_DeleteThread E s w))) = writes (db w) \<and>
    fst (cp_GetTuple E s ns cid (snd (cp_DeleteThread E s w))) \<in> {Inr None, Inl (DbErr ''invalid input syntax for type uuid'')}"
proof -
  have run: "cp_DeleteThread E s w = (Inr (), w\<lparr>db := (db w)\<lparr>checkpoints := filter (\<lambda>c. c_thread_id c \<noteq> t) (checkpoints (db w))\<rparr>\<rparr>)"
    using assms by (simp add: cp_DeleteThread_def stmt_run cast_uuid_def)
  have none: "filter P (filter (\<lambda>c. c_thread_id c \<noteq> t) cs) = []" if "\<And>c. P c \<Longrightarrow> c_thread_id c = t" for P cs
    using that by (auto simp: filter_empty_conv)
  show ?thesis
    unfolding run using assms
    by (auto simp: cp_GetTuple_def bnd_def query_run cast_uuid_def ret_def sort_desc_def of_opt_def simp del: filter_filter
        simp: none split: option.splits)
qed

theorem delete_thread_leaves_rows_witness:
  "checkpoints (db (snd (cp_DeleteThread sample_env ''t1'' sample_history))) = [] \<and>
   length (blobs (db (snd (cp_DeleteThread sample_env ''t1'' sample_history)))) = 1"
proof -
  have "pg_uuid sample_env ''t1'' = Some ''t1''" by (simp add: sample_defs)
  from delete_thread_leaves_rows[OF sample_history_ok(1) this] show ?thesis
    by (simp add: sample_history_defs)
qed

section \<open>Copies\<close>

lemma insort_key_map: "insort_key k (g x) (map g xs) = map g (insort_key (\<lambda>y. k (g y)) x xs)"
  by (induction xs) auto

lemma sort_key_map: "sort_key k (map g xs) = map g (sort_key (\<lambda>y. k (g y)) xs)"
  by (induction xs) (auto simp: insort_key_map sort_key_simps)

lemma sort_desc_map: "sort_desc k (map g xs) = map g (sort_desc (\<lambda>y. k (g y)) xs)"
  by (simp add: sort_desc_def sort_key_map rev_map)

text \<open>A checkpoint under the new thread: its metadata names that thread.\<close>

definition moved :: "uuid \<Rightarrow> checkpoint_row \<Rightarrow> checkpoint_row" where
  "moved dst c = c\<lparr>c_thread_id := dst,
     c_metadata := (case c_metadata c of JObj m \<Rightarrow> JObj (obj_merge m [(''thread_id'', JStr dst)]) | j \<Rightarrow> j)\<rparr>"

lemma moved_simps [simp]: "c_thread_id (moved dst c) = dst" "c_ns (moved dst c) = c_ns c" "c_id (moved dst c) = c_id c"
  "c_parent_id (moved dst c) = c_parent_id c" "c_run_id (moved dst c) = c_run_id c" "c_checkpoint (moved dst c) = c_checkpoint c"
  by (simp_all add: moved_def)

definition empty_thread :: "uuid \<Rightarrow> db \<Rightarrow> bool" where
  "empty_thread t d = (has_thread d t \<and> t \<notin> c_thread_id ` set (checkpoints d) \<and> t \<notin> b_thread_id ` set (blobs d) \<and>
     t \<notin> w_thread_id ` set (writes d))"

definition copied_db :: "uuid \<Rightarrow> uuid \<Rightarrow> db \<Rightarrow> db" where
  "copied_db src dst d = d\<lparr>
     checkpoints := checkpoints d @ map (moved dst) (filter (\<lambda>c. c_thread_id c = src) (checkpoints d)),
     blobs := blobs d @ map (\<lambda>b. b\<lparr>b_thread_id := dst\<rparr>) (filter (\<lambda>b. b_thread_id b = src) (blobs d)),
     writes := writes d @ map (\<lambda>x. x\<lparr>w_thread_id := dst\<rparr>) (filter (\<lambda>x. w_thread_id x = src) (writes d))\<rparr>"

lemma fresh_all: "(\<And>r. r \<in> set rows \<Longrightarrow> key r \<notin> key ` set tbl) \<Longrightarrow> fresh_rows key rows tbl = rows"
  by (auto simp: fresh_rows_def filter_id_conv)

lemma copy_checkpoints_run:
  assumes "has_thread d dst" and "dst \<notin> c_thread_id ` set (checkpoints d)"
    and "\<And>c. c \<in> set (checkpoints d) \<Longrightarrow> c_thread_id c = src \<Longrightarrow> \<exists>m. c_metadata c = JObj m"
  shows "copy_checkpoints src dst d = Inr ((), d\<lparr>checkpoints := checkpoints (copied_db src dst d)\<rparr>)"
proof -
  have "res_map (copy_checkpoint_row dst) (filter (\<lambda>c. c_thread_id c = src) (checkpoints d)) =
      Inr (map (moved dst) (filter (\<lambda>c. c_thread_id c = src) (checkpoints d)))"
    using assms(3) by (intro res_map_total) (auto simp: copy_checkpoint_row_def moved_def dest!: assms(3))
  moreover have "fresh_rows cp_key (map (moved dst) (filter (\<lambda>c. c_thread_id c = src) (checkpoints d))) (checkpoints d) =
      map (moved dst) (filter (\<lambda>c. c_thread_id c = src) (checkpoints d))"
    using assms(2) by (intro fresh_all) (auto simp: cp_key_def)
  ultimately show ?thesis
    using assms(1) by (simp add: copy_checkpoints_def copied_db_def)
qed

lemma copy_blobs_run:
  assumes "has_thread d dst" and "dst \<notin> b_thread_id ` set (blobs d)"
  shows "copy_blobs src dst d = Inr ((), d\<lparr>blobs := blobs (copied_db src dst d)\<rparr>)"
proof -
  have "fresh_rows blob_key (map (\<lambda>b. b\<lparr>b_thread_id := dst\<rparr>) (filter (\<lambda>b. b_thread_id b = src) (blobs d))) (blobs d) =
      map (\<lambda>b. b\<lparr>b_thread_id := dst\<rparr>) (filter (\<lambda>b. b_thread_id b = src) (blobs d))"
    using assms(2) by (intro fresh_all) (auto simp: blob_key_def)
  then show ?thesis using assms(1) by (simp add: copy_blobs_def copied_db_def Let_def)
qed

lemma copy_writes_run:
  assumes "has_thread d dst" and "dst \<notin> w_thread_id ` set (writes d)"
  shows "copy_writes src dst d = Inr ((), d\<lparr>writes := writes (copied_db src dst d)\<rparr>)"
proof -
  have "fresh_rows write_key (map (\<lambda>x. x\<lparr>w_thread_id := dst\<rparr>) (filter (\<lambda>x. w_thread_id x = src) (writes d))) (writes d) =
      map (\<lambda>x. x\<lparr>w_thread_id := dst\<rparr>) (filter (\<lambda>x. w_thread_id x = src) (writes d))"
    using assms(2) by (intro fresh_all) (auto simp: write_key_def)
  then show ?thesis using assms(1) by (simp add: copy_writes_def copied_db_def Let_def)
qed

lemma copyThreadRows_run:
  assumes "faults w = []" and "pg_uuid E from = Some src" and "pg_uuid E to = Some dst" and "empty_thread dst (db w)"
    and "\<And>c. c \<in> set (checkpoints (db w)) \<Longrightarrow> c_thread_id c = src \<Longrightarrow> \<exists>m. c_metadata c = JObj m"
  obtains f where "same_tid f" and "copyThreadRows E from to w =
    (Inr (), w\<lparr>db := upd_threads (\<lambda>t. t_thread_id t = dst) f (copied_db src dst (db w))\<rparr>)"
proof -
  let ?d = "db w"
  let ?d1 = "?d\<lparr>checkpoints := checkpoints (copied_db src dst ?d)\<rparr>"
  let ?d2 = "?d1\<lparr>blobs := blobs (copied_db src dst ?d)\<rparr>"
  have e: "has_thread ?d dst" "dst \<notin> c_thread_id ` set (checkpoints ?d)" "dst \<notin> b_thread_id ` set (blobs ?d1)"
      "dst \<notin> w_thread_id ` set (writes ?d2)" "has_thread ?d1 dst" "has_thread ?d2 dst"
    using assms(4) by (simp_all add: empty_thread_def has_thread_def)
  have 1: "copy_checkpoints src dst ?d = Inr ((), ?d1)" by (rule copy_checkpoints_run[OF e(1,2) assms(5)])
  have 2: "copy_blobs src dst ?d1 = Inr ((), ?d2)"
    using copy_blobs_run[OF e(5,3)] by (simp add: copied_db_def)
  have 3: "copy_writes src dst ?d2 = Inr ((), ?d2\<lparr>writes := writes (copied_db src dst ?d)\<rparr>)"
    using copy_writes_run[OF e(6,4)] by (simp add: copied_db_def)
  have "?d2\<lparr>writes := writes (copied_db src dst ?d)\<rparr> = copied_db src dst ?d"
    by (simp add: copied_db_def)
  with 1 2 3 assms(1-3) have "copyThreadRows E from to w =
      (Inr (), w\<lparr>db := upd_threads (\<lambda>t. t_thread_id t = dst)
        (\<lambda>th. th\<lparr>t_state_updated_at := Some (now w), t_updated_at := now w\<rparr>) (copied_db src dst ?d)\<rparr>)"
    by (simp add: copyThreadRows_def Let_def bnd_def stmt_run bump_thread_def cast_uuid_def)
  then show thesis by (rule that[rotated]) (simp add: same_tid_def)
qed

lemma CopyThread_run:
  assumes "faults w = []" and "copyThreadRows E from to w = (Inr (), w\<lparr>db := d'\<rparr>)"
  shows "cp_CopyThread E from to w = (Inr (), w\<lparr>db := d'\<rparr>)"
  using assms by (simp add: cp_CopyThread_def in_tx_run bnd_def ret_def)

lemma filter_copied:
  assumes "empty_thread dst d" and "src \<noteq> dst"
  shows "filter (\<lambda>c. c_thread_id c = dst \<and> P (c_ns c) (c_id c)) (checkpoints (copied_db src dst d)) =
           map (moved dst) (filter (\<lambda>c. c_thread_id c = src \<and> P (c_ns c) (c_id c)) (checkpoints d))"
    and "map scan_blob (filter (\<lambda>b. b_thread_id b = dst \<and> b_ns b = ns) (blobs (copied_db src dst d))) =
           map scan_blob (filter (\<lambda>b. b_thread_id b = src \<and> b_ns b = ns) (blobs d))"
    and "filter (\<lambda>x. w_thread_id x = dst \<and> R (w_ns x) (w_checkpoint_id x) (w_channel x)) (writes (copied_db src dst d)) =
           map (\<lambda>x. x\<lparr>w_thread_id := dst\<rparr>) (filter (\<lambda>x. w_thread_id x = src \<and> R (w_ns x) (w_checkpoint_id x) (w_channel x)) (writes d))"
proof -
  have c: "filter (\<lambda>c. c_thread_id c = dst \<and> P (c_ns c) (c_id c)) cs = []" if "dst \<notin> c_thread_id ` set cs" for cs
    using that by (auto simp: filter_empty_conv)
  have sb: "scan_blob (b\<lparr>b_thread_id := dst\<rparr>) = scan_blob b" for b by (simp add: scan_blob_def)
  have b: "filter (\<lambda>b. b_ns b = ns \<and> b_thread_id b = dst) bs = []" if "dst \<notin> b_thread_id ` set bs" for bs
    using that by (auto simp: filter_empty_conv)
  have x: "filter (\<lambda>x. w_thread_id x = dst \<and> R (w_ns x) (w_checkpoint_id x) (w_channel x)) ws = []" if "dst \<notin> w_thread_id ` set ws" for ws
    using that by (auto simp: filter_empty_conv)
  show "filter (\<lambda>c. c_thread_id c = dst \<and> P (c_ns c) (c_id c)) (checkpoints (copied_db src dst d)) =
           map (moved dst) (filter (\<lambda>c. c_thread_id c = src \<and> P (c_ns c) (c_id c)) (checkpoints d))"
    using assms(1) by (simp add: copied_db_def c empty_thread_def filter_map comp_def conj_commute)
  show "map scan_blob (filter (\<lambda>b. b_thread_id b = dst \<and> b_ns b = ns) (blobs (copied_db src dst d))) =
           map scan_blob (filter (\<lambda>b. b_thread_id b = src \<and> b_ns b = ns) (blobs d))"
    using assms(1) by (simp add: copied_db_def b empty_thread_def filter_map comp_def conj_commute sb)
  show "filter (\<lambda>x. w_thread_id x = dst \<and> R (w_ns x) (w_checkpoint_id x) (w_channel x)) (writes (copied_db src dst d)) =
           map (\<lambda>x. x\<lparr>w_thread_id := dst\<rparr>) (filter (\<lambda>x. w_thread_id x = src \<and> R (w_ns x) (w_checkpoint_id x) (w_channel x)) (writes d))"
    using assms(1) by (simp add: copied_db_def x empty_thread_def filter_map comp_def conj_commute)
qed

text \<open>The columns of type \<^verbatim>\<open>uuid\<close> hold canonical texts, which the database reads back as the same id.\<close>

definition cp_typed :: "env \<Rightarrow> db \<Rightarrow> bool" where
  "cp_typed E d = (\<forall>c \<in> set (checkpoints d). pg_uuid E (c_thread_id c) = Some (c_thread_id c) \<and>
     pg_uuid E (c_id c) = Some (c_id c) \<and> (\<forall>p \<in> set_option (c_parent_id c). pg_uuid E p = Some p))"

text \<open>What is loaded for a checkpoint.\<close>

definition blobs_of :: "uuid \<Rightarrow> string \<Rightarrow> db \<Rightarrow> BlobRow list" where
  "blobs_of t ns d = map scan_blob (filter (\<lambda>b. b_thread_id b = t \<and> b_ns b = ns) (blobs d))"

definition writes_of :: "uuid \<Rightarrow> string \<Rightarrow> uuid \<Rightarrow> db \<Rightarrow> WriteRow list" where
  "writes_of t ns c d = map scan_write (sort_key by_task (filter (\<lambda>x. w_thread_id x = t \<and> w_ns x = ns \<and> w_checkpoint_id x = c) (writes d)))"

definition sends_of :: "uuid \<Rightarrow> string \<Rightarrow> string \<Rightarrow> db \<Rightarrow> SendRow list" where
  "sends_of t ns p d = (if p = [] then [] else map (\<lambda>x. \<lparr>sr_Encoding = w_type x, sr_Blob = w_blob x\<rparr>)
     (sort_key by_task (filter (\<lambda>x. w_thread_id x = t \<and> w_ns x = ns \<and> w_checkpoint_id x = p \<and> w_channel x = tasksChannelConst) (writes d))))"

definition loaded :: "env \<Rightarrow> checkpoint_row \<Rightarrow> db \<Rightarrow> CheckpointRow" where
  "loaded E c d = (scan_checkpoint E c)\<lparr>cr_Blobs := blobs_of (c_thread_id c) (c_ns c) d,
     cr_Writes := writes_of (c_thread_id c) (c_ns c) (c_id c) d,
     cr_PendingSends := sends_of (c_thread_id c) (c_ns c) (uuid_or_empty (c_parent_id c)) d\<rparr>"

lemma load_run:
  assumes "faults w = []" and "cp_typed E (db w)" and "c \<in> set (checkpoints (db w))"
  shows "loadBlobsAndWrites E (scan_checkpoint E c) w = (Inr (loaded E c (db w)), w)"
proof -
  have ids: "pg_uuid E (c_thread_id c) = Some (c_thread_id c)" "pg_uuid E (c_id c) = Some (c_id c)"
    "uuid_or_empty (c_parent_id c) = [] \<or> pg_uuid E (uuid_or_empty (c_parent_id c)) = Some (uuid_or_empty (c_parent_id c))"
    using assms(2,3) by (auto simp: cp_typed_def uuid_or_empty_def split: option.splits)
  show ?thesis
  proof (cases "uuid_or_empty (c_parent_id c) = []")
    case True
    with ids assms(1) show ?thesis
      by (simp add: loadBlobsAndWrites_def scan_checkpoint_def loaded_def bnd_def query_run cast_uuid_def ret_def
          blobs_of_def writes_of_def sends_of_def)
  next
    case False
    with ids assms(1) show ?thesis
      by (simp add: loadBlobsAndWrites_def scan_checkpoint_def loaded_def bnd_def query_run cast_uuid_def ret_def
          blobs_of_def writes_of_def sends_of_def)
  qed
qed

text \<open>The checkpoint \<^verbatim>\<open>GetTuple\<close> selects, and the tuple it then reads.\<close>

definition selected :: "uuid \<Rightarrow> string \<Rightarrow> uuid option \<Rightarrow> db \<Rightarrow> checkpoint_row option" where
  "selected t ns cid d =
     (case (case cid of Some i \<Rightarrow> filter (\<lambda>c. c_thread_id c = t \<and> c_ns c = ns \<and> c_id c = i) (checkpoints d)
            | None \<Rightarrow> sort_desc c_id (filter (\<lambda>c. c_thread_id c = t \<and> c_ns c = ns) (checkpoints d))) of
        [] \<Rightarrow> None | c # _ \<Rightarrow> Some c)"

lemma GetTuple_run:
  assumes "faults w = []" and "cp_typed E (db w)" and "pg_uuid E s = Some t"
    and "cid = [] \<and> i = None \<or> cid \<noteq> [] \<and> (\<exists>u. pg_uuid E cid = Some u \<and> i = Some u)"
  shows "cp_GetTuple E s ns cid w = (Inr (map_option (\<lambda>c. loaded E c (db w)) (selected t ns i (db w))), w)"
proof (cases i)
  case None
  let ?cs = "sort_desc c_id (filter (\<lambda>c. c_thread_id c = t \<and> c_ns c = ns) (checkpoints (db w)))"
  show ?thesis
  proof (cases ?cs)
    case Nil
    with None assms show ?thesis
      by (simp add: cp_GetTuple_def bnd_def query_run cast_uuid_def ret_def selected_def)
  next
    case (Cons c cs)
    have "c \<in> set ?cs" unfolding Cons by simp
    then have "c \<in> set (checkpoints (db w))" by simp
    with Cons None assms load_run[OF assms(1,2), of c] show ?thesis
      by (simp add: cp_GetTuple_def bnd_def query_run cast_uuid_def ret_def selected_def)
  qed
next
  case (Some u)
  let ?cs = "filter (\<lambda>c. c_thread_id c = t \<and> c_ns c = ns \<and> c_id c = u) (checkpoints (db w))"
  show ?thesis
  proof (cases ?cs)
    case Nil
    with Some assms show ?thesis
      by (auto simp: cp_GetTuple_def bnd_def query_run cast_uuid_def ret_def selected_def)
  next
    case (Cons c cs)
    have "c \<in> set ?cs" unfolding Cons by simp
    then have "c \<in> set (checkpoints (db w))" by simp
    with Cons Some assms load_run[OF assms(1,2), of c] show ?thesis
      by (auto simp: cp_GetTuple_def bnd_def query_run cast_uuid_def ret_def selected_def)
  qed
qed

lemma selected_copied:
  assumes "empty_thread dst d" and "src \<noteq> dst"
  shows "selected dst ns i (copied_db src dst d) = map_option (moved dst) (selected src ns i d)"
  using filter_copied(1)[OF assms, of "\<lambda>n c. n = ns"] filter_copied(1)[OF assms, of "\<lambda>n c. n = ns \<and> c = the i"]
  by (cases i) (simp_all add: selected_def sort_desc_map split: list.splits)

lemma loaded_copied:
  assumes "empty_thread dst d" and "src \<noteq> dst" and "c_thread_id c = src"
  shows "loaded E (moved dst c) (copied_db src dst d) =
     (loaded E c d)\<lparr>cr_ThreadID := dst, cr_MetadataJSON := pg_text E (c_metadata (moved dst c))\<rparr>"
proof -
  have sw: "scan_write (x\<lparr>w_thread_id := dst\<rparr>) = scan_write x" "by_task (x\<lparr>w_thread_id := dst\<rparr>) = by_task x" for x
    by (simp_all add: scan_write_def by_task_def)
  have "blobs_of dst ns (copied_db src dst d) = blobs_of src ns d" for ns
    using filter_copied(2)[OF assms(1,2)] by (simp add: blobs_of_def)
  moreover have "writes_of dst ns i (copied_db src dst d) = writes_of src ns i d" for ns i
    using filter_copied(3)[OF assms(1,2), of "\<lambda>n k ch. n = ns \<and> k = i"] by (simp add: writes_of_def sort_key_map sw comp_def)
  moreover have "sends_of dst ns p (copied_db src dst d) = sends_of src ns p d" for ns p
    using filter_copied(3)[OF assms(1,2), of "\<lambda>n k ch. n = ns \<and> k = p \<and> ch = tasksChannelConst"]
    by (simp add: sends_of_def sort_key_map sw comp_def)
  ultimately show ?thesis
    by (simp add: loaded_def scan_checkpoint_def assms(3))
qed

lemma cp_typed_copied:
  "cp_typed E d \<Longrightarrow> pg_uuid E dst = Some dst \<Longrightarrow> cp_typed E (copied_db src dst d)"
  by (auto simp: cp_typed_def copied_db_def)

lemma loaded_upd_threads [simp]: "loaded E c (upd_threads P f d) = loaded E c d"
  by (simp add: loaded_def blobs_of_def writes_of_def sends_of_def)

lemma selected_upd_threads [simp]: "selected t ns i (upd_threads P f d) = selected t ns i d"
  by (simp add: selected_def cong: option.case_cong)

lemma selected_thread: "selected t ns i d = Some c \<Longrightarrow> c_thread_id c = t \<and> c_ns c = ns \<and> c \<in> set (checkpoints d)"
proof -
  assume sel: "selected t ns i d = Some c"
  define cs where "cs = (case i of Some i \<Rightarrow> filter (\<lambda>c. c_thread_id c = t \<and> c_ns c = ns \<and> c_id c = i) (checkpoints d)
            | None \<Rightarrow> sort_desc c_id (filter (\<lambda>c. c_thread_id c = t \<and> c_ns c = ns) (checkpoints d)))"
  from sel have "c \<in> set cs" by (auto simp: selected_def cs_def[symmetric] split: list.splits)
  then show ?thesis by (auto simp: cs_def split: option.splits)
qed



end
