(* ===== verification/Threads_Copy.thy ===== *)
theory Threads_Copy
  imports Threads_Service Checkpoint_Correct Runs_Signals
begin

text \<open>
  Where the thread service meets the checkpointer, and what its streams deliver. \<open>thread_copier\<close> is the contract of the interface
  \<^verbatim>\<open>CheckpointerCopier\<close>; the checkpoint store meets it, and \<^verbatim>\<open>Threads.Copy\<close> rests on it.
\<close>

section \<open>The new row\<close>

lemma copy_thread_Inr:
  assumes "copy_thread gen t srcs d = Inr (x # xs, d')"
  shows "\<exists>src \<in> set srcs. gen \<notin> t_thread_id ` set (threads d) \<and> x = threadCols (new_thread gen (t_metadata src) empty_obj None t) \<and>
    d' = d\<lparr>threads := threads d @ [new_thread gen (t_metadata src) empty_obj None t]\<rparr>"
  using assms by (cases srcs) (auto simp: copy_thread_def list_ex_iff Let_def split: if_splits)

lemma copyRow_Inr:
  assumes "copyRow E gen s fs w = (Inr th, w')"
  shows "\<exists>src \<in> set (threads (db w)). gen \<notin> t_thread_id ` set (threads (db w)) \<and>
    th = threadCols (new_thread gen (t_metadata src) empty_obj None (now w)) \<and>
    db w' = (db w)\<lparr>threads := threads (db w) @ [new_thread gen (t_metadata src) empty_obj None (now w)]\<rparr>"
  using assms by (auto simp: copyRow_def res_iff split: prod.splits dest!: copy_thread_Inr)

section \<open>The interface to the checkpointer\<close>

text \<open>A copier adds rows under the new thread; it neither adds nor removes threads or runs.\<close>

locale thread_copier =
  fixes copier :: "string \<Rightarrow> string \<Rightarrow> unit op"
  assumes sound: "keeps db_ok (copier a b)"
    and frame: "keeps (\<lambda>d. map t_thread_id (threads d) = ids \<and> runs d = rs \<and> assistants d = as \<and> crons d = cs) (copier a b)"
begin

lemma keeps_wrapped: "keeps I (copier a b) \<Longrightarrow> keeps I (wrapped msg (copier a b))"
  by (auto simp: keeps_def wrapped_def split: prod.splits sum.splits)

lemma copy_tx_sound: "keeps db_ok (copy_tx E copier gen s fs)"
  unfolding copy_tx_def thread_CopyTx_def
  by (intro keeps_intro thread_integrity.keeps_copyRow keeps_wrapped sound)

text \<open>A copy that succeeds has added the one thread it returns.\<close>

lemma copy_tx_Inr:
  assumes "copy_tx E copier gen s fs w = (Inr th, w')"
  shows "ThreadID th = gen \<and> gen \<notin> t_thread_id ` set (threads (db w)) \<and>
    map t_thread_id (threads (db w')) = map t_thread_id (threads (db w)) @ [gen] \<and>
    runs (db w') = runs (db w) \<and> assistants (db w') = assistants (db w) \<and> crons (db w') = crons (db w)"
proof -
  from assms obtain w1 w2 where 1: "copyRow E gen s fs (after w) = (Inr th, w1)"
      and 2: "wrapped ''copy checkpoints'' (copier s (ThreadID th)) w1 = (Inr (), w2)" and 3: "db w' = db w2"
    by (auto simp: copy_tx_def thread_CopyTx_def res_iff)
  from copyRow_Inr[OF 1] obtain t where row: "gen \<notin> t_thread_id ` set (threads (db w))" "ThreadID th = gen"
      "db w1 = (db w)\<lparr>threads := threads (db w) @ [t]\<rparr>" "t_thread_id t = gen"
    by (auto simp: threadCols_def new_thread_def)
  have "copier s (ThreadID th) w1 = (Inr (), w2)" using 2 by (auto simp: wrapped_def split: prod.splits sum.splits)
  from keepsD[OF frame _ this] have "map t_thread_id (threads (db w2)) = map t_thread_id (threads (db w1)) \<and>
      runs (db w2) = runs (db w1) \<and> assistants (db w2) = assistants (db w1) \<and> crons (db w2) = crons (db w1)"
    by blast
  with row 3 show ?thesis by simp
qed

end

interpretation cp_frame: checkpoint_ops
    "\<lambda>d. map t_thread_id (threads d) = ids \<and> runs d = rs \<and> assistants d = as \<and> crons d = cs" for ids rs as cs
  by unfold_locales
    (auto simp: same_tid_def upsert_checkpoint_def insert_blob_def insert_write_def upsert_write_def copy_checkpoints_def
      copy_blobs_def copy_writes_def res_iff Let_def split: if_splits)

interpretation cp_copier: thread_copier "cp_CopyThreadTx E" for E
  unfolding cp_CopyThreadTx_def
  by unfold_locales (rule cp_integrity.keeps_copyThreadRows cp_frame.keeps_copyThreadRows)+

section \<open>Copying a thread\<close>

lemma copyRow_run:
  assumes "faults w = []" and "auth_ok E fs" and "pg_uuid E s = Some i" and "distinct (map t_thread_id (threads (db w)))"
    and "t \<in> set (threads (db w))" and "thread_sel E i fs t" and "gen \<notin> t_thread_id ` set (threads (db w))"
  shows "copyRow E gen s fs w = (Inr (threadCols (new_thread gen (t_metadata t) empty_obj None (now w))),
    w\<lparr>db := (db w)\<lparr>threads := threads (db w) @ [new_thread gen (t_metadata t) empty_obj None (now w)]\<rparr>\<rparr>)"
proof -
  obtain fr args where q: "ApplyToQuery fs ''metadata'' 2 = Inr (fr, args)" "thread_where E s fr (s # args) = Inr (thread_sel E i fs)"
    using thread_where_obtain[OF assms(2,3)] .
  have one: "x = t" if "x \<in> set (filter (thread_sel E i fs) (threads (db w)))" for x
    using that assms(4-6) by (auto simp: thread_sel_def intro: distinct_key_unique)
  obtain y ys where y: "filter (thread_sel E i fs) (threads (db w)) = y # ys"
    using assms(5,6) by (metis filter_empty_conv neq_Nil_conv)
  with one[of y] have "y = t" by simp
  have "\<not> list_ex (\<lambda>x. t_thread_id x = gen) (threads (db w))"
    using assms(7) by (auto simp: list_ex_iff)
  with q y \<open>y = t\<close> assms(1) show ?thesis
    by (simp add: copyRow_def bnd_def stmt_run copy_thread_def Let_def first_row_def ret_def)
qed

lemma new_thread_empty:
  assumes "db_ok d" and "gen \<notin> t_thread_id ` set (threads d)" and "t_thread_id nt = gen"
  shows "empty_thread gen (d\<lparr>threads := threads d @ [nt]\<rparr>)"
  using assms unfolding empty_thread_def has_thread_def db_ok_def refs_ok_def by auto

lemma copy_tx_run:
  assumes w: "faults w = []" and "auth_ok E fs" and "pg_uuid E s = Some src" and ok: "db_ok (db w)"
    and "t \<in> set (threads (db w))" and "thread_sel E src fs t" and gen: "gen \<notin> t_thread_id ` set (threads (db w))"
    and "pg_uuid E gen = Some gen"
    and "\<And>c. c \<in> set (checkpoints (db w)) \<Longrightarrow> c_thread_id c = src \<Longrightarrow> \<exists>m. c_metadata c = JObj m"
  obtains nt f d where "nt = new_thread gen (t_metadata t) empty_obj None (now w)" "d = (db w)\<lparr>threads := threads (db w) @ [nt]\<rparr>"
    "same_tid f" "empty_thread gen d"
    "copy_tx E (cp_CopyThreadTx E) gen s fs w =
       (Inr (threadCols nt), w\<lparr>db := upd_threads (\<lambda>t. t_thread_id t = gen) f (copied_db src gen d)\<rparr>)"
proof -
  define nt where "nt = new_thread gen (t_metadata t) empty_obj None (now w)"
  define d where "d = (db w)\<lparr>threads := threads (db w) @ [nt]\<rparr>"
  have row: "copyRow E gen s fs w = (Inr (threadCols nt), w\<lparr>db := d\<rparr>)"
    unfolding nt_def d_def using ok by (intro copyRow_run[OF assms(1-3) _ assms(5-7)]) (simp add: db_ok_def keys_ok_def)
  have empty: "empty_thread gen d"
    unfolding d_def by (rule new_thread_empty[OF ok gen]) (simp add: nt_def new_thread_def)
  obtain f where f: "same_tid f" "copyThreadRows E s gen (w\<lparr>db := d\<rparr>) =
      (Inr (), (w\<lparr>db := d\<rparr>)\<lparr>db := upd_threads (\<lambda>t. t_thread_id t = gen) f (copied_db src gen (db (w\<lparr>db := d\<rparr>)))\<rparr>)"
    by (rule copyThreadRows_run[of "w\<lparr>db := d\<rparr>" E s src gen gen]) (use assms empty in \<open>auto simp: d_def\<close>)
  have id: "ThreadID (threadCols nt) = gen" by (simp add: threadCols_def nt_def new_thread_def)
  have run: "copy_tx E (cp_CopyThreadTx E) gen s fs w =
       (Inr (threadCols nt), w\<lparr>db := upd_threads (\<lambda>t. t_thread_id t = gen) f (copied_db src gen d)\<rparr>)"
    using w row f(2) by (simp add: copy_tx_def thread_CopyTx_def in_tx_run bnd_def id cp_CopyThreadTx_def wrapped_def ret_def)
  show thesis by (rule that[OF nt_def d_def f(1) empty run])
qed



section \<open>The event stream of a thread\<close>

text \<open>
  A stream of Redis is a log that only grows, its ids ascending in an order \<open>lt\<close>; \<^verbatim>\<open>XREAD\<close> answers with at most \<open>count\<close>
  entries after the cursor, or with nil when there are none before the block time is over.
\<close>

definition later :: "(string \<Rightarrow> string \<Rightarrow> bool) \<Rightarrow> string \<Rightarrow> stream_entry list \<Rightarrow> stream_entry list" where
  "later lt c evs = filter (\<lambda>e. lt c (en_ID e)) evs"

definition reads_log :: "(string \<Rightarrow> string \<Rightarrow> bool) \<Rightarrow> string \<Rightarrow> stream_entry list \<Rightarrow> th_round \<Rightarrow> bool" where
  "reads_log lt key evs rd \<longleftrightarrow> (\<forall>c n blk. (\<exists>e. rd_reply rd key c n blk = RedisErr e) \<or>
     (\<exists>seen. prefix seen evs \<and> (rd_reply rd key c n blk = Reply [take (nat n) (later lt c seen)] \<or>
        later lt c seen = [] \<and> rd_reply rd key c n blk = RedisNil)))"

definition ascending :: "(string \<Rightarrow> string \<Rightarrow> bool) \<Rightarrow> stream_entry list \<Rightarrow> bool" where
  "ascending lt evs \<longleftrightarrow> transp lt \<and> asymp lt \<and> sorted_wrt (\<lambda>a b. lt (en_ID a) (en_ID b)) evs"

lemma later_sorted: "ascending lt evs \<Longrightarrow> sorted_wrt (\<lambda>a b. lt (en_ID a) (en_ID b)) (later lt c evs)"
  by (auto simp: ascending_def later_def intro: sorted_wrt_filter)

lemma prefix_later: "prefix seen evs \<Longrightarrow> prefix (later lt c seen) (later lt c evs)"
  by (auto simp: prefix_def later_def)

text \<open>After a batch, what is left is what the batch did not contain.\<close>

lemma later_last:
  assumes "ascending lt evs" and "later lt c evs = es @ rest" and "es \<noteq> []"
  shows "later lt (en_ID (last es)) evs = rest"
proof -
  let ?x = "en_ID (last es)"
  have lt: "transp lt" "asymp lt" using assms(1) by (auto simp: ascending_def)
  have es: "es = butlast es @ [last es]" using assms(3) by simp
  have sorted: "sorted_wrt (\<lambda>a b. lt (en_ID a) (en_ID b)) (es @ rest)"
    using later_sorted[OF assms(1), of c] assms(2) by simp
  have cx: "lt c ?x"
  proof -
    have "last es \<in> set (later lt c evs)" using assms(2,3) by simp
    then show ?thesis by (simp add: later_def)
  qed
  have "later lt ?x evs = filter (\<lambda>e. lt ?x (en_ID e)) (later lt c evs)"
    unfolding later_def filter_filter
    by (rule filter_cong) (use transpD[OF lt(1) cx] in auto)
  also have "\<dots> = filter (\<lambda>e. lt ?x (en_ID e)) es @ filter (\<lambda>e. lt ?x (en_ID e)) rest"
    by (simp add: assms(2))
  also have "filter (\<lambda>e. lt ?x (en_ID e)) rest = rest"
    using sorted assms(3) by (auto simp: sorted_wrt_append filter_id_conv)
  also have "filter (\<lambda>e. lt ?x (en_ID e)) es = []"
  proof -
    have "\<not> lt ?x (en_ID e)" if "e \<in> set es" for e
    proof (cases "e = last es")
      case True
      with lt(2) show ?thesis by (auto dest: asympD)
    next
      case False
      with that have "e \<in> set (butlast es)" by (metis es Un_iff empty_iff insert_iff list.set set_append)
      moreover have "sorted_wrt (\<lambda>a b. lt (en_ID a) (en_ID b)) (butlast es @ [last es])"
        using sorted es by (metis sorted_wrt_append)
      ultimately have "lt (en_ID e) ?x" by (simp add: sorted_wrt_append)
      with lt(2) show ?thesis by (auto dest: asympD)
    qed
    then show ?thesis by (auto simp: filter_empty_conv)
  qed
  finally show ?thesis by simp
qed

lemma take_prefix: "prefix xs ys \<Longrightarrow> \<exists>k. take n xs = take k ys"
proof -
  assume "prefix xs ys"
  then have "take n xs = take (min n (length xs)) ys" by (auto simp: prefix_def min_def)
  then show ?thesis by blast
qed

lemma read_batch_log:
  assumes "reads_log lt key evs rd" and "XReadFrom (rd_reply rd key c n blk) = Inr entries"
  obtains k where "entries = take k (later lt c evs)"
proof -
  from assms obtain seen where "prefix seen evs" "entries = take (nat n) (later lt c seen) \<or> entries = []"
    unfolding reads_log_def by (elim allE[of _ c] allE[of _ n] allE[of _ blk]) (auto simp: XReadFrom_def)
  with take_prefix[OF prefix_later[of seen evs lt c]] that show thesis by (metis take0)
qed

lemma thread_stream_loop_log:
  assumes "ascending lt evs" and "\<forall>rd \<in> set rds. reads_log lt key evs rd"
  shows "\<exists>k. fst (thread_stream_loop key n blk rds c sent) = sent @ map thread_event (take k (later lt c evs))"
  using assms(2)
proof (induction rds arbitrary: c sent)
  case Nil
  then show ?case by (auto intro!: exI[of _ 0])
next
  case (Cons rd rds)
  show ?case
  proof (cases "rd_done rd \<or> isl (XReadFrom (rd_reply rd key c n blk))")
    case True
    then show ?thesis by (auto simp: isl_def intro!: exI[of _ 0])
  next
    case False
    then obtain entries where go: "\<not> rd_done rd" "XReadFrom (rd_reply rd key c n blk) = Inr entries"
      by (auto simp: not_isl)
    obtain k where k: "entries = take k (later lt c evs)"
      using read_batch_log[OF _ go(2)] Cons.prems by (auto elim: read_batch_log)
    show ?thesis
    proof (cases "rd_sends rd < length entries")
      case True
      with go k show ?thesis by (auto simp: intro!: exI[of _ "min (rd_sends rd) k"])
    next
      case False
      let ?c = "if entries = [] then c else en_ID (last entries)"
      have rest: "later lt ?c evs = drop (length entries) (later lt c evs)"
        using later_last[OF assms(1), of c entries "drop k (later lt c evs)"] k by (auto simp: min_def)
      obtain j where j: "fst (thread_stream_loop key n blk rds ?c (sent @ map thread_event entries)) =
          (sent @ map thread_event entries) @ map thread_event (take j (later lt ?c evs))"
        using Cons.IH[of ?c "sent @ map thread_event entries"] Cons.prems by auto
      have "take (length entries) (later lt c evs) = entries" using k by (simp add: min_def)
      then have "take (length entries + j) (later lt c evs) = entries @ take j (later lt ?c evs)"
        unfolding rest take_add by simp
      with j go False show ?thesis by (intro exI[of _ "length entries + j"]) simp
    qed
  qed
qed

text \<open>
  The event stream of a thread has no gaps and no repetitions. A client that opens the stream after the event it saw last gets the
  following entries of the log, in their order, each once, however the reads are cut into batches, whatever is appended meanwhile and wherever
  the stream breaks off; so resuming with the id of the last event received continues exactly there. A
  client that may not see the thread gets nothing.
\<close>

theorem thread_stream_in_order:
  assumes "ascending lt evs" and "go_uuid E threadId = Some u"
    and "\<forall>rd \<in> set rounds. reads_log lt (ThreadStreamKey u) evs rd"
    and "threads_svc_Stream E S threadId filters lastEventId rounds w = ((sent, r), w')"
  shows "(\<exists>k. sent = map thread_event (take k (later lt (first_cursor lastEventId) evs))) \<and>
    (fst (ThreadExistsAndAuth E threadId filters w) \<noteq> Inr () \<longrightarrow> sent = [])"
proof -
  note loop = thread_stream_loop_log[OF assms(1,3), of "replay_batch S" "read_block_ms S" "first_cursor lastEventId" "[]"]
  show ?thesis
  proof (cases "\<not> sv_streamer S \<or> fst (ThreadExistsAndAuth E threadId filters w) \<noteq> Inr ()")
    case True
    then have "sent = []"
      using assms(2,4) by (auto simp: threads_svc_Stream_def split: prod.splits sum.splits if_splits)
    then show ?thesis by (auto intro!: exI[of _ 0])
  next
    case False
    then have "sent = fst (thread_stream_loop (ThreadStreamKey u) (replay_batch S) (read_block_ms S) rounds (first_cursor lastEventId) [])"
      using assms(2,4) by (auto simp: threads_svc_Stream_def split: prod.splits)
    with loop False show ?thesis by auto
  qed
qed

definition sample_log :: "stream_entry list" where
  "sample_log = [\<lparr>en_ID = ''1-0'', en_Fields = []\<rparr>, \<lparr>en_ID = ''2-0'', en_Fields = []\<rparr>, \<lparr>en_ID = ''3-0'', en_Fields = []\<rparr>]"

definition sample_round :: "th_round" where
  "sample_round = \<lparr>rd_done = False, rd_reply = (\<lambda>key c n blk. Reply [take (nat n) (later (<) c sample_log)]),
     rd_cancelled = False, rd_sends = 1\<rparr>"

theorem thread_stream_in_order_witness:
  "fst (threads_svc_Stream sample_env (sample_svc\<lparr>sv_cfg := None\<rparr>) ''t1'' [] (Some ''1-0'') [sample_round] sample_world) =
     (map thread_event [sample_log ! 1], Some SendErr) \<and>
   (\<exists>k. map thread_event [sample_log ! 1] = map thread_event (take k (later (<) ''1-0'' sample_log)))"
proof -
  let ?r = "threads_svc_Stream sample_env (sample_svc\<lparr>sv_cfg := None\<rparr>) ''t1'' [] (Some ''1-0'') [sample_round] sample_world"
  have asc: "ascending (<) sample_log"
    by (auto simp: ascending_def sample_log_def)
  have rd: "\<forall>rd \<in> set [sample_round]. reads_log (<) (ThreadStreamKey ''t1'') sample_log rd"
    by (auto simp: reads_log_def sample_round_def)
  have run: "?r = ((map thread_event [sample_log ! 1], Some SendErr), snd ?r)"
    by (rule prod_eqI) (simp, code_simp, simp)
  have "go_uuid sample_env ''t1'' = Some ''t1''" by (simp add: sample_env_def)
  from thread_stream_in_order[OF asc this rd run]
  have "\<exists>k. map thread_event [sample_log ! 1] = map thread_event (take k (later (<) ''1-0'' sample_log))"
    by (simp add: first_cursor_def)
  with run show ?thesis by (metis fst_conv)
qed

end
