(* ===== verification/Checkpoint_Roundtrip.thy ===== *)
theory Checkpoint_Roundtrip
  imports Checkpoint_Correct Runs_Signals
begin

text \<open>
  What is put is what is read. The checkpoint and its metadata travel as JSON documents through \<^verbatim>\<open>encoding/json\<close> and a
  \<^verbatim>\<open>jsonb\<close> column; the channel values travel as blobs keyed by their version. \<open>carried\<close> states what the two codecs
  are relied on for: a document comes back with the same meaning (\<open>jeq\<close>: the order of keys may change).
\<close>

section \<open>Documents up to the order of keys\<close>

inductive jeq :: "json \<Rightarrow> json \<Rightarrow> bool" where
  jeq_null: "jeq JNull JNull"
| jeq_bool: "jeq (JBool b) (JBool b)"
| jeq_num: "jeq (JNum r) (JNum r)"
| jeq_str: "jeq (JStr s) (JStr s)"
| jeq_arr: "list_all2 jeq xs ys \<Longrightarrow> jeq (JArr xs) (JArr ys)"
| jeq_obj: "(\<And>k. (map_of a k = None \<and> map_of b k = None) \<or>
      (\<exists>x y. map_of a k = Some x \<and> map_of b k = Some y \<and> jeq x y)) \<Longrightarrow> jeq (JObj a) (JObj b)"

inductive_simps jeq_simps:
  "jeq JNull j" "jeq (JNum r) j" "jeq (JStr s) j" "jeq (JArr xs) j" "jeq (JObj a) j"

definition carried :: "env \<Rightarrow> json \<Rightarrow> bool" where
  "carried E j \<longleftrightarrow> (\<exists>j1 j2. pg_jsonb E (go_marshal E j) = Some j1 \<and> go_json E (pg_text E j1) = Some j2 \<and> jeq j j2)"

text \<open>What the lookups of an object become.\<close>

lemma jeq_lookup:
  assumes "jeq (JObj a) (JObj b)" and "map_of a k = Some x"
  obtains y where "map_of b k = Some y" and "jeq x y"
  using assms by (auto simp: jeq_simps dest: spec[of _ k])

lemma jeq_absent: "jeq (JObj a) (JObj b) \<Longrightarrow> map_of a k = None \<Longrightarrow> map_of b k = None"
  by (auto simp: jeq_simps dest: spec[of _ k])

lemma jeq_strs: "list_all2 jeq (map JStr xs) ys \<Longrightarrow> ys = map JStr xs"
  by (induction xs arbitrary: ys) (auto simp: list_all2_Cons1 jeq_simps)

section \<open>Reading documents\<close>

lemma map_of_concat_keys:
  "distinct ks \<Longrightarrow> map_of (concat (map (\<lambda>k. case g k of Some x \<Rightarrow> [(k, x)] | None \<Rightarrow> []) ks)) k =
     (if k \<in> set ks then g k else None)"
  by (induction ks) (auto split: option.splits)

lemma map_of_obj_entries: "map_of (obj_entries f kvs) k = Option.bind (map_of kvs k) f"
proof -
  have "map_of kvs k = None" if "k \<notin> fst ` set kvs"
    using that by (simp add: map_of_eq_None_iff)
  then show ?thesis
    by (simp add: obj_entries_def map_of_concat_keys)
qed

lemma map_of_str_obj: "map_of (map (\<lambda>(k, v). (k, JStr v)) m) k = map_option JStr (map_of m k)"
  by (induction m) auto

lemma jeq_str_obj:
  assumes "jeq (str_obj m) j"
  obtains kvs where "j = JObj kvs" and "map_of (obj_entries j_str kvs) = map_of m"
proof -
  from assms obtain kvs where j: "j = JObj kvs" and eq: "jeq (JObj (map (\<lambda>(k, v). (k, JStr v)) m)) (JObj kvs)"
    by (auto simp: str_obj_def jeq_simps)
  have "map_of (obj_entries j_str kvs) k = map_of m k" for k
  proof (cases "map_of m k")
    case None
    then have "map_of kvs k = None" using jeq_absent[OF eq] by (simp add: map_of_str_obj)
    with None show ?thesis by (simp add: map_of_obj_entries)
  next
    case (Some s)
    then obtain y where "map_of kvs k = Some y" "jeq (JStr s) y"
      using jeq_lookup[OF eq, of k "JStr s"] by (auto simp: map_of_str_obj)
    with Some show ?thesis by (simp add: map_of_obj_entries jeq_simps)
  qed
  with j that show thesis by blast
qed

text \<open>A checkpoint read from its document.\<close>

definition same_checkpoint :: "Checkpoint \<Rightarrow> Checkpoint \<Rightarrow> bool" where
  "same_checkpoint a b \<longleftrightarrow>
     ck_V b = ck_V a \<and> ck_Id b = ck_Id a \<and> ck_Ts b = ck_Ts a \<and> ck_UpdatedChannels b = ck_UpdatedChannels a \<and>
     map_of (ck_ChannelVersions b) = map_of (ck_ChannelVersions a) \<and>
     (\<forall>n. rel_option (\<lambda>x y. map_of y = map_of x) (map_of (ck_VersionsSeen a) n) (map_of (ck_VersionsSeen b) n))"

lemma to_uint64_nat: "v < 2 ^ 64 \<Longrightarrow> to_uint64 G (of_nat v) = v"
proof -
  assume "v < 2 ^ 64"
  then have "(of_nat v :: rat) < of_nat (2 ^ 64)" by (simp only: of_nat_less_iff)
  then have "(of_nat v :: rat) < 2 ^ 64" by simp
  then show ?thesis
    by (simp add: to_uint64_def trunc_def order_less_le_trans[of "-1" 0])
qed

lemma map_of_seen: "map_of (map (\<lambda>(n, m). (n, str_obj m)) vs) n = map_option str_obj (map_of vs n)"
  by (induction vs) auto

lemma seen_entries:
  assumes "jeq (JObj (map (\<lambda>(n, m). (n, str_obj m)) vs)) (JObj kvs)"
  shows "rel_option (\<lambda>x y. map_of y = map_of x) (map_of vs n) (map_of (obj_entries j_smap kvs) n)"
proof (cases "map_of vs n")
  case None
  then have "map_of kvs n = None" using jeq_absent[OF assms] by (simp add: map_of_seen)
  with None show ?thesis by (simp add: map_of_obj_entries)
next
  case (Some m)
  then obtain y where y: "map_of kvs n = Some y" "jeq (str_obj m) y"
    using jeq_lookup[OF assms, of n "str_obj m"] by (auto simp: map_of_seen)
  from y(2) obtain ks where "y = JObj ks" "map_of (obj_entries j_str ks) = map_of m" by (rule jeq_str_obj)
  with Some y(1) show ?thesis by (simp add: map_of_obj_entries)
qed

lemma map_filter_strs: "List.map_filter j_str (map JStr xs) = xs"
  by (induction xs) (simp_all add: List.map_filter_simps)

lemma checkpoint_of_json:
  assumes eq: "jeq (checkpoint_json cp) (JObj m)" and v: "ck_V cp < 2 ^ 64"
  shows "same_checkpoint cp (checkpoint_of G (ck_Id cp) m vals)"
proof -
  note look = jeq_lookup[OF eq[unfolded checkpoint_json_def]]
  have 1: "map_of m ''v'' = Some (JNum (of_nat (ck_V cp)))" by (rule look[of "''v''"]) (auto simp: jeq_simps)
  have 2: "map_of m ''ts'' = Some (JStr (ck_Ts cp))" by (rule look[of "''ts''"]) (auto simp: jeq_simps)
  obtain j3 where j3: "map_of m ''channel_versions'' = Some j3" "jeq (str_obj (ck_ChannelVersions cp)) j3"
    by (rule look[of "''channel_versions''"]) auto
  obtain k3 where 3: "j3 = JObj k3" "map_of (obj_entries j_str k3) = map_of (ck_ChannelVersions cp)"
    using j3(2) by (rule jeq_str_obj)
  obtain j4 where j4: "map_of m ''versions_seen'' = Some j4" "jeq (JObj (map (\<lambda>(n, m). (n, str_obj m)) (ck_VersionsSeen cp))) j4"
    by (rule look[of "''versions_seen''"]) auto
  then obtain k4 where 4: "j4 = JObj k4" by (auto simp: jeq_simps)
  obtain j5 where j5: "map_of m ''updated_channels'' = Some j5"
      "jeq (if ck_UpdatedChannels cp = [] then JNull else JArr (map JStr (ck_UpdatedChannels cp))) j5"
    by (rule look[of "''updated_channels''"]) auto
  then have 5: "j5 = (if ck_UpdatedChannels cp = [] then JNull else JArr (map JStr (ck_UpdatedChannels cp)))"
    by (auto simp: jeq_simps dest: jeq_strs split: if_splits)
  have seen: "rel_option (\<lambda>x y. map_of y = map_of x) (map_of (ck_VersionsSeen cp) n) (map_of (obj_entries j_smap k4) n)" for n
    using seen_entries j4(2) 4 by simp
  show ?thesis
    using 1 2 j3(1) 3 j4(1) 4 seen j5(1) 5 to_uint64_nat[OF v]
    by (simp add: same_checkpoint_def checkpoint_of_def map_filter_strs)
qed

section \<open>Metadata\<close>

definition same_metadata :: "CheckpointMetadata \<Rightarrow> CheckpointMetadata \<Rightarrow> bool" where
  "same_metadata a b \<longleftrightarrow> cm_Source b = cm_Source a \<and> cm_Step b = cm_Step a \<and>
     map_of (cm_Parents b) = map_of (cm_Parents a) \<and> str_of (cm_RunId b) = str_of (cm_RunId a)"

text \<open>Metadata the messages of the engine hold: a known source, a 32-bit step, no extra with the name of a field.\<close>

definition plain_metadata :: "CheckpointMetadata \<Rightarrow> bool" where
  "plain_metadata md \<longleftrightarrow> cm_Source md \<in> {0..4} \<and> cm_Step md \<in> {- (2 ^ 31)..<2 ^ 31} \<and>
     fst ` set (cm_Extras md) \<inter> {''source'', ''step'', ''parents'', ''run_id''} = {}"

lemma to_int32_int: "i \<in> {- (2 ^ 31)..<2 ^ 31} \<Longrightarrow> to_int32 G (of_int i) = i"
proof -
  assume i: "i \<in> {- (2 ^ 31)..<2 ^ 31}"
  then have "(of_int (- (2 ^ 31)) :: rat) \<le> of_int i" "(of_int i :: rat) < of_int (2 ^ 31)"
    by (simp_all only: of_int_le_iff of_int_less_iff atLeastLessThan_iff)
  then have "- (2 ^ 31) \<le> (of_int i :: rat)" "(of_int i :: rat) < 2 ^ 31" by simp_all
  then have "- (2 ^ 31) - 1 < (of_int i :: rat) \<and> (of_int i :: rat) < 2 ^ 31" by linarith
  then show ?thesis
    by (simp add: to_int32_def trunc_def flip: of_int_minus)
qed

lemma source_roundtrip:
  "s \<in> {0..4} \<Longrightarrow> sourceIntToString s = None \<and> s = 0 \<or> (\<exists>x. sourceIntToString s = Some x \<and> sourceStringToInt x = Some s)"
proof -
  assume "s \<in> {0..4}"
  then have "s \<in> {0, 1, 2, 3, 4}" by auto
  then show ?thesis by (auto simp: sourceIntToString_def sourceStringToInt_def)
qed

lemma metadata_lookups:
  assumes "fst ` set (cm_Extras md) \<inter> {''source'', ''step'', ''parents'', ''run_id''} = {}"
  obtains a where "metadata_json E md = JObj a" "map_of a ''step'' = Some (JNum (of_int (cm_Step md)))"
    "map_of a ''parents'' = Some (if cm_Parents md = [] then JNull else str_obj (cm_Parents md))"
    "map_of a ''source'' = map_option JStr (sourceIntToString (cm_Source md))"
    "map_of a ''run_id'' = (if str_of (cm_RunId md) = [] then None else Some (JStr (str_of (cm_RunId md))))"
proof
  let ?ex = "map (\<lambda>(k, v). (k, case go_json E v of Some j \<Rightarrow> j | None \<Rightarrow> JStr (base64 v))) (cm_Extras md)"
  have ex: "map_of ?ex k = None" if "k \<notin> fst ` set (cm_Extras md)" for k
  proof -
    have "fst ` set ?ex = fst ` set (cm_Extras md)" by (force simp: image_iff)
    with that show ?thesis unfolding map_of_eq_None_iff by simp
  qed
  have out: "''source'' \<notin> fst ` set (cm_Extras md)" "''step'' \<notin> fst ` set (cm_Extras md)"
      "''parents'' \<notin> fst ` set (cm_Extras md)" "''run_id'' \<notin> fst ` set (cm_Extras md)"
    using assms by (simp_all only: Int_insert_right Int_empty_right split: if_splits) simp_all
  note ex = out[THEN ex]
  let ?a = "obj_merge ([(''step'', JNum (of_int (cm_Step md))),
       (''parents'', if cm_Parents md = [] then JNull else str_obj (cm_Parents md))] @
      (case sourceIntToString (cm_Source md) of None \<Rightarrow> [] | Some s \<Rightarrow> [(''source'', JStr s)]) @
      (case cm_RunId md of None \<Rightarrow> [] | Some r \<Rightarrow> if r = [] then [] else [(''run_id'', JStr r)])) ?ex"
  show "metadata_json E md = JObj ?a" by (simp add: metadata_json_def)
  show "map_of ?a ''step'' = Some (JNum (of_int (cm_Step md)))"
    "map_of ?a ''parents'' = Some (if cm_Parents md = [] then JNull else str_obj (cm_Parents md))"
    "map_of ?a ''source'' = map_option JStr (sourceIntToString (cm_Source md))"
    "map_of ?a ''run_id'' = (if str_of (cm_RunId md) = [] then None else Some (JStr (str_of (cm_RunId md))))"
    by (simp_all add: ex str_of_def split: option.splits)
qed

lemma metadata_of_json:
  assumes eq: "jeq (metadata_json E md) (JObj m)" and plain: "plain_metadata md"
  shows "same_metadata md (metadata_of E G m)"
proof -
  obtain a where a: "metadata_json E md = JObj a" "map_of a ''step'' = Some (JNum (of_int (cm_Step md)))"
    "map_of a ''parents'' = Some (if cm_Parents md = [] then JNull else str_obj (cm_Parents md))"
    "map_of a ''source'' = map_option JStr (sourceIntToString (cm_Source md))"
    "map_of a ''run_id'' = (if str_of (cm_RunId md) = [] then None else Some (JStr (str_of (cm_RunId md))))"
  proof (rule metadata_lookups[of md E])
    show "fst ` set (cm_Extras md) \<inter> {''source'', ''step'', ''parents'', ''run_id''} = {}"
      using plain by (simp add: plain_metadata_def)
  qed
  have eq: "jeq (JObj a) (JObj m)" using eq a(1) by simp
  have step: "cm_Step (metadata_of E G m) = cm_Step md"
    by (rule jeq_lookup[OF eq a(2)]) (use plain in \<open>simp add: plain_metadata_def metadata_of_def jeq_simps to_int32_int\<close>)
  have parents: "map_of (cm_Parents (metadata_of E G m)) = map_of (cm_Parents md)"
  proof (rule jeq_lookup[OF eq a(3)])
    fix y assume y: "map_of m ''parents'' = Some y" "jeq (if cm_Parents md = [] then JNull else str_obj (cm_Parents md)) y"
    show ?thesis
    proof (cases "cm_Parents md = []")
      case True
      with y show ?thesis by (simp add: metadata_of_def jeq_simps)
    next
      case False
      with y(2) obtain kvs where "y = JObj kvs" "map_of (obj_entries j_str kvs) = map_of (cm_Parents md)"
        by (auto elim: jeq_str_obj)
      with y(1) show ?thesis by (simp add: metadata_of_def)
    qed
  qed
  have source: "cm_Source (metadata_of E G m) = cm_Source md"
  proof (cases "sourceIntToString (cm_Source md)")
    case None
    with source_roundtrip[of "cm_Source md"] plain have "cm_Source md = 0" by (auto simp: plain_metadata_def)
    with None jeq_absent[OF eq] a(4) show ?thesis by (simp add: metadata_of_def)
  next
    case (Some x)
    then have "sourceStringToInt x = Some (cm_Source md)"
      using source_roundtrip[of "cm_Source md"] plain by (auto simp: plain_metadata_def)
    moreover have "map_of m ''source'' = Some (JStr x)"
      by (rule jeq_lookup[OF eq, of "''source''" "JStr x"]) (use Some a(4) in \<open>simp_all add: jeq_simps\<close>)
    ultimately show ?thesis by (simp add: metadata_of_def)
  qed
  have "str_of (cm_RunId (metadata_of E G m)) = str_of (cm_RunId md)"
  proof (cases "str_of (cm_RunId md) = []")
    case True
    with a(5) jeq_absent[OF eq] show ?thesis by (simp add: metadata_of_def str_of_def)
  next
    case False
    have "map_of m ''run_id'' = Some (JStr (str_of (cm_RunId md)))"
      by (rule jeq_lookup[OF eq, of "''run_id''" "JStr (str_of (cm_RunId md))"]) (use False a(5) in \<open>simp_all add: jeq_simps\<close>)
    with False show ?thesis by (simp add: metadata_of_def str_of_def)
  qed
  with step parents source show ?thesis by (simp add: same_metadata_def)
qed

section \<open>Channel values\<close>

text \<open>Every stored value that is marked as an encoded message decodes.\<close>

definition decodes :: "pbenv \<Rightarrow> string \<Rightarrow> string \<Rightarrow> bool" where
  "decodes G enc blob \<longleftrightarrow> (enc = channelValueProtoEncoding \<longrightarrow> pb_unmarshal G blob \<noteq> None)"

definition decodable :: "pbenv \<Rightarrow> db \<Rightarrow> bool" where
  "decodable G d \<longleftrightarrow> (\<forall>b \<in> set (blobs d). decodes G (b_type b) (str_of (b_blob b))) \<and>
     (\<forall>x \<in> set (writes d). decodes G (w_type x) (w_blob x))"

lemma decode_total: "decodes G enc (str_of blob) \<Longrightarrow> \<exists>cv. decodeWriteValue G enc blob = Inr cv"
  by (auto simp: decodes_def decodeWriteValue_def of_opt_def split: option.splits)

lemma decode_some: "decodes G enc blob \<Longrightarrow> \<exists>cv. decodeWriteValue G enc (Some blob) = Inr cv"
  using decode_total[of G enc "Some blob"] by (simp add: str_of_def)

lemma map_of_mput [simp]: "map_of (mput k v m) j = (if j = k then Some v else map_of m j)"
  by (induction m) (auto simp: mput_def)

lemma channel_values_total:
  assumes "\<forall>b \<in> set bs. decodes G (br_Encoding b) (str_of (br_Blob b))"
  shows "\<exists>vals. channel_values G vers bs acc = Inr vals"
  using assms by (induction bs arbitrary: acc) (auto dest!: decode_total)

lemma channel_values_other:
  "channel_values G vers bs acc = Inr vals \<Longrightarrow> \<forall>b \<in> set bs. br_Channel b = ch \<longrightarrow> Some (br_Version b) \<noteq> map_of vers ch \<Longrightarrow>
     map_of vals ch = map_of acc ch"
  by (induction bs arbitrary: acc) (auto simp: rb_Inr split: if_splits)

lemma channel_values_mem:
  assumes "channel_values G vers bs acc = Inr vals" and "distinct (map (\<lambda>b. (br_Channel b, br_Version b)) bs)"
    and "b \<in> set bs" and "map_of vers (br_Channel b) = Some (br_Version b)"
    and "br_Encoding b \<noteq> ''empty''" and "br_Encoding b \<noteq> channelValueProtoEncoding"
  shows "map_of vals (br_Channel b) = Some (CVSerialized (br_Encoding b) (br_Blob b))"
  using assms
proof (induction bs arbitrary: acc)
  case (Cons a bs)
  show ?case
  proof (cases "a = b")
    case True
    with Cons.prems have vals: "channel_values G vers bs (mput (br_Channel b) (CVSerialized (br_Encoding b) (br_Blob b)) acc) = Inr vals"
      by (simp add: decodeWriteValue_def)
    have "\<forall>x \<in> set bs. br_Channel x = br_Channel b \<longrightarrow> Some (br_Version x) \<noteq> map_of vers (br_Channel b)"
      using Cons.prems(2,4) True by (auto simp: image_iff)
    from channel_values_other[OF vals this] show ?thesis by simp
  next
    case False
    with Cons.prems have "b \<in> set bs" by simp
    with Cons show ?thesis by (auto simp: rb_Inr split: if_splits)
  qed
qed simp

lemma pending_sends_total:
  "\<forall>s \<in> set ss. decodes G (sr_Encoding s) (sr_Blob s) \<Longrightarrow> \<exists>xs. pending_sends G ss = Inr xs"
  by (induction ss) (auto dest!: decode_some)

lemma pending_writes_total:
  "\<forall>x \<in> set xs. decodes G (wr_Encoding x) (wr_Blob x) \<Longrightarrow> \<exists>ws. pending_writes G xs = Inr ws"
  by (induction xs) (auto dest!: decode_some)

lemma loaded_decodes:
  assumes "decodable G d"
  shows "\<forall>b \<in> set (cr_Blobs (loaded E c d)). decodes G (br_Encoding b) (str_of (br_Blob b))"
    and "\<forall>s \<in> set (cr_PendingSends (loaded E c d)). decodes G (sr_Encoding s) (sr_Blob s)"
    and "\<forall>x \<in> set (cr_Writes (loaded E c d)). decodes G (wr_Encoding x) (wr_Blob x)"
  using assms by (auto simp: loaded_def blobs_of_def sends_of_def writes_of_def decodable_def scan_blob_def scan_write_def)

text \<open>A row whose documents decode to objects becomes a tuple.\<close>

lemma rowToTuple_total:
  assumes "decodable G d" and "go_json E (pg_text E (c_checkpoint c)) = Some (JObj m)"
    and "go_json E (pg_text E (c_metadata c)) = Some (JObj md)"
  obtains vals sends ws where
    "channel_values G (ck_ChannelVersions (checkpoint_of G [] m [])) (blobs_of (c_thread_id c) (c_ns c) d) [] = Inr vals"
    "rowToTuple E G (loaded E c d) = Inr \<lparr>tp_Config = id_config (c_thread_id c) (c_ns c) (c_id c),
       tp_Checkpoint = checkpoint_of G (c_id c) m (if sends = [] then vals else mput tasksChannelConst (CVSends sends) vals),
       tp_Metadata = metadata_of E G md,
       tp_ParentConfig = (if uuid_or_empty (c_parent_id c) = [] then None
         else Some (id_config (c_thread_id c) (c_ns c) (uuid_or_empty (c_parent_id c)))),
       tp_PendingWrites = ws\<rparr>"
proof -
  note dec = loaded_decodes[OF assms(1), of E c]
  obtain vals where v: "channel_values G (ck_ChannelVersions (checkpoint_of G [] m [])) (cr_Blobs (loaded E c d)) [] = Inr vals"
    using channel_values_total[OF dec(1)] by blast
  obtain sends where s: "pending_sends G (cr_PendingSends (loaded E c d)) = Inr sends"
    using pending_sends_total[OF dec(2)] by blast
  obtain ws where x: "pending_writes G (cr_Writes (loaded E c d)) = Inr ws"
    using pending_writes_total[OF dec(3)] by blast
  show thesis
    by (rule that[of vals sends ws]) (use v s x assms(2,3) in
      \<open>simp_all add: rowToTuple_def decode_map_def loaded_def scan_checkpoint_def Let_def\<close>)
qed

section \<open>What a put stores\<close>

definition blob_row_of :: "uuid \<Rightarrow> string \<Rightarrow> BlobInput \<Rightarrow> blob_row" where
  "blob_row_of tid ns b = \<lparr>b_thread_id = tid, b_ns = ns, b_channel = bi_Channel b, b_version = bi_Version b,
     b_type = bi_Encoding b, b_blob = bi_Blob b\<rparr>"

definition put_blob :: "blob_row \<Rightarrow> blob_row list \<Rightarrow> blob_row list" where
  "put_blob row bs = (if blob_key row \<in> blob_key ` set bs then bs else bs @ [row])"

lemma insert_blob_Inr:
  "insert_blob E s ns b d = Inr (u, d') \<Longrightarrow> d' = d\<lparr>blobs := put_blob (blob_row_of (the (pg_uuid E s)) ns b) (blobs d)\<rparr>"
  by (auto simp: insert_blob_def res_iff Let_def list_ex_key put_blob_def blob_row_of_def split: if_splits)

lemma Put_loop:
  "for_each (\<lambda>b. stmt (\<lambda>_ d. insert_blob E s ns b d)) bs w = (Inr u, w') \<Longrightarrow>
     db w' = (db w)\<lparr>blobs := fold put_blob (map (blob_row_of (the (pg_uuid E s)) ns) bs) (blobs (db w))\<rparr>"
proof (induction bs arbitrary: w)
  case (Cons b bs)
  from Cons.prems obtain u1 w1 where
      1: "stmt (\<lambda>_ d. insert_blob E s ns b d) w = (Inr u1, w1)" and
      2: "for_each (\<lambda>b. stmt (\<lambda>_ d. insert_blob E s ns b d)) bs w1 = (Inr u, w')"
    by (auto simp: bnd_Inr)
  from 1 have "db w1 = (db w)\<lparr>blobs := put_blob (blob_row_of (the (pg_uuid E s)) ns b) (blobs (db w))\<rparr>"
    by (auto simp: stmt_Inr dest: insert_blob_Inr)
  with Cons.IH[OF 2] show ?case by simp
qed (simp add: res_iff)

lemma put_blob_mono: "set bs \<subseteq> set (fold put_blob rows bs)"
proof (induction rows arbitrary: bs)
  case (Cons r rows)
  have "set bs \<subseteq> set (put_blob r bs)" by (auto simp: put_blob_def)
  also have "\<dots> \<subseteq> set (fold put_blob rows (put_blob r bs))" by (rule Cons.IH)
  finally show ?case by simp
qed simp

lemma put_blob_new:
  assumes "row \<in> set rows" and "distinct (map blob_key rows)" and "blob_key row \<notin> blob_key ` set bs"
  shows "row \<in> set (fold put_blob rows bs)"
  using assms
proof (induction rows arbitrary: bs)
  case (Cons r rows)
  show ?case
  proof (cases "r = row")
    case True
    with Cons.prems(3) have "row \<in> set (put_blob r bs)" by (simp add: put_blob_def)
    with put_blob_mono[of "put_blob r bs" rows] show ?thesis by auto
  next
    case False
    with Cons.prems have "row \<in> set rows" "blob_key row \<noteq> blob_key r" by (auto simp: image_iff)
    with Cons.prems Cons.IH[of "put_blob r bs"] show ?thesis by (auto simp: put_blob_def)
  qed
qed simp

lemma upsert_present:
  assumes "upsert_checkpoint c d = Inr (u, d')"
  shows "\<exists>x \<in> set (checkpoints d'). cp_key x = cp_key c \<and> c_checkpoint x = c_checkpoint c \<and> c_metadata x = c_metadata c"
proof (cases "list_ex (\<lambda>x. cp_key x = cp_key c) (checkpoints d)")
  case True
  then obtain x where x: "x \<in> set (checkpoints d)" "cp_key x = cp_key c" by (auto simp: list_ex_iff)
  let ?y = "x\<lparr>c_checkpoint := c_checkpoint c, c_metadata := c_metadata c\<rparr>"
  from assms True x have "?y \<in> set (checkpoints d')"
    by (auto simp: upsert_checkpoint_def intro!: image_eqI[of _ _ x])
  moreover have "cp_key ?y = cp_key x" by (simp add: cp_key_def)
  ultimately show ?thesis using x(2) by (intro bexI[of _ ?y]) simp_all
next
  case False
  with assms show ?thesis by (auto simp: upsert_checkpoint_def split: if_splits option.splits)
qed

lemma upsert_typed:
  assumes "upsert_checkpoint c d = Inr (u, d')" and "cp_typed E d"
    and "pg_uuid E (c_thread_id c) = Some (c_thread_id c)" "pg_uuid E (c_id c) = Some (c_id c)"
      "\<forall>p \<in> set_option (c_parent_id c). pg_uuid E p = Some p"
  shows "cp_typed E d'"
  unfolding cp_typed_def
proof
  fix y assume "y \<in> set (checkpoints d')"
  with assms(1) have "\<exists>x. (x = c \<or> x \<in> set (checkpoints d)) \<and>
      c_thread_id y = c_thread_id x \<and> c_id y = c_id x \<and> c_parent_id y = c_parent_id x"
    by (auto simp: upsert_checkpoint_def split: if_splits) blast+
  then obtain x where "x = c \<or> x \<in> set (checkpoints d)"
      "c_thread_id y = c_thread_id x" "c_id y = c_id x" "c_parent_id y = c_parent_id x" by blast
  with assms(2-5) show "pg_uuid E (c_thread_id y) = Some (c_thread_id y) \<and> pg_uuid E (c_id y) = Some (c_id y) \<and>
      (\<forall>p \<in> set_option (c_parent_id y). pg_uuid E p = Some p)"
    unfolding cp_typed_def by auto
qed

lemma put_row_Inr:
  assumes "put_row E pin = Inr c"
  shows "pg_uuid E (pi_ThreadID pin) = Some (c_thread_id c)" "pg_uuid E (pi_CheckpointID pin) = Some (c_id c)"
    "c_ns c = pi_CheckpointNS pin" "pg_jsonb E (pi_CheckpointJSON pin) = Some (c_checkpoint c)"
    "pg_jsonb E (pi_MetadataJSON pin) = Some (c_metadata c)"
    "\<forall>p \<in> set_option (c_parent_id c). \<exists>s. pg_uuid E s = Some p"
  using assms by (auto simp: put_row_def nullif_uuid_def res_iff split: if_splits)

lemma Put_result:
  assumes "cp_Put E pin w = (Inr u, w')"
  obtains c d1 where "put_row E pin = Inr c" "upsert_checkpoint c (db w) = Inr ((), d1)"
    "checkpoints (db w') = checkpoints d1"
    "blobs (db w') = fold put_blob (map (blob_row_of (c_thread_id c) (pi_CheckpointNS pin)) (pi_Blobs pin)) (blobs (db w))"
proof -
  let ?loop = "for_each (\<lambda>b. stmt (\<lambda>_ d. insert_blob E (pi_ThreadID pin) (pi_CheckpointNS pin) b d)) (pi_Blobs pin)"
  from assms obtain c d1 w2 w3 where c: "put_row E pin = Inr c" "upsert_checkpoint c (db w) = Inr ((), d1)"
    and 2: "?loop ((after (after w))\<lparr>db := d1\<rparr>) = (Inr (), w2)"
    and 3: "bump_thread E (pi_ThreadID pin) w2 = (Inr (), w3)" and 4: "w' = after w3"
    by (auto simp: cp_Put_def res_iff)
  have b: "blobs d1 = blobs (db w)" using c(2) blobs_grow_laws(1) by blast
  show thesis
    by (rule that[OF c])
      (use 3 4 b Put_loop[OF 2] put_row_Inr(1)[OF c(1)] in \<open>simp_all add: bump_thread_Inr\<close>)
qed

lemma calm_for_each: "(\<And>x. calm (f x)) \<Longrightarrow> calm (for_each f xs)"
  by (induction xs) (auto intro: calm_intro)

lemma calm_Put: "calm (cp_Put E pin)"
  unfolding cp_Put_def bump_thread_def by (intro calm_intro calm_for_each)

section \<open>The round trip\<close>

text \<open>The value a stored blob of the checkpoint's thread and namespace is read as.\<close>

definition blob_read :: "uuid \<Rightarrow> string \<Rightarrow> smap \<Rightarrow> blob_row \<Rightarrow> bool" where
  "blob_read tid ns vers b \<longleftrightarrow> b_thread_id b = tid \<and> b_ns b = ns \<and> map_of vers (b_channel b) = Some (b_version b) \<and>
     b_type b \<noteq> ''empty'' \<and> b_type b \<noteq> channelValueProtoEncoding \<and> b_channel b \<noteq> tasksChannelConst"

lemma blobs_of_distinct:
  "distinct (map blob_key bs) \<Longrightarrow> distinct (map (\<lambda>b. (br_Channel b, br_Version b))
     (map scan_blob (filter (\<lambda>b. b_thread_id b = t \<and> b_ns b = ns) bs)))"
  by (induction bs) (auto simp: scan_blob_def blob_key_def image_iff)

lemma values_read:
  assumes "cp_ok d" and "channel_values G vers (blobs_of tid ns d) [] = Inr vals" and "b \<in> set (blobs d)"
    and "map_of vers = map_of vers'" and "blob_read tid ns vers' b"
  shows "map_of vals (b_channel b) = Some (CVSerialized (b_type b) (b_blob b))"
proof -
  have "distinct (map (\<lambda>b. (br_Channel b, br_Version b)) (blobs_of tid ns d))"
    unfolding blobs_of_def using assms(1) by (intro blobs_of_distinct) (simp add: cp_ok_def)
  moreover have "scan_blob b \<in> set (blobs_of tid ns d)"
    using assms(3,5) by (auto simp: blobs_of_def blob_read_def)
  ultimately show ?thesis
    using channel_values_mem[OF assms(2), of "scan_blob b"] assms(4,5) by (simp add: scan_blob_def blob_read_def)
qed

lemma selected_key:
  assumes "cp_ok d" and "x \<in> set (checkpoints d)" and "cp_key x = (tid, ns, i)"
  shows "selected tid ns (Some i) d = Some x"
proof -
  have mem: "x \<in> set (filter (\<lambda>c. c_thread_id c = tid \<and> c_ns c = ns \<and> c_id c = i) (checkpoints d))"
    using assms(2,3) by (simp add: cp_key_def)
  have all: "y = x" if "y \<in> set (filter (\<lambda>c. c_thread_id c = tid \<and> c_ns c = ns \<and> c_id c = i) (checkpoints d))" for y
  proof -
    from that assms(3) have "y \<in> set (checkpoints d)" "cp_key y = cp_key x" by (simp_all add: cp_key_def)
    with assms(1,2) show ?thesis unfolding cp_ok_def by (metis distinct_key_unique)
  qed
  show ?thesis
  proof (cases "filter (\<lambda>c. c_thread_id c = tid \<and> c_ns c = ns \<and> c_id c = i) (checkpoints d)")
    case Nil
    with mem show ?thesis by simp
  next
    case (Cons y ys)
    with all[of y] show ?thesis by (simp add: selected_def)
  qed
qed

lemma put_row_typed:
  assumes "put_row E pin = Inr c" and "uuid_idem E"
  shows "pg_uuid E (c_thread_id c) = Some (c_thread_id c)" "pg_uuid E (c_id c) = Some (c_id c)"
    "\<forall>p \<in> set_option (c_parent_id c). pg_uuid E p = Some p"
  using put_row_Inr[OF assms(1)] assms(2) by (auto simp: uuid_idem_def)

lemma Put_then_GetTuple:
  assumes put: "cp_Put E pin w = (Inr u, w')" and "faults w = []" and ok: "cp_ok (db w)" and "cp_typed E (db w)" and "uuid_idem E"
    and "pi_CheckpointID pin \<noteq> []"
  obtains c x where "put_row E pin = Inr c" "cp_key x = cp_key c" "c_checkpoint x = c_checkpoint c" "c_metadata x = c_metadata c"
    "cp_GetTuple E (pi_ThreadID pin) (pi_CheckpointNS pin) (pi_CheckpointID pin) w' = (Inr (Some (loaded E x (db w'))), w')"
    "blobs (db w') = fold put_blob (map (blob_row_of (c_thread_id c) (pi_CheckpointNS pin)) (pi_Blobs pin)) (blobs (db w))"
    "cp_ok (db w')"
proof -
  obtain c d1 where c: "put_row E pin = Inr c" "upsert_checkpoint c (db w) = Inr ((), d1)"
    "checkpoints (db w') = checkpoints d1"
    "blobs (db w') = fold put_blob (map (blob_row_of (c_thread_id c) (pi_CheckpointNS pin)) (pi_Blobs pin)) (blobs (db w))"
    by (rule Put_result[OF put])
  obtain x where x: "x \<in> set (checkpoints d1)" "cp_key x = cp_key c" "c_checkpoint x = c_checkpoint c" "c_metadata x = c_metadata c"
    using upsert_present[OF c(2)] by blast
  have ok': "cp_ok (db w')" by (rule keepsD[OF cp_keys.keeps_Put ok put])
  have typed: "cp_typed E (db w')"
    using upsert_typed[OF c(2) assms(4) put_row_typed[OF c(1) assms(5)]] c(3) by (simp add: cp_typed_def)
  have calm: "faults w' = []"
    using calm_Put[of E pin] put assms(2) unfolding calm_def by (metis snd_conv)
  note ids = put_row_Inr(1-3)[OF c(1)]
  have "selected (c_thread_id c) (pi_CheckpointNS pin) (Some (c_id c)) (db w') = Some x"
    using x ids(3) c(3) by (intro selected_key[OF ok']) (simp_all add: cp_key_def)
  with GetTuple_run[OF calm typed ids(1), of "pi_CheckpointID pin" "Some (c_id c)"] ids(2) assms(6)
  have "cp_GetTuple E (pi_ThreadID pin) (pi_CheckpointNS pin) (pi_CheckpointID pin) w' = (Inr (Some (loaded E x (db w'))), w')"
    by simp
  from that[OF c(1) x(2,3,4) this c(4) ok'] show thesis .
qed

lemma put_blobs_of_keys:
  assumes "distinct (map fst (ck_ChannelValues cp))"
  shows "distinct (map blob_key (map (blob_row_of tid ns) (put_blobs_of (Some cp) nv)))"
proof -
  let ?f = "\<lambda>(ch, cv). case cv of
          CVSerialized enc v \<Rightarrow> Some \<lparr>bi_Channel = ch, bi_Version = str_of (map_of nv ch), bi_Encoding = enc, bi_Blob = v\<rparr>
        | _ \<Rightarrow> None"
  have mem: "b \<in> set (List.map_filter ?f xs) \<Longrightarrow> bi_Channel b \<in> fst ` set xs" for b and xs :: "(string \<times> channel_value) list"
    by (induction xs) (auto simp: List.map_filter_simps split: channel_value.splits option.splits)
  have "distinct (map bi_Channel (List.map_filter ?f xs))" if "distinct (map fst xs)" for xs
    using that mem by (induction xs) (auto simp: List.map_filter_simps split: channel_value.splits option.splits)
  from this[OF assms] have "distinct (map bi_Channel (put_blobs_of (Some cp) nv))"
    by (simp add: put_blobs_of_def)
  then show ?thesis
    by (simp add: distinct_map comp_def inj_on_def blob_key_def blob_row_of_def)
qed

lemma put_blobs_of_mem:
  assumes "(ch, CVSerialized enc v) \<in> set (ck_ChannelValues cp)" and "map_of nv ch = Some ver"
  shows "\<lparr>bi_Channel = ch, bi_Version = ver, bi_Encoding = enc, bi_Blob = v\<rparr> \<in> set (put_blobs_of (Some cp) nv)"
  using assms by (force simp: put_blobs_of_def List.map_filter_def str_of_def intro!: image_eqI)

lemma put_in_sel:
  "pi_ThreadID (put_in E cfg (Some cp) (Some md) nv) = cfg_get ec_ThreadId cfg"
  "pi_CheckpointNS (put_in E cfg (Some cp) (Some md) nv) = cfg_get ec_CheckpointNs cfg"
  "pi_CheckpointID (put_in E cfg (Some cp) (Some md) nv) = ck_Id cp"
  "pi_Blobs (put_in E cfg (Some cp) (Some md) nv) = put_blobs_of (Some cp) nv"
  "pi_CheckpointJSON (put_in E cfg (Some cp) (Some md) nv) = go_marshal E (checkpoint_json cp)"
  "pi_MetadataJSON (put_in E cfg (Some cp) (Some md) nv) = go_marshal E (metadata_json E md)"
  by (simp_all add: put_in_def Let_def marshalCheckpoint_def marshalMetadata_def)

lemma cpsvc_Put_Inr:
  assumes "cpsvc_Put E (Some cfg) (Some cp) md nv w = (Inr cfg', w')"
  shows "cp_Put E (put_in E (Some cfg) (Some cp) md nv) w = (Inr (), w')"
    "cfg_get ec_ThreadId (Some cfg') = cfg_get ec_ThreadId (Some cfg)"
    "cfg_get ec_CheckpointNs (Some cfg') = cfg_get ec_CheckpointNs (Some cfg)" "cfg_get ec_CheckpointId (Some cfg') = ck_Id cp"
  using assms by (auto simp: cpsvc_Put_def call_def answer_def refuse_def cloneConfig_def cfg_get_def str_of_def
      split: prod.splits sum.splits)

lemma put_blob_stored:
  assumes "(ch, CVSerialized enc v) \<in> set (ck_ChannelValues cp)" and "map_of nv ch = Some ver"
    and "distinct (map fst (ck_ChannelValues cp))" and "(tid, ns, ch, ver) \<notin> blob_key ` set bs"
  shows "\<lparr>b_thread_id = tid, b_ns = ns, b_channel = ch, b_version = ver, b_type = enc, b_blob = v\<rparr> \<in>
    set (fold put_blob (map (blob_row_of tid ns) (put_blobs_of (Some cp) nv)) bs)" (is "?b \<in> _")
proof (rule put_blob_new)
  show "?b \<in> set (map (blob_row_of tid ns) (put_blobs_of (Some cp) nv))"
    unfolding set_map using put_blobs_of_mem[OF assms(1,2)] by (rule rev_image_eqI) (simp add: blob_row_of_def)
qed (use put_blobs_of_keys[OF assms(3)] assms(4) in \<open>simp_all add: blob_key_def\<close>)

text \<open>
  (C26) What is put is what is read. After a successful \<^verbatim>\<open>Put\<close>, \<^verbatim>\<open>GetTuple\<close> with the config the client got back succeeds and returns the
  checkpoint (version, id, timestamp, channel versions, versions seen, updated channels) and its metadata (source, step,
  parents, run). A channel value sent for a new version comes back byte for byte, and a channel whose version had been stored
  before comes back with the value stored then, which is not sent again.
\<close>

theorem put_get_roundtrip:
  assumes "cpsvc_Put E (Some cfg) (Some cp) (Some md) nv w = (Inr cfg', w')"
    and "faults w = []" and "cp_ok (db w)" and "cp_typed E (db w)" and "uuid_idem E"
    and "pg_uuid E (ck_Id cp) = Some (ck_Id cp)" and "ck_Id cp \<noteq> []"
    and "carried E (checkpoint_json cp)" and "carried E (metadata_json E md)"
    and "ck_V cp < 2 ^ 64" and "plain_metadata md" and "distinct (map fst (ck_ChannelValues cp))" and "decodable G (db w')"
  shows "\<exists>t tid ns vals. fst (cpsvc_GetTuple E G (Some cfg') w') = Inr (Some t) \<and>
    pg_uuid E (cfg_get ec_ThreadId (Some cfg)) = Some tid \<and> ns = cfg_get ec_CheckpointNs (Some cfg) \<and>
    tp_Config t = id_config tid ns (ck_Id cp) \<and>
    same_checkpoint cp (tp_Checkpoint t) \<and> same_metadata md (tp_Metadata t) \<and> vals = ck_ChannelValues (tp_Checkpoint t) \<and>
    (\<forall>b \<in> set (blobs (db w)). blob_read tid ns (ck_ChannelVersions cp) b \<longrightarrow>
       map_of vals (b_channel b) = Some (CVSerialized (b_type b) (b_blob b))) \<and>
    (\<forall>ch enc v ver. (ch, CVSerialized enc v) \<in> set (ck_ChannelValues cp) \<and> map_of nv ch = Some ver \<and>
       map_of (ck_ChannelVersions cp) ch = Some ver \<and> enc \<notin> {''empty'', channelValueProtoEncoding} \<and> ch \<noteq> tasksChannelConst \<and>
       (tid, ns, ch, ver) \<notin> blob_key ` set (blobs (db w)) \<longrightarrow> map_of vals ch = Some (CVSerialized enc v))"
proof -
  let ?pin = "put_in E (Some cfg) (Some cp) (Some md) nv"
  let ?ns = "cfg_get ec_CheckpointNs (Some cfg)"
  note pin = put_in_sel
  note put = cpsvc_Put_Inr(1)[OF assms(1)] and cfg' = cpsvc_Put_Inr(2-4)[OF assms(1)]
  obtain c x where c: "put_row E ?pin = Inr c" and x: "cp_key x = cp_key c" "c_checkpoint x = c_checkpoint c" "c_metadata x = c_metadata c"
    and get: "cp_GetTuple E (pi_ThreadID ?pin) (pi_CheckpointNS ?pin) (pi_CheckpointID ?pin) w' = (Inr (Some (loaded E x (db w'))), w')"
    and blobs: "blobs (db w') = fold put_blob (map (blob_row_of (c_thread_id c) (pi_CheckpointNS ?pin)) (pi_Blobs ?pin)) (blobs (db w))"
    and ok: "cp_ok (db w')"
    by (rule Put_then_GetTuple[OF put assms(2-5)]) (use assms(7) in \<open>simp_all add: pin\<close>)
  let ?tid = "c_thread_id c"
  note row = put_row_Inr[OF c]
  have key: "c_thread_id x = ?tid" "c_ns x = ?ns" "c_id x = ck_Id cp" "pg_uuid E (cfg_get ec_ThreadId (Some cfg)) = Some ?tid"
    using x(1) row(1-3) assms(6) by (auto simp: cp_key_def pin)
  obtain m where m: "go_json E (pg_text E (c_checkpoint x)) = Some (JObj m)" "jeq (checkpoint_json cp) (JObj m)"
    using assms(8) row(4) x(2) by (auto simp: carried_def pin checkpoint_json_def jeq_simps)
  obtain n where n: "go_json E (pg_text E (c_metadata x)) = Some (JObj n)" "jeq (metadata_json E md) (JObj n)"
    using assms(9) row(5) x(3) by (auto simp: carried_def pin metadata_json_def jeq_simps)
  obtain vals sends ws where v: "channel_values G (ck_ChannelVersions (checkpoint_of G [] m [])) (blobs_of ?tid ?ns (db w')) [] = Inr vals"
    and t: "rowToTuple E G (loaded E x (db w')) = Inr \<lparr>tp_Config = id_config ?tid ?ns (ck_Id cp),
       tp_Checkpoint = checkpoint_of G (ck_Id cp) m (if sends = [] then vals else mput tasksChannelConst (CVSends sends) vals),
       tp_Metadata = metadata_of E G n,
       tp_ParentConfig = (if uuid_or_empty (c_parent_id x) = [] then None
         else Some (id_config ?tid ?ns (uuid_or_empty (c_parent_id x)))),
       tp_PendingWrites = ws\<rparr>" (is "_ = Inr ?t")
    using rowToTuple_total[OF assms(13) m(1) n(1)] unfolding key by blast
  have same: "same_checkpoint cp (tp_Checkpoint ?t)" "same_metadata md (tp_Metadata ?t)"
    using checkpoint_of_json[OF m(2) assms(10)] metadata_of_json[OF n(2) assms(11)] by simp_all
  have vers: "map_of (ck_ChannelVersions (checkpoint_of G [] m [])) = map_of (ck_ChannelVersions cp)"
    using checkpoint_of_json[OF m(2) assms(10)] by (simp add: same_checkpoint_def checkpoint_of_def)
  have read: "map_of (ck_ChannelValues (tp_Checkpoint ?t)) (b_channel b) = Some (CVSerialized (b_type b) (b_blob b))"
    if "b \<in> set (blobs (db w'))" "blob_read ?tid ?ns (ck_ChannelVersions cp) b" for b
    using values_read[OF ok v that(1) vers that(2)] that(2) by (simp add: checkpoint_of_def blob_read_def)
  have old: "set (blobs (db w)) \<subseteq> set (blobs (db w'))"
    unfolding blobs by (rule put_blob_mono)
  have new: "map_of (ck_ChannelValues (tp_Checkpoint ?t)) ch = Some (CVSerialized enc v)"
    if "(ch, CVSerialized enc v) \<in> set (ck_ChannelValues cp)" "map_of nv ch = Some ver"
      "map_of (ck_ChannelVersions cp) ch = Some ver" "enc \<notin> {''empty'', channelValueProtoEncoding}" "ch \<noteq> tasksChannelConst"
      "(?tid, ?ns, ch, ver) \<notin> blob_key ` set (blobs (db w))" for ch enc v ver
  proof -
    have "\<lparr>b_thread_id = ?tid, b_ns = ?ns, b_channel = ch, b_version = ver, b_type = enc, b_blob = v\<rparr> \<in> set (blobs (db w'))"
      unfolding blobs pin by (rule put_blob_stored[OF that(1,2) assms(12) that(6)])
    from read[OF this] that(3-5) show ?thesis by (simp add: blob_read_def)
  qed
  have "fst (cpsvc_GetTuple E G (Some cfg') w') = Inr (Some ?t)"
    using get t by (simp add: cpsvc_GetTuple_def call_def answer_def cfg' pin)
  with key(4) same read old new show ?thesis
    by (intro exI[of _ ?t] exI[of _ ?tid] exI[of _ ?ns] exI[of _ "ck_ChannelValues (tp_Checkpoint ?t)"] conjI)
      (simp_all only: CheckpointTuple.simps, blast+)
qed

text \<open>A concrete exchange: codecs that know two documents, and a checkpoint with a new value for one channel.\<close>

lemma jeq_refl: "jeq j j"
proof (induction j)
  case (JArr xs)
  then show ?case by (auto intro!: jeq_arr list.rel_refl_strong)
next
  case (JObj kvs)
  have "(map_of kvs k = None \<and> map_of kvs k = None) \<or> (\<exists>x y. map_of kvs k = Some x \<and> map_of kvs k = Some y \<and> jeq x y)" for k
    using JObj by (cases "map_of kvs k") (auto dest!: map_of_SomeD)
  then show ?case by (rule jeq_obj)
qed (auto intro: jeq.intros)

definition rt_checkpoint :: Checkpoint where
  "rt_checkpoint = \<lparr>ck_V = 4, ck_Id = ''c1'', ck_ChannelValues = [(''x'', CVSerialized ''json'' (Some ''7''))],
     ck_ChannelVersions = [(''x'', ''2''), (''y'', ''1'')], ck_VersionsSeen = [(''n'', [(''y'', ''1'')])], ck_Ts = ''noon'',
     ck_UpdatedChannels = [''x'']\<rparr>"

definition rt_metadata :: CheckpointMetadata where
  "rt_metadata = \<lparr>cm_Source = 1, cm_Step = -1, cm_Parents = [], cm_RunId = None, cm_Extras = []\<rparr>"

definition rt_metadata_json :: json where
  "rt_metadata_json = JObj [(''step'', JNum (-1)), (''parents'', JNull), (''source'', JStr ''loop'')]"

definition rt_env :: env where
  "rt_env = sample_env\<lparr>go_marshal := (\<lambda>j. if j = rt_metadata_json then ''m'' else ''c''),
     pg_jsonb := (\<lambda>s. if s = ''m'' then Some rt_metadata_json else if s = ''c'' then Some (checkpoint_json rt_checkpoint) else None),
     pg_text := (\<lambda>j. if j = rt_metadata_json then ''m'' else ''c''),
     go_json := (\<lambda>s. if s = ''m'' then Some rt_metadata_json else if s = ''c'' then Some (checkpoint_json rt_checkpoint) else None)\<rparr>"

definition rt_pb :: pbenv where
  "rt_pb = \<lparr>pb_marshal = (\<lambda>_. None), pb_unmarshal = (\<lambda>_. None), f2u64 = (\<lambda>_. 0), f2i32 = (\<lambda>_. 0)\<rparr>"

definition rt_config :: EngineConfig where
  "rt_config = \<lparr>ec_ThreadId = Some ''t1'', ec_CheckpointNs = Some [], ec_CheckpointId = None, ec_RunId = None\<rparr>"

definition rt_world :: world where
  "rt_world = sample_world\<lparr>db := sample_db\<lparr>blobs := [\<lparr>b_thread_id = ''t1'', b_ns = [], b_channel = ''y'',
     b_version = ''1'', b_type = ''json'', b_blob = Some ''5''\<rparr>]\<rparr>\<rparr>"

lemma rt_metadata_carried: "metadata_json rt_env rt_metadata = rt_metadata_json"
  by code_simp

lemma rt_carried: "carried rt_env (checkpoint_json rt_checkpoint)" "carried rt_env (metadata_json rt_env rt_metadata)"
proof -
  have "checkpoint_json rt_checkpoint \<noteq> rt_metadata_json" by code_simp
  then show "carried rt_env (checkpoint_json rt_checkpoint)" "carried rt_env (metadata_json rt_env rt_metadata)"
    unfolding rt_metadata_carried carried_def by (simp_all add: rt_env_def jeq_refl)
qed

definition rt_put :: "(status + EngineConfig) \<times> world" where
  "rt_put = cpsvc_Put rt_env (Some rt_config) (Some rt_checkpoint) (Some rt_metadata) [(''x'', ''2'')] rt_world"

lemma rt_put_run: "rt_put = (Inr (rt_config\<lparr>ec_CheckpointId := Some ''c1''\<rparr>), snd rt_put)"
  by (rule prod_eqI) (simp, code_simp, simp)

lemma rt_decodable: "decodable rt_pb (db (snd rt_put))"
proof -
  have "blobs (db (snd rt_put)) = [\<lparr>b_thread_id = ''t1'', b_ns = [], b_channel = ''y'', b_version = ''1'', b_type = ''json'', b_blob = Some ''5''\<rparr>,
      \<lparr>b_thread_id = ''t1'', b_ns = [], b_channel = ''x'', b_version = ''2'', b_type = ''json'', b_blob = Some ''7''\<rparr>]"
    by code_simp
  moreover have "writes (db (snd rt_put)) = []" by code_simp
  ultimately show ?thesis by (simp add: decodable_def decodes_def channelValueProtoEncoding_def)
qed

theorem put_get_roundtrip_witness:
  "\<exists>t. fst (cpsvc_GetTuple rt_env rt_pb (Some (rt_config\<lparr>ec_CheckpointId := Some ''c1''\<rparr>)) (snd rt_put)) = Inr (Some t) \<and>
     same_checkpoint rt_checkpoint (tp_Checkpoint t) \<and> same_metadata rt_metadata (tp_Metadata t) \<and>
     map_of (ck_ChannelValues (tp_Checkpoint t)) ''x'' = Some (CVSerialized ''json'' (Some ''7'')) \<and>
     map_of (ck_ChannelValues (tp_Checkpoint t)) ''y'' = Some (CVSerialized ''json'' (Some ''5''))"
proof -
  have world: "faults rt_world = []" "cp_ok (db rt_world)" "cp_typed rt_env (db rt_world)" "uuid_idem rt_env"
    by (simp_all add: rt_world_def sample_defs cp_ok_def cp_typed_def uuid_idem_def rt_env_def)
  have cp: "pg_uuid rt_env (ck_Id rt_checkpoint) = Some (ck_Id rt_checkpoint)" "ck_Id rt_checkpoint \<noteq> []" "ck_V rt_checkpoint < 2 ^ 64"
      "plain_metadata rt_metadata" "distinct (map fst (ck_ChannelValues rt_checkpoint))"
    by (simp_all add: rt_checkpoint_def rt_metadata_def plain_metadata_def rt_env_def sample_env_def)
  have run: "cpsvc_Put rt_env (Some rt_config) (Some rt_checkpoint) (Some rt_metadata) [(''x'', ''2'')] rt_world =
      (Inr (rt_config\<lparr>ec_CheckpointId := Some ''c1''\<rparr>), snd rt_put)"
    using rt_put_run by (simp only: rt_put_def)
  let ?x = "(''x'', CVSerialized ''json'' (Some ''7''))"
  have x: "?x \<in> set (ck_ChannelValues rt_checkpoint) \<and> map_of [(''x'', ''2'')] ''x'' = Some ''2'' \<and>
      map_of (ck_ChannelVersions rt_checkpoint) ''x'' = Some ''2'' \<and> ''json'' \<notin> {''empty'', channelValueProtoEncoding} \<and>
      ''x'' \<noteq> tasksChannelConst \<and> (''t1'', [], ''x'', ''2'') \<notin> blob_key ` set (blobs (db rt_world))"
    by (simp add: rt_checkpoint_def channelValueProtoEncoding_def tasksChannelConst_def rt_world_def blob_key_def)
  let ?y = "\<lparr>b_thread_id = ''t1'', b_ns = [], b_channel = ''y'', b_version = ''1'', b_type = ''json'', b_blob = Some ''5''\<rparr>"
  have y: "?y \<in> set (blobs (db rt_world))" "blob_read ''t1'' [] (ck_ChannelVersions rt_checkpoint) ?y"
    by (simp_all add: rt_world_def blob_read_def rt_checkpoint_def channelValueProtoEncoding_def tasksChannelConst_def)
  have ids: "pg_uuid rt_env (cfg_get ec_ThreadId (Some rt_config)) = Some ''t1''" "cfg_get ec_CheckpointNs (Some rt_config) = []"
    by (simp_all add: rt_env_def sample_env_def rt_config_def cfg_get_def str_of_def)
  from put_get_roundtrip[OF run world cp(1,2) rt_carried cp(3,4,5) rt_decodable] ids obtain t where
      t: "fst (cpsvc_GetTuple rt_env rt_pb (Some (rt_config\<lparr>ec_CheckpointId := Some ''c1''\<rparr>)) (snd rt_put)) = Inr (Some t)"
        "same_checkpoint rt_checkpoint (tp_Checkpoint t)" "same_metadata rt_metadata (tp_Metadata t)"
      and old: "\<forall>b \<in> set (blobs (db rt_world)). blob_read ''t1'' [] (ck_ChannelVersions rt_checkpoint) b \<longrightarrow>
        map_of (ck_ChannelValues (tp_Checkpoint t)) (b_channel b) = Some (CVSerialized (b_type b) (b_blob b))"
      and new: "\<forall>ch enc v ver. (ch, CVSerialized enc v) \<in> set (ck_ChannelValues rt_checkpoint) \<and>
        map_of [(''x'', ''2'')] ch = Some ver \<and> map_of (ck_ChannelVersions rt_checkpoint) ch = Some ver \<and>
        enc \<notin> {''empty'', channelValueProtoEncoding} \<and> ch \<noteq> tasksChannelConst \<and>
        (''t1'', [], ch, ver) \<notin> blob_key ` set (blobs (db rt_world)) \<longrightarrow>
        map_of (ck_ChannelValues (tp_Checkpoint t)) ch = Some (CVSerialized enc v)"
    by (auto simp del: map_of.simps)
  from t old[rule_format, OF y] new[rule_format, OF x] show ?thesis by auto
qed

section \<open>Encoded writes\<close>

text \<open>
  Encoding a pending write and decoding the stored pair gives the value back: serialized values keep their encoding and bytes,
  lists of sends and the missing marker pass through the encoded message, and an unset value comes back as an empty serialized one. A
  serialized value whose encoding is the marker itself is the one case that is read as something else.
\<close>

theorem write_value_roundtrip:
  assumes "\<And>c b. pb_marshal G c = Some b \<Longrightarrow> pb_unmarshal G b = Some c"
    and "encodeWriteValue G (Some cv) = Inr (enc, blob)"
  shows "case cv of
      CVSerialized e v \<Rightarrow> decodeWriteValue G enc blob =
        (if e = channelValueProtoEncoding then of_opt ''unmarshal channel value'' (pb_unmarshal G (str_of v))
         else Inr (CVSerialized e (Some (str_of v))))
    | CVUnset \<Rightarrow> decodeWriteValue G enc blob = Inr (CVSerialized [] (Some []))
    | _ \<Rightarrow> decodeWriteValue G enc blob = Inr cv"
  using assms by (cases cv) (auto simp: encodeWriteValue_def decodeWriteValue_def str_of_def channelValueProtoEncoding_def
      of_opt_def split: option.splits)

definition tag_pb :: pbenv where
  "tag_pb = \<lparr>pb_marshal = (\<lambda>c. case c of CVMissing \<Rightarrow> Some [] | _ \<Rightarrow> None),
     pb_unmarshal = (\<lambda>s. if s = [] then Some CVMissing else None), f2u64 = (\<lambda>_. 0), f2i32 = (\<lambda>_. 0)\<rparr>"

theorem write_value_roundtrip_witness:
  "decodeWriteValue tag_pb channelValueProtoEncoding (Some []) = Inr CVMissing"
proof -
  have "pb_unmarshal tag_pb b = Some c" if "pb_marshal tag_pb c = Some b" for b c
    using that by (cases c) (simp_all add: tag_pb_def)
  moreover have "encodeWriteValue tag_pb (Some CVMissing) = Inr (channelValueProtoEncoding, Some [])"
    by (simp add: encodeWriteValue_def tag_pb_def)
  ultimately show ?thesis using write_value_roundtrip[of tag_pb CVMissing] by simp
qed

end
