(* ===== verification/System_Integrity.thy ===== *)
theory System_Integrity
  imports Admin Runs_Machine Threads_Write Threads_Copy Checkpoint_Roundtrip
begin

text \<open>
  All components on one database. A step is one call of a store by anybody, with any outcome; the invariant of the whole schema is kept by every
  sequence of steps, because each component keeps its own part and leaves the others' alone.
\<close>

section \<open>What the components leave alone\<close>

text \<open>The tables of assistants as they are; keys of the crons and of the checkpoint tables.\<close>

definition side_ok :: "assistant_row list \<Rightarrow> version_row list \<Rightarrow> db \<Rightarrow> bool" where
  "side_ok A V d \<longleftrightarrow> assistants d = A \<and> versions d = V \<and> distinct (map k_cron_id (crons d)) \<and> cp_ok d"

lemma cp_ok_del_runs: "cp_ok d \<Longrightarrow> cp_ok (del_runs P d)"
  by (simp add: cp_ok_def del_runs_def Let_def distinct_map_filter)

lemma cp_ok_del_threads: "cp_ok d \<Longrightarrow> cp_ok (del_threads P d)"
  by (simp add: cp_ok_def del_threads_def del_runs_def Let_def distinct_map_filter)

interpretation side_runs: run_inv "side_ok A V" "\<lambda>_. True" for A V
proof unfold_locales
  fix d E ci gen t rows d' assume I: "side_ok A V d" and ins: "insert_run E ci gen t d = Inr (rows, d')"
  from ins show "side_ok A V d'" by (rule insert_run_cases) (use I in \<open>auto simp: side_ok_def cp_ok_def\<close>)
qed (auto simp: side_ok_def cp_ok_def update_thread_ids distinct_map_filter cp_ok_del_runs[unfolded cp_ok_def])

interpretation side_threads: thread_ops "side_ok A V" "\<lambda>_. True" for A V
  by unfold_locales (auto simp: side_ok_def cp_ok_del_runs cp_ok_del_threads, auto simp: cp_ok_def)

interpretation side_frame: checkpoint_ops "\<lambda>d. assistants d = A \<and> versions d = V \<and> crons d = K" for A V K
  by unfold_locales
    (auto simp: same_tid_def upsert_checkpoint_def insert_blob_def insert_write_def upsert_write_def copy_checkpoints_def
      copy_blobs_def copy_writes_def res_iff Let_def split: if_splits)

section \<open>Crons\<close>

text \<open>The three ways the cron store writes, and what an invariant that tolerates them gives for its operations.\<close>

locale cron_ops =
  fixes I :: "db \<Rightarrow> bool"
  assumes added: "I d \<Longrightarrow> cron_create_stmt E args sl aSQL tSQL fSQL t d = Inr (rows, d') \<Longrightarrow> I d'"
    and updated: "(\<And>k. k_cron_id (f k) = k_cron_id k \<and> k_assistant_id (f k) = k_assistant_id k) \<Longrightarrow> I d \<Longrightarrow> I (upd_crons P f d)"
    and removed: "I d \<Longrightarrow> I (d\<lparr>crons := filter Q (crons d)\<rparr>)"
begin

lemma keeps_cron_Create: "keeps I (cron_Create C E clock u ci)"
  unfolding cron_Create_def Let_def by (intro keeps_intro keeps_stmt) (erule (1) added)

lemma set_keys: "apply_cron_set E args x = Inr f \<Longrightarrow> k_cron_id (f k) = k_cron_id k \<and> k_assistant_id (f k) = k_assistant_id k"
  by (cases x) (auto simp: res_iff)

lemma sets_keys:
  "list_all2 (\<lambda>x y. apply_cron_set E args x = Inr y) xs fs \<Longrightarrow>
   k_cron_id (fold (\<lambda>g. g) fs k) = k_cron_id k \<and> k_assistant_id (fold (\<lambda>g. g) fs k) = k_assistant_id k"
  by (induction xs fs arbitrary: k rule: list_all2_induct) (auto dest: set_keys)

lemma keeps_update: "keeps I (stmt (cron_update_stmt E s fr as sa))"
proof (rule keeps_stmt)
  fix t d x d' assume I: "I d" and st: "cron_update_stmt E s fr as sa t d = Inr (x, d')"
  from st obtain P fs where fs: "list_all2 (\<lambda>x y. apply_cron_set E ([KText s] @ map KText as @ snd sa) x = Inr y) (fst sa) fs"
    and d': "d' = upd_crons P (\<lambda>k. fold (\<lambda>g. g) fs (k\<lparr>k_updated_at := t\<rparr>)) d"
    by (auto simp: cron_update_stmt_def Let_def res_iff)
  show "I d'" unfolding d' using sets_keys[OF fs, of "_\<lparr>k_updated_at := t\<rparr>"] I by (intro updated) simp_all
qed

lemma keeps_cron_Patch: "keeps I (cron_Patch C E pj clock s pin fs)"
  unfolding cron_Patch_def cron_patch_next_def Let_def by (intro keeps_intro keeps_update)

lemma keeps_cron_Delete: "keeps I (cron_Delete E s fs)"
  unfolding cron_Delete_def by (intro keeps_intro keeps_stmt) (auto simp: res_iff intro: removed)

lemma keeps_set_next: "keeps I (set_next_run E s n)"
  unfolding set_next_run_def by (rule keeps_stmt) (auto simp: res_iff intro!: updated)

lemma keeps_cron_SetNextRunDate: "keeps I (cron_SetNextRunDate E s n)"
  unfolding cron_SetNextRunDate_def by (rule keeps_set_next)

lemma keeps_advance: "keeps I (advance_all C E xs)"
  by (induction C E xs rule: advance_all.induct) (auto intro!: keeps_intro keeps_set_next split: sum.splits)

lemma keeps_cron_Next: "keeps I (cron_Next C E)"
  unfolding cron_Next_def by (intro keeps_intro keeps_advance)

end

text \<open>A creation adds at most one cron, with a new id and an assistant that exists.\<close>

lemma cron_create_stmt_adds:
  assumes "cron_create_stmt E args sl aSQL tSQL fSQL t d = Inr (rows, d')"
  shows "d' = d \<or> (\<exists>k. d' = d\<lparr>crons := crons d @ [k]\<rparr> \<and> k_cron_id k \<notin> k_cron_id ` set (crons d) \<and> k_assistant_id k \<in> a_assistant_id ` set (assistants d))"
  using assms by (rule create_stmt_Inr) (unfold create_outcome_def image_iff, metis)

interpretation cron_integrity: cron_ops db_ok
proof unfold_locales
  fix d E args sl aSQL tSQL fSQL t rows d' assume "db_ok d" "cron_create_stmt E args sl aSQL tSQL fSQL t d = Inr (rows, d')"
  from this(1) cron_create_stmt_adds[OF this(2)] show "db_ok d'" by (auto simp: db_ok_def keys_ok_def refs_ok_def)
qed (auto simp: db_ok_def keys_ok_def refs_ok_def upd_crons_def)

interpretation cron_side: cron_ops "side_ok A V" for A V
proof unfold_locales
  fix d E args sl aSQL tSQL fSQL t rows d' assume "side_ok A V d" "cron_create_stmt E args sl aSQL tSQL fSQL t d = Inr (rows, d')"
  from this(1) cron_create_stmt_adds[OF this(2)] show "side_ok A V d'" by (auto simp: side_ok_def cp_ok_def)
next
  fix f :: "cron_row \<Rightarrow> cron_row" and d P assume f: "\<And>k. k_cron_id (f k) = k_cron_id k \<and> k_assistant_id (f k) = k_assistant_id k" and "side_ok A V d"
  then show "side_ok A V (upd_crons P f d)"
    using map_upd_key[of k_cron_id f] by (simp add: side_ok_def cp_ok_def upd_crons_def del: map_map)
qed (auto simp: side_ok_def cp_ok_def distinct_map_filter)

section \<open>Assistants\<close>

interpretation asst_side: asst_ops "\<lambda>d. distinct (map k_cron_id (crons d)) \<and> cp_ok d"
proof unfold_locales
  fix d P assume "distinct (map k_cron_id (crons d)) \<and> cp_ok d"
  then show "distinct (map k_cron_id (crons (del_assistants P d))) \<and> cp_ok (del_assistants P d)"
    using cp_ok_del_runs[of d] by (simp add: del_assistants_tables distinct_map_filter cp_ok_def)
qed (auto simp: upd_assistants_def asst_create_stmt_def res_iff cp_ok_del_threads split: if_splits, auto simp: cp_ok_def)

section \<open>The whole service\<close>

text \<open>
  A step of the service is one call of a store, with any arguments and any outcome, or the passage of time with a change of the faults to come
  (\<open>DoWait\<close> of \<open>store_step\<close>). \<^verbatim>\<open>Threads.Copy\<close> spans two stores in one transaction.
\<close>

inductive sys_step :: "env \<Rightarrow> cronenv \<Rightarrow> int \<Rightarrow> world \<Rightarrow> world \<Rightarrow> bool" for E C ttl where
  on_runs: "store_step E ttl c w w' \<Longrightarrow> sys_step E C ttl w w'"
| on_checkpoints: "cp_exec E c w = (u, w') \<Longrightarrow> sys_step E C ttl w w'"
| on_thread_create: "thread_Create E gen ti w = (th, w') \<Longrightarrow> sys_step E C ttl w w'"
| on_thread_patch: "thread_Patch E s tp fs w = (th, w') \<Longrightarrow> sys_step E C ttl w w'"
| on_thread_delete: "thread_Delete E s fs w = (i, w') \<Longrightarrow> sys_step E C ttl w w'"
| on_thread_status: "thread_SetStatus E si w = (b, w') \<Longrightarrow> sys_step E C ttl w w'"
| on_joint_status: "thread_SetJointStatus E sj w = (u, w') \<Longrightarrow> sys_step E C ttl w w'"
| on_thread_copy: "copy_tx E (cp_CopyThreadTx E) gen s fs w = (th, w') \<Longrightarrow> sys_step E C ttl w w'"
| on_thread_expiry: "ttlSweepTick leader w = (u, w') \<Longrightarrow> sys_step E C ttl w w'"
| on_cron_create: "cron_Create C E clock gen ki w = (k, w') \<Longrightarrow> sys_step E C ttl w w'"
| on_cron_patch: "cron_Patch C E pj clock s kp fs w = (k, w') \<Longrightarrow> sys_step E C ttl w w'"
| on_cron_delete: "cron_Delete E s fs w = (u, w') \<Longrightarrow> sys_step E C ttl w w'"
| on_cron_next: "cron_Next C E w = (ks, w') \<Longrightarrow> sys_step E C ttl w w'"
| on_cron_date: "cron_SetNextRunDate E s n w = (u, w') \<Longrightarrow> sys_step E C ttl w w'"
| on_assistant_create: "asst_Create E gen ai w = (a, w') \<Longrightarrow> sys_step E C ttl w w'"
| on_assistant_patch: "asst_Patch E s ap fs w = (a, w') \<Longrightarrow> sys_step E C ttl w w'"
| on_assistant_delete: "asst_Delete E s b fs w = (is, w') \<Longrightarrow> sys_step E C ttl w w'"
| on_set_latest: "asst_SetLatest E s n fs w = (a, w') \<Longrightarrow> sys_step E C ttl w w'"
| on_truncate: "admin_Truncate ad tr w = (x, w') \<Longrightarrow> sys_step E C ttl w w'"

definition system_ok :: "db \<Rightarrow> bool" where
  "system_ok d \<longleftrightarrow> tables_ok d \<and> cp_ok d \<and> distinct (map k_cron_id (crons d))"

lemma system_ok_side: "system_ok d \<longleftrightarrow> db_ok d \<and> asst_ok d \<and> side_ok (assistants d) (versions d) d"
  by (auto simp: system_ok_def tables_ok_def side_ok_def)

lemma system_ok_frame: "db_ok d' \<Longrightarrow> side_ok (assistants d) (versions d) d' \<Longrightarrow> asst_ok d \<Longrightarrow> system_ok d'"
  by (simp add: system_ok_def tables_ok_def side_ok_def asst_ok_def)

text \<open>Components that leave the assistants alone: it is enough to keep the references and the keys.\<close>

lemma keeps_system:
  assumes "keeps db_ok m" and "\<And>A V. keeps (side_ok A V) m"
  shows "keeps system_ok m"
  using assms unfolding keeps_def system_ok_side by (metis system_ok_frame system_ok_side)

lemma keeps_system_asst:
  assumes "keeps tables_ok m" and "keeps (\<lambda>d. distinct (map k_cron_id (crons d)) \<and> cp_ok d) m"
  shows "keeps system_ok m"
  using assms by (simp add: keeps_def system_ok_def)

lemma keeps_side_cp:
  assumes "\<And>K. keeps (\<lambda>d. assistants d = A \<and> versions d = V \<and> crons d = K) m" and "keeps cp_ok m"
  shows "keeps (side_ok A V) m"
  using assms unfolding keeps_def side_ok_def by metis

lemma keeps_checkpoints: "keeps system_ok (cp_exec E c)"
  by (intro keeps_system keeps_side_cp cp_integrity.keeps_exec side_frame.keeps_exec cp_keys.keeps_exec)

lemma keeps_thread_copy: "keeps system_ok (copy_tx E (cp_CopyThreadTx E) gen s fs)"
proof (rule keeps_system[OF cp_copier.copy_tx_sound])
  show "keeps (side_ok A V) (copy_tx E (cp_CopyThreadTx E) gen s fs)" for A V
    unfolding copy_tx_def thread_CopyTx_def cp_CopyThreadTx_def
    by (intro keeps_intro side_threads.keeps_copyRow cp_copier.keeps_wrapped[unfolded cp_CopyThreadTx_def] keeps_side_cp
        side_frame.keeps_copyThreadRows cp_keys.keeps_copyThreadRows)
qed

lemma joint_same_keys: "same_keys (\<lambda>r. r\<lparr>r_status := s, r_updated_at := t\<rparr>)"
  by (simp add: same_keys_def)

lemmas keeps_threads = keeps_thread_copy
  keeps_system[OF thread_integrity.keeps_Create side_threads.keeps_Create]
  keeps_system[OF thread_integrity.keeps_Patch side_threads.keeps_Patch]
  keeps_system[OF thread_integrity.keeps_Delete side_threads.keeps_Delete]
  keeps_system[OF thread_integrity.keeps_SetStatus side_threads.keeps_SetStatus]
  keeps_system[OF thread_integrity.keeps_SetJointStatus[OF joint_same_keys] side_threads.keeps_SetJointStatus[OF TrueI]]
  keeps_system[OF thread_integrity.keeps_ttlSweepTick side_threads.keeps_ttlSweepTick]

lemmas keeps_crons =
  keeps_system[OF cron_integrity.keeps_cron_Create cron_side.keeps_cron_Create]
  keeps_system[OF cron_integrity.keeps_cron_Patch cron_side.keeps_cron_Patch]
  keeps_system[OF cron_integrity.keeps_cron_Delete cron_side.keeps_cron_Delete]
  keeps_system[OF cron_integrity.keeps_cron_Next cron_side.keeps_cron_Next]
  keeps_system[OF cron_integrity.keeps_cron_SetNextRunDate cron_side.keeps_cron_SetNextRunDate]

lemmas keeps_assistants =
  keeps_system_asst[OF asst_history.keeps_asst_Create asst_side.keeps_asst_Create]
  keeps_system_asst[OF asst_history.keeps_asst_Patch asst_side.keeps_asst_Patch]
  keeps_system_asst[OF asst_history.keeps_asst_Delete asst_side.keeps_asst_Delete]
  keeps_system_asst[OF asst_history.keeps_asst_SetLatest asst_side.keeps_asst_SetLatest]

lemma truncate_system_ok:
  assumes "admin_Truncate ad tr w = (x, w')" and "system_ok (db w)"
  shows "system_ok (db w')"
proof -
  have "keeps system_ok (stmt (\<lambda>_ d. Inr ((), truncate_stmt (truncate_tables tr) d)))"
    by (rule keeps_stmt)
      (auto simp: system_ok_def tables_ok_def truncate_db_ok truncate_asst_ok, auto simp: cp_ok_def truncate_stmt_def Let_def)
  from keepsD[OF this assms(2)] assms show ?thesis
    by (auto simp: admin_Truncate_def refuse_def answer_def call_def split: if_splits prod.splits sum.splits)
qed

lemma sys_step_ok: "sys_step E C ttl w w' \<Longrightarrow> system_ok (db w) \<Longrightarrow> system_ok (db w')"
proof (induction rule: sys_step.induct)
  case (on_runs c w w')
  then show ?case
    using system_ok_frame[OF integrity.step[OF on_runs(1)] side_runs.step[OF on_runs(1)], of "db w"] by (simp add: system_ok_side)
next
  case (on_truncate ad tr w x w')
  then show ?case by (rule truncate_system_ok)
qed (erule (1) keepsD[OF keeps_checkpoints] keepsD[OF keeps_threads(1)] keepsD[OF keeps_threads(2)] keepsD[OF keeps_threads(3)]
  keepsD[OF keeps_threads(4)] keepsD[OF keeps_threads(5)] keepsD[OF keeps_threads(6)] keepsD[OF keeps_threads(7)]
  keepsD[OF keeps_crons(1)] keepsD[OF keeps_crons(2)] keepsD[OF keeps_crons(3)] keepsD[OF keeps_crons(4)] keepsD[OF keeps_crons(5)]
  keepsD[OF keeps_assistants(1)] keepsD[OF keeps_assistants(2)] keepsD[OF keeps_assistants(3)] keepsD[OF keeps_assistants(4)])+

text \<open>
  (C3) All components together, under any interleaving of their calls, with any arguments and any database faults: primary and foreign keys of all
  eight tables hold, a checkpoint, a write and a blob belong to an existing thread, a run to an existing thread and assistant, a cron and a version
  to an existing assistant, and every assistant agrees in configuration and metadata with the entry of its history whose version it carries.
\<close>

theorem system_sound:
  assumes "(sys_step E C ttl)\<^sup>*\<^sup>* w w'" and "system_ok (db w)"
  shows "db_ok (db w') \<and> cp_ok (db w') \<and> distinct (map k_cron_id (crons (db w'))) \<and>
    distinct (map version_key (versions (db w'))) \<and>
    (\<forall>v \<in> set (versions (db w')). v_assistant_id v \<in> a_assistant_id ` set (assistants (db w'))) \<and>
    (\<forall>a \<in> set (assistants (db w')). \<exists>v \<in> set (versions (db w')). v_assistant_id v = a_assistant_id a \<and> v_version v = a_version a \<and>
        v_config v = a_config a \<and> v_metadata v = a_metadata a)"
proof -
  from assms have "system_ok (db w')" by (induction rule: rtranclp_induct) (auto dest: sys_step_ok)
  then show ?thesis unfolding system_ok_def tables_ok_def asst_ok_def mirrors_def by blast
qed

text \<open>An assistant is patched, returned to its first version and deleted with its threads.\<close>

theorem system_sound_witness:
  "\<exists>w1 w2 w3. sys_step sample_env sample_cronenv 60 sample_asst_world w1 \<and> sys_step sample_env sample_cronenv 60 w1 w2 \<and>
     sys_step sample_env sample_cronenv 60 w2 w3 \<and> length (versions (db w2)) = 3 \<and> db_ok (db w3)"
proof -
  obtain a w1 where 1: "asst_Patch sample_env ''a1'' sample_asst_patch [] sample_asst_world = (a, w1)" by fastforce
  obtain b w2 where 2: "asst_SetLatest sample_env ''a1'' 1 [] w1 = (b, w2)" by fastforce
  obtain c w3 where 3: "asst_Delete sample_env ''a1'' True [] w2 = (c, w3)" by fastforce
  note steps = on_assistant_patch[OF 1] on_set_latest[OF 2] on_assistant_delete[OF 3]
  have run: "(sys_step sample_env sample_cronenv 60)\<^sup>*\<^sup>* sample_asst_world w3"
    using steps by (meson rtranclp.rtrancl_refl rtranclp.rtrancl_into_rtrancl)
  have "length (versions (db (snd (asst_SetLatest sample_env ''a1'' 1 [] (snd (asst_Patch sample_env ''a1'' sample_asst_patch [] sample_asst_world)))))) = 3"
    by code_simp
  then have "length (versions (db w2)) = 3" by (simp add: 1 2)
  moreover have "system_ok (db sample_asst_world)"
    using sample_asst_ok by (simp add: system_ok_def cp_ok_def sample_asst_world_def sample_world_def sample_db_def)
  ultimately show ?thesis using steps system_sound[OF run] by blast
qed

end
