(* ===== verification/Config_Roundtrip.thy ===== *)
theory Config_Roundtrip
  imports Assistants_Write Checkpoint_Roundtrip
begin

text \<open>
  What becomes of a configuration a client sends: the message is turned into a JSON object (\<open>ConfigProtoToDict\<close>), printed, stored in a
  \<^verbatim>\<open>jsonb\<close> column, read back as text and turned into a message again (\<open>decodeConfig\<close>). The order of keys may change on the way (\<open>jeq\<close>).
\<close>

section \<open>Lookups\<close>

inductive_simps jeq_bool_simps: "jeq (JBool b) j"

lemma map_of_put_opt: "map_of (put_opt k v m) j = (if j = k \<and> v \<noteq> None then v else map_of m j)"
  by (cases v) (auto simp: put_opt_def)

lemma map_of_filter_fst: "map_of (filter (\<lambda>kv. P (fst kv)) m) k = (if P k then map_of m k else None)"
  by (induction m) auto

lemma fst_filter_notin: "map_of (filter (\<lambda>kv. fst kv \<notin> A) m) k = (if k \<in> A then None else map_of m k)"
  "map_of (filter (\<lambda>kv. fst kv \<notin> A \<and> fst kv \<notin> B) m) k = (if k \<in> A \<or> k \<in> B then None else map_of m k)"
  by (simp_all add: map_of_filter_fst[where P = "\<lambda>x. x \<notin> A"] map_of_filter_fst[where P = "\<lambda>x. x \<notin> A \<and> x \<notin> B"])

text \<open>Entries of a message that are JSON documents as \<^verbatim>\<open>json.Marshal\<close> prints them.\<close>

definition json_entries :: "env \<Rightarrow> (string \<times> string) list \<Rightarrow> bool" where
  "json_entries E kvs \<longleftrightarrow> distinct (map fst kvs) \<and> (\<forall>(k, v) \<in> set kvs. \<exists>j. go_json E v = Some j \<and> go_marshal E j = v)"

lemma map_of_put_json:
  assumes "json_entries E kvs"
  shows "map_of (put_json E kvs m) k = (case map_of kvs k of None \<Rightarrow> map_of m k | Some v \<Rightarrow> go_json E v)"
  using assms
proof (induction kvs arbitrary: m)
  case Nil
  show ?case by (simp add: put_json_def)
next
  case (Cons p kvs)
  obtain k' v where p: "p = (k', v)" by fastforce
  with Cons(2) obtain j where j: "go_json E v = Some j" "json_entries E kvs" "k' \<notin> fst ` set kvs"
    by (auto simp: json_entries_def)
  have none: "map_of kvs k' = None" using j(3) by (simp add: map_of_eq_None_iff)
  have "map_of (put_json E (p # kvs) m) k = map_of (put_json E kvs (put_opt k' (Some j) m)) k"
    by (simp add: put_json_def p j(1))
  also have "\<dots> = (case map_of kvs k of None \<Rightarrow> map_of (put_opt k' (Some j) m) k | Some v \<Rightarrow> go_json E v)"
    by (rule Cons(1)[OF j(2)])
  finally show ?case using none j(1) by (auto simp: p map_of_put_opt split: option.splits)
qed

lemma json_entry: "json_entries E kvs \<Longrightarrow> map_of kvs k = Some v \<Longrightarrow> \<exists>j. go_json E v = Some j \<and> go_marshal E j = v"
  by (auto simp: json_entries_def dest!: map_of_SomeD)

text \<open>A document that came back: strings, numbers and truth values are the same, the rest means the same.\<close>

lemma jeq_map: "jeq (JObj a) (JObj b) \<Longrightarrow> rel_option jeq (map_of a k) (map_of b k)"
  by (cases "map_of a k") (auto elim: jeq_lookup dest: jeq_absent)

lemma jeq_same:
  assumes "jeq (JObj a) (JObj b)"
  shows "map_of a k = None \<Longrightarrow> map_of b k = None" "map_of a k = Some (JStr s) \<Longrightarrow> map_of b k = Some (JStr s)"
    "map_of a k = Some (JNum r) \<Longrightarrow> map_of b k = Some (JNum r)" "map_of a k = Some (JBool t) \<Longrightarrow> map_of b k = Some (JBool t)"
    "map_of a k = Some (JArr (map JStr xs)) \<Longrightarrow> map_of b k = Some (JArr (map JStr xs))"
  using jeq_map[OF assms, of k] by (auto simp: jeq_simps jeq_bool_simps option_rel_Some1 dest: jeq_strs)

lemma jeq_same_obj:
  assumes "jeq (JObj a) (JObj b)" and "map_of a k = Some (JObj x)"
  obtains y where "map_of b k = Some (JObj y)" "jeq (JObj x) (JObj y)"
  using jeq_map[OF assms(1), of k] assms(2) by (auto simp: option_rel_Some1 jeq_simps)

text \<open>\<^verbatim>\<open>json.Marshal\<close> sorts the keys of a map, so documents that mean the same are printed the same.\<close>

definition marshal_sorts :: "env \<Rightarrow> bool" where
  "marshal_sorts E \<longleftrightarrow> (\<forall>x y. jeq x y \<longrightarrow> go_marshal E x = go_marshal E y)"

lemma jeq_marshal:
  assumes "jeq (JObj a) (JObj b)" and "marshal_sorts E"
  shows "map_option (go_marshal E) (map_of b k) = map_option (go_marshal E) (map_of a k)"
  using jeq_map[OF assms(1), of k] assms(2) by (cases "map_of a k"; cases "map_of b k") (auto simp: marshal_sorts_def)

section \<open>The configurable part\<close>

definition int32_ok :: "int option \<Rightarrow> bool" where
  "int32_ok n = (case n of None \<Rightarrow> True | Some i \<Rightarrow> - (2 ^ 31) \<le> i \<and> i < 2 ^ 31)"

text \<open>
  A message whose fields all have a place in the stored object: no empty string where the code takes it for absent, known enums, documents in the
  form \<^verbatim>\<open>json.Marshal\<close> gives, and no free key that is the name of a field.
\<close>

definition configurable_ok :: "env \<Rightarrow> RunnableConfig \<Rightarrow> bool" where
  "configurable_ok E pb \<longleftrightarrow>
     rc_CheckpointId pb \<noteq> Some [] \<and> rc_RunId pb \<noteq> Some [] \<and> rc_TracingProject pb \<noteq> Some [] \<and> rc_TracingExampleId pb \<noteq> Some [] \<and>
     (\<forall>d. rc_Durability pb = Some d \<longrightarrow> d \<in> {1, 2, 3}) \<and> (\<forall>m \<in> set (rc_RootStreamModes pb). map_of StreamMode_name m \<noteq> None) \<and>
     distinct (map fst (rc_CheckpointMap pb)) \<and> json_entries E (rc_ExtraConfigurableJson pb) \<and>
     (\<forall>(k, v) \<in> set (rc_ExtraConfigurableJson pb). go_json E v \<noteq> Some JNull \<and>
        k \<notin> set configurable_fields \<union> set restrictedReservedConfigurableKeys \<union> {''run_id'', ''graph_id''})"

lemma extra_free:
  assumes "configurable_ok E pb" and "map_of (rc_ExtraConfigurableJson pb) k = Some v"
  shows "k \<notin> set configurable_fields \<union> set restrictedReservedConfigurableKeys \<union> {''run_id'', ''graph_id''}" and "go_json E v \<noteq> Some JNull"
  using assms by (auto simp: configurable_ok_def dest!: map_of_SomeD)

lemma nonempty_str_eq: "s \<noteq> Some [] \<Longrightarrow> nonempty_str s = map_option JStr s"
  by (cases s) (auto simp: nonempty_str_def)

lemma configurable_lookup:
  assumes "configurable_ok E pb"
  shows "map_of (configurableFromProto E pb) ''__pregel_resuming'' = map_option JBool (rc_Resuming pb)"
    "map_of (configurableFromProto E pb) ''__pregel_task_id'' = map_option JStr (rc_TaskId pb)"
    "map_of (configurableFromProto E pb) ''thread_id'' = map_option JStr (rc_ThreadId pb)"
    "map_of (configurableFromProto E pb) ''checkpoint_map'' = (if rc_CheckpointMap pb = [] then None else Some (str_obj (rc_CheckpointMap pb)))"
    "map_of (configurableFromProto E pb) ''checkpoint_id'' = map_option JStr (rc_CheckpointId pb)"
    "map_of (configurableFromProto E pb) ''checkpoint_ns'' = map_option JStr (rc_CheckpointNs pb)"
    "map_of (configurableFromProto E pb) ''__pregel_durability'' = map_option JStr (Option.bind (rc_Durability pb) durabilityFromProto)"
    "map_of (configurableFromProto E pb) ''__pregel_root_stream_modes'' = (if rc_RootStreamModes pb = [] then None
        else Some (JArr (map JStr (List.map_filter (map_of StreamMode_name) (rc_RootStreamModes pb)))))"
    "map_of (configurableFromProto E pb) ''__langsmith_project__'' = map_option JStr (rc_TracingProject pb)"
    "map_of (configurableFromProto E pb) ''__langsmith_example_id__'' = map_option JStr (rc_TracingExampleId pb)"
    "map_of (configurableFromProto E pb) ''run_id'' = map_option JStr (rc_RunId pb)"
    "map_of (configurableFromProto E pb) ''graph_id'' = map_option JStr (rc_GraphId pb)"
proof -
  have ok: "json_entries E (rc_ExtraConfigurableJson pb)" "rc_CheckpointId pb \<noteq> Some []" "rc_RunId pb \<noteq> Some []"
    "rc_TracingProject pb \<noteq> Some []" "rc_TracingExampleId pb \<noteq> Some []"
    using assms by (auto simp: configurable_ok_def)
  have none: "map_of (rc_ExtraConfigurableJson pb) k = None" if "k \<in> set configurable_fields \<or> k = ''run_id'' \<or> k = ''graph_id''" for k
    using extra_free(1)[OF assms, of k] that by (cases "map_of (rc_ExtraConfigurableJson pb) k") auto
  note look = configurableFromProto_def map_of_put_opt map_of_put_json[OF ok(1)] none nonempty_str_eq[OF ok(2)] nonempty_str_eq[OF ok(3)]
    nonempty_str_eq[OF ok(4)] nonempty_str_eq[OF ok(5)] configurable_fields_def
  show "map_of (configurableFromProto E pb) ''__pregel_resuming'' = map_option JBool (rc_Resuming pb)"
    "map_of (configurableFromProto E pb) ''__pregel_task_id'' = map_option JStr (rc_TaskId pb)"
    "map_of (configurableFromProto E pb) ''thread_id'' = map_option JStr (rc_ThreadId pb)"
    "map_of (configurableFromProto E pb) ''checkpoint_map'' = (if rc_CheckpointMap pb = [] then None else Some (str_obj (rc_CheckpointMap pb)))"
    "map_of (configurableFromProto E pb) ''checkpoint_id'' = map_option JStr (rc_CheckpointId pb)"
    "map_of (configurableFromProto E pb) ''checkpoint_ns'' = map_option JStr (rc_CheckpointNs pb)"
    "map_of (configurableFromProto E pb) ''__pregel_durability'' = map_option JStr (Option.bind (rc_Durability pb) durabilityFromProto)"
    "map_of (configurableFromProto E pb) ''__pregel_root_stream_modes'' = (if rc_RootStreamModes pb = [] then None
        else Some (JArr (map JStr (List.map_filter (map_of StreamMode_name) (rc_RootStreamModes pb)))))"
    "map_of (configurableFromProto E pb) ''__langsmith_project__'' = map_option JStr (rc_TracingProject pb)"
    "map_of (configurableFromProto E pb) ''__langsmith_example_id__'' = map_option JStr (rc_TracingExampleId pb)"
    "map_of (configurableFromProto E pb) ''run_id'' = map_option JStr (rc_RunId pb)"
    "map_of (configurableFromProto E pb) ''graph_id'' = map_option JStr (rc_GraphId pb)"
    by (simp_all add: look)
qed

lemma configurable_extra:
  assumes "configurable_ok E pb" and "k \<notin> set configurable_fields \<union> {''run_id'', ''graph_id''}"
  shows "map_of (configurableFromProto E pb) k = Option.bind (map_of (rc_ExtraConfigurableJson pb) k) (go_json E)"
proof -
  have "json_entries E (rc_ExtraConfigurableJson pb)" using assms(1) by (simp add: configurable_ok_def)
  then show ?thesis
    using assms(2) by (auto simp: configurableFromProto_def map_of_put_opt map_of_put_json configurable_fields_def split: option.splits)
qed

text \<open>The fields of the configurable part agree, up to the two asymmetries of the codec: the graph id moves to the free keys, and the run id is copied there.\<close>

definition same_configurable :: "env \<Rightarrow> RunnableConfig \<Rightarrow> RunnableConfig \<Rightarrow> bool" where
  "same_configurable E pb pb' \<longleftrightarrow>
     rc_Resuming pb' = rc_Resuming pb \<and> rc_TaskId pb' = rc_TaskId pb \<and> rc_ThreadId pb' = rc_ThreadId pb \<and>
     map_of (rc_CheckpointMap pb') = map_of (rc_CheckpointMap pb) \<and> rc_CheckpointId pb' = rc_CheckpointId pb \<and>
     rc_CheckpointNs pb' = rc_CheckpointNs pb \<and> rc_Durability pb' = rc_Durability pb \<and> rc_RootStreamModes pb' = rc_RootStreamModes pb \<and>
     rc_TracingProject pb' = rc_TracingProject pb \<and> rc_TracingExampleId pb' = rc_TracingExampleId pb \<and>
     (\<forall>k. map_of (rc_ExtraConfigurableJson pb') k =
        (if k = ''run_id'' then map_option (\<lambda>s. go_marshal E (JStr s)) (rc_RunId pb)
         else if k = ''graph_id'' then map_option (\<lambda>s. go_marshal E (JStr s)) (rc_GraphId pb) else map_of (rc_ExtraConfigurableJson pb) k))"

lemma nn_str: "map_of c k = map_option JStr s \<Longrightarrow> nn c k = map_option JStr s"
  by (cases s) (simp_all add: nn_def)

lemma jeq_opt_str: "jeq (JObj a) (JObj b) \<Longrightarrow> map_of a k = map_option JStr s \<Longrightarrow> map_option (sprint sp) (nn b k) = s"
  by (cases s) (auto simp: nn_def sprint_def dest: jeq_same)

lemma jeq_opt_bool: "jeq (JObj a) (JObj b) \<Longrightarrow> map_of a k = map_option JBool t \<Longrightarrow>
  (case nn b k of Some (JBool b) \<Rightarrow> Some b | _ \<Rightarrow> None) = t"
  by (cases t) (auto simp: nn_def dest: jeq_same)

lemma modes_back:
  assumes "\<forall>m \<in> set ms. map_of StreamMode_name m \<noteq> None"
  shows "List.map_filter (enum_value StreamMode_name) (List.map_filter (map_of StreamMode_name) ms) = ms"
  using assms
proof (induction ms)
  case (Cons m ms)
  then obtain s where s: "map_of StreamMode_name m = Some s" by auto
  then have "enum_value StreamMode_name s = Some m"
    using StreamMode_enum.value_String[OF map_of_SomeD[OF s]] by (simp add: enum_String_def)
  with Cons s show ?case by (simp add: map_filter_simps)
qed simp

lemma durability_back: "d \<in> {1, 2, 3} \<Longrightarrow> \<exists>s. durabilityFromProto d = Some s \<and> durabilityToProto s = Some d"
  by (auto simp: durabilityFromProto_def durabilityToProto_def)

lemma checkpoint_map_back:
  assumes "jeq (str_obj m) (JObj kvs)"
  shows "map_of (obj_entries (\<lambda>v. Some (sprint sp v)) kvs) = map_of m"
proof
  fix k
  have eq: "jeq (JObj (map (\<lambda>(k, v). (k, JStr v)) m)) (JObj kvs)" using assms by (simp add: str_obj_def)
  show "map_of (obj_entries (\<lambda>v. Some (sprint sp v)) kvs) k = map_of m k"
    using jeq_same(1,2)[OF eq, of k] by (cases "map_of m k") (simp_all add: map_of_obj_entries map_of_str_obj sprint_def)
qed

lemma bind_marshal: "Option.bind x (\<lambda>v. if v = JNull then None else Some (go_marshal E v)) = (if x = Some JNull then None else map_option (go_marshal E) x)"
  by (cases x) auto

lemma inject_extra:
  assumes ok: "configurable_ok E pb" and eq: "jeq (JObj (configurableFromProto E pb)) (JObj c)" and ms: "marshal_sorts E"
  shows "map_of (rc_ExtraConfigurableJson (injectConfigurableIntoProto E sp c pb0)) k =
     (if k = ''run_id'' then map_option (\<lambda>s. go_marshal E (JStr s)) (rc_RunId pb)
      else if k = ''graph_id'' then map_option (\<lambda>s. go_marshal E (JStr s)) (rc_GraphId pb) else map_of (rc_ExtraConfigurableJson pb) k)"
proof -
  let ?res = "set configurable_fields \<union> set restrictedReservedConfigurableKeys"
  have lhs: "map_of (rc_ExtraConfigurableJson (injectConfigurableIntoProto E sp c pb0)) k =
      (if k \<in> ?res \<or> map_of c k = Some JNull then None else map_option (go_marshal E) (map_of c k))"
    by (simp add: injectConfigurableIntoProto_def Let_def map_of_obj_entries fst_filter_notin bind_marshal)
  have ids: "''run_id'' \<notin> ?res" "''graph_id'' \<notin> ?res" by (simp_all add: configurable_fields_def restrictedReservedConfigurableKeys_def)
  have str: "map_of c i \<noteq> Some JNull \<and> map_option (go_marshal E) (map_of c i) = map_option (\<lambda>s. go_marshal E (JStr s)) o'"
    if "map_of (configurableFromProto E pb) i = map_option JStr o'" for i o'
    using that jeq_same(1,2)[OF eq, of i] by (cases o') simp_all
  consider "k = ''run_id''" | "k = ''graph_id''" | "k \<in> ?res" | "k \<notin> ?res \<union> {''run_id'', ''graph_id''}" by blast
  then show ?thesis
  proof cases
    case 1
    with lhs ids str[OF configurable_lookup(11)[OF ok]] show ?thesis by simp
  next
    case 2
    with lhs ids str[OF configurable_lookup(12)[OF ok]] show ?thesis by simp
  next
    case 3
    then have "map_of (rc_ExtraConfigurableJson pb) k = None" using extra_free(1)[OF ok, of k] by (cases "map_of (rc_ExtraConfigurableJson pb) k") auto
    with 3 lhs ids show ?thesis by auto
  next
    case 4
    have C: "map_of (configurableFromProto E pb) k = Option.bind (map_of (rc_ExtraConfigurableJson pb) k) (go_json E)"
      using 4 by (intro configurable_extra[OF ok]) blast
    have je: "json_entries E (rc_ExtraConfigurableJson pb)" using ok by (simp add: configurable_ok_def)
    have "map_option (go_marshal E) (map_of c k) = map_of (rc_ExtraConfigurableJson pb) k \<and> map_of c k \<noteq> Some JNull"
    proof (cases "map_of (rc_ExtraConfigurableJson pb) k")
      case None
      with C jeq_same(1)[OF eq, of k] show ?thesis by simp
    next
      case (Some v)
      with json_entry[OF je Some] obtain j where j: "go_json E v = Some j" "go_marshal E j = v" by blast
      with C Some obtain y where y: "map_of c k = Some y" "jeq j y" using jeq_lookup[OF eq, of k j] by auto
      have "j \<noteq> JNull" using extra_free(2)[OF ok Some] j by simp
      with y(2) have "y \<noteq> JNull" by (cases j) (auto simp: jeq_simps jeq_bool_simps)
      with y j Some ms show ?thesis by (simp add: marshal_sorts_def)
    qed
    with 4 lhs show ?thesis by auto
  qed
qed

lemma inject_back:
  assumes ok: "configurable_ok E pb" and eq: "jeq (JObj (configurableFromProto E pb)) (JObj c)" and "marshal_sorts E"
  shows "same_configurable E pb (injectConfigurableIntoProto E sp c pb0)"
  unfolding same_configurable_def
proof (intro conjI allI)
  let ?pb = "injectConfigurableIntoProto E sp c pb0"
  note look = configurable_lookup[OF ok] and inj = injectConfigurableIntoProto_def Let_def
  show "rc_Resuming ?pb = rc_Resuming pb" using jeq_opt_bool[OF eq look(1)] by (simp add: inj)
  show "rc_TaskId ?pb = rc_TaskId pb" using jeq_opt_str[OF eq look(2)] by (simp add: inj)
  show "rc_ThreadId ?pb = rc_ThreadId pb" using jeq_opt_str[OF eq look(3)] by (simp add: inj)
  show "rc_CheckpointId ?pb = rc_CheckpointId pb" using jeq_opt_str[OF eq look(5)] by (simp add: inj)
  show "rc_CheckpointNs ?pb = rc_CheckpointNs pb" using jeq_opt_str[OF eq look(6)] by (simp add: inj)
  show "rc_TracingProject ?pb = rc_TracingProject pb" using jeq_opt_str[OF eq look(9)] by (simp add: inj)
  show "rc_TracingExampleId ?pb = rc_TracingExampleId pb" using jeq_opt_str[OF eq look(10)] by (simp add: inj)
  show "map_of (rc_CheckpointMap ?pb) = map_of (rc_CheckpointMap pb)"
  proof (cases "rc_CheckpointMap pb = []")
    case True
    with look(4) have "map_of c ''checkpoint_map'' = None" using jeq_same(1)[OF eq] by simp
    with True show ?thesis by (simp add: inj nn_def)
  next
    case False
    with look(4) obtain y where "map_of c ''checkpoint_map'' = Some (JObj y)" "jeq (str_obj (rc_CheckpointMap pb)) (JObj y)"
      by (auto simp: str_obj_def intro: jeq_same_obj[OF eq])
    then show ?thesis using checkpoint_map_back by (simp add: inj nn_def)
  qed
  show "rc_Durability ?pb = rc_Durability pb"
  proof (cases "rc_Durability pb")
    case None
    with look(7) jeq_same(1)[OF eq] show ?thesis by (simp add: inj nn_def)
  next
    case (Some d)
    with ok obtain s where "durabilityFromProto d = Some s" "durabilityToProto s = Some d"
      using durability_back[of d] by (auto simp: configurable_ok_def)
    with look(7) jeq_same(2)[OF eq] Some show ?thesis by (simp add: inj nn_def)
  qed
  show "rc_RootStreamModes ?pb = rc_RootStreamModes pb"
  proof (cases "rc_RootStreamModes pb = []")
    case True
    with look(8) jeq_same(1)[OF eq] show ?thesis by (simp add: inj nn_def)
  next
    case False
    with look(8) jeq_same(5)[OF eq] have "nn c ''__pregel_root_stream_modes'' =
        Some (JArr (map JStr (List.map_filter (map_of StreamMode_name) (rc_RootStreamModes pb))))" by (simp add: nn_def)
    moreover have "map (sprint sp \<circ> JStr) xs = xs" for xs by (induction xs) (simp_all add: sprint_def)
    ultimately show ?thesis using modes_back[of "rc_RootStreamModes pb"] ok by (simp add: inj toStringSlice_def configurable_ok_def)
  qed
qed (rule inject_extra[OF assms])

section \<open>The whole configuration\<close>

definition config_ok :: "env \<Rightarrow> RunnableConfig \<Rightarrow> bool" where
  "config_ok E pb \<longleftrightarrow> configurable_ok E pb \<and> rc_RunName pb \<noteq> Some [] \<and> rc_MaxConcurrency pb \<noteq> Some 0 \<and> rc_RecursionLimit pb \<noteq> Some 0 \<and>
     int32_ok (rc_MaxConcurrency pb) \<and> int32_ok (rc_RecursionLimit pb) \<and> int32_ok (rc_RunAttempt pb) \<and>
     json_entries E (rc_MetadataJson pb) \<and> fst ` set (rc_MetadataJson pb) \<inter> {''run_attempt'', ''run_id''} = {} \<and>
     json_entries E (rc_ExtraJson pb) \<and> fst ` set (rc_ExtraJson pb) \<inter> set knownConfigTopLevelKeys = {}"

definition same_config :: "env \<Rightarrow> RunnableConfig \<Rightarrow> RunnableConfig \<Rightarrow> bool" where
  "same_config E pb pb' \<longleftrightarrow> same_configurable E pb pb' \<and> rc_GraphId pb' = None \<and> rc_RunId pb' = rc_RunId pb \<and>
     rc_RunName pb' = rc_RunName pb \<and> rc_MaxConcurrency pb' = rc_MaxConcurrency pb \<and> rc_RecursionLimit pb' = rc_RecursionLimit pb \<and>
     rc_RunAttempt pb' = rc_RunAttempt pb \<and> rc_ServerRunId pb' = rc_ServerRunId pb \<and> rc_Tags pb' = rc_Tags pb \<and>
     map_of (rc_MetadataJson pb') = map_of (rc_MetadataJson pb) \<and> map_of (rc_ExtraJson pb') = map_of (rc_ExtraJson pb)"

definition config_meta :: "env \<Rightarrow> RunnableConfig \<Rightarrow> dict" where
  "config_meta E pb = put_opt ''run_id'' (map_option JStr (rc_ServerRunId pb))
     (put_opt ''run_attempt'' (map_option (\<lambda>n. JNum (of_int n)) (rc_RunAttempt pb)) (put_json E (rc_MetadataJson pb) []))"

lemma not_key: "fst ` set kvs \<inter> A = {} \<Longrightarrow> k \<in> A \<Longrightarrow> map_of kvs k = None"
  by (auto simp: map_of_eq_None_iff)

lemma config_lookup:
  assumes "config_ok E pb"
  shows "map_of (ConfigProtoToDict E (Some pb)) ''configurable'' =
      (if configurableFromProto E pb = [] then None else Some (JObj (configurableFromProto E pb)))"
    "map_of (ConfigProtoToDict E (Some pb)) ''metadata'' = (if config_meta E pb = [] then None else Some (JObj (config_meta E pb)))"
    "map_of (ConfigProtoToDict E (Some pb)) ''tags'' = (if rc_Tags pb = [] then None else Some (JArr (map JStr (rc_Tags pb))))"
    "map_of (ConfigProtoToDict E (Some pb)) ''run_name'' = map_option JStr (rc_RunName pb)"
    "map_of (ConfigProtoToDict E (Some pb)) ''max_concurrency'' = map_option (\<lambda>n. JNum (of_int n)) (rc_MaxConcurrency pb)"
    "map_of (ConfigProtoToDict E (Some pb)) ''recursion_limit'' = map_option (\<lambda>n. JNum (of_int n)) (rc_RecursionLimit pb)"
    "map_of (ConfigProtoToDict E (Some pb)) ''run_id'' = None"
    "k \<notin> set knownConfigTopLevelKeys \<Longrightarrow> map_of (ConfigProtoToDict E (Some pb)) k = Option.bind (map_of (rc_ExtraJson pb) k) (go_json E)"
proof -
  have je: "json_entries E (rc_ExtraJson pb)" and free: "fst ` set (rc_ExtraJson pb) \<inter> set knownConfigTopLevelKeys = {}"
    using assms by (simp_all add: config_ok_def)
  note look = ConfigProtoToDict_def Let_def map_of_put_json[OF je] map_of_put_opt not_key[OF free] knownConfigTopLevelKeys_def config_meta_def
  show "map_of (ConfigProtoToDict E (Some pb)) ''configurable'' =
      (if configurableFromProto E pb = [] then None else Some (JObj (configurableFromProto E pb)))"
    "map_of (ConfigProtoToDict E (Some pb)) ''metadata'' = (if config_meta E pb = [] then None else Some (JObj (config_meta E pb)))"
    "map_of (ConfigProtoToDict E (Some pb)) ''tags'' = (if rc_Tags pb = [] then None else Some (JArr (map JStr (rc_Tags pb))))"
    "map_of (ConfigProtoToDict E (Some pb)) ''run_name'' = map_option JStr (rc_RunName pb)"
    "map_of (ConfigProtoToDict E (Some pb)) ''max_concurrency'' = map_option (\<lambda>n. JNum (of_int n)) (rc_MaxConcurrency pb)"
    "map_of (ConfigProtoToDict E (Some pb)) ''recursion_limit'' = map_option (\<lambda>n. JNum (of_int n)) (rc_RecursionLimit pb)"
    "map_of (ConfigProtoToDict E (Some pb)) ''run_id'' = None"
    by (simp_all add: look)
  show "k \<notin> set knownConfigTopLevelKeys \<Longrightarrow> map_of (ConfigProtoToDict E (Some pb)) k = Option.bind (map_of (rc_ExtraJson pb) k) (go_json E)"
    by (auto simp: look split: option.splits)
qed

text \<open>A part of the object that is left out when it is empty.\<close>

lemma jeq_section:
  assumes "jeq (JObj d) (JObj d')" and "map_of d k = (if m = [] then None else Some (JObj m))"
  obtains m' where "jeq (JObj m) (JObj m')" and "j_obj (map_of d' k) = (if m = [] then None else Some m')" and "m = [] \<longrightarrow> m' = []"
proof (cases "m = []")
  case True
  with assms(2) jeq_same(1)[OF assms(1), of k] that[of "[]"] show thesis by (simp add: j_obj_def jeq_obj)
next
  case False
  with assms(2) obtain y where "map_of d' k = Some (JObj y)" "jeq (JObj m) (JObj y)"
    by (auto intro: jeq_same_obj[OF assms(1)])
  with False that[of y] show thesis by (simp add: j_obj_def)
qed

lemma toInt32_back:
  assumes "jeq (JObj a) (JObj b)" and "map_of a k = map_option (\<lambda>n. JNum (of_int n)) o'" and "int32_ok o'"
  shows "toInt32 G (map_of b k) = o'"
  using assms(2,3) jeq_same(1,3)[OF assms(1), of k] by (cases o') (auto simp: toInt32_def int32_ok_def to_int32_int)

text \<open>The parts of \<open>ConfigDictToProto\<close>: the fields outside \<^verbatim>\<open>configurable\<close>, then that part, then the free keys.\<close>

definition config_base :: "env \<Rightarrow> pbenv \<Rightarrow> (json \<Rightarrow> string) \<Rightarrow> dict \<Rightarrow> dict \<Rightarrow> RunnableConfig" where
  "config_base E G sp cfg meta =
     (let nonzero = (\<lambda>k. case toInt32 G (map_of cfg k) of Some n \<Rightarrow> if n \<noteq> 0 then Some n else None | None \<Rightarrow> None);
          runID = config_run_id sp cfg
      in empty_config\<lparr>
          rc_RunAttempt := toInt32 G (map_of meta ''run_attempt''),
          rc_ServerRunId := map_option (sprint sp) (map_of meta ''run_id''),
          rc_MetadataJson := obj_entries (\<lambda>v. Some (go_marshal E v)) (filter (\<lambda>kv. fst kv \<notin> {''run_attempt'', ''run_id''}) meta),
          rc_RunName := (case map_of cfg ''run_name'' of Some (JStr s) \<Rightarrow> if s \<noteq> [] then Some s else None | _ \<Rightarrow> None),
          rc_RunId := (if runID \<noteq> [] then Some runID else None),
          rc_MaxConcurrency := nonzero ''max_concurrency'',
          rc_RecursionLimit := nonzero ''recursion_limit'',
          rc_Tags := (case map_of cfg ''tags'' of Some (JArr ts) \<Rightarrow> map (sprint sp) ts | _ \<Rightarrow> [])\<rparr>)"

lemma inject_nil: "injectConfigurableIntoProto E sp [] (config_base E G sp cfg meta) = config_base E G sp cfg meta"
  by (simp add: injectConfigurableIntoProto_def config_base_def empty_config_def nn_def obj_entries_def Let_def)

lemma ConfigDictToProto_parts:
  assumes "cfg \<noteq> []" and "j_obj (map_of cfg ''metadata'') = (if M = [] then None else Some meta)" "M = [] \<longrightarrow> meta = []"
    and "j_obj (map_of cfg ''configurable'') = (if C = [] then None else Some c)" "C = [] \<longrightarrow> c = []"
  shows "ConfigDictToProto E G sp cfg = Some ((injectConfigurableIntoProto E sp c (config_base E G sp cfg meta))
    \<lparr>rc_ExtraJson := obj_entries (\<lambda>v. Some (go_marshal E v)) (filter (\<lambda>kv. fst kv \<notin> set knownConfigTopLevelKeys) cfg)\<rparr>)"
proof -
  have m: "(case j_obj (map_of cfg ''metadata'') of Some m \<Rightarrow> m | None \<Rightarrow> []) = meta" using assms(2,3) by auto
  have c: "(case j_obj (map_of cfg ''configurable'') of Some c \<Rightarrow> injectConfigurableIntoProto E sp c (config_base E G sp cfg meta)
      | None \<Rightarrow> config_base E G sp cfg meta) = injectConfigurableIntoProto E sp c (config_base E G sp cfg meta)"
    using assms(4,5) by (auto simp: inject_nil)
  show ?thesis
    unfolding ConfigDictToProto_def Let_def if_not_P[OF assms(1)] m c[symmetric] unfolding config_base_def Let_def by (rule refl)
qed

lemma inject_keeps:
  "rc_RunAttempt (injectConfigurableIntoProto E sp c pb) = rc_RunAttempt pb" "rc_ServerRunId (injectConfigurableIntoProto E sp c pb) = rc_ServerRunId pb"
  "rc_MetadataJson (injectConfigurableIntoProto E sp c pb) = rc_MetadataJson pb" "rc_RunName (injectConfigurableIntoProto E sp c pb) = rc_RunName pb"
  "rc_RunId (injectConfigurableIntoProto E sp c pb) = rc_RunId pb" "rc_MaxConcurrency (injectConfigurableIntoProto E sp c pb) = rc_MaxConcurrency pb"
  "rc_RecursionLimit (injectConfigurableIntoProto E sp c pb) = rc_RecursionLimit pb" "rc_Tags (injectConfigurableIntoProto E sp c pb) = rc_Tags pb"
  "rc_GraphId (injectConfigurableIntoProto E sp c pb) = rc_GraphId pb"
  by (simp_all add: injectConfigurableIntoProto_def Let_def)

lemma same_configurable_extra: "same_configurable E pb (pb'\<lparr>rc_ExtraJson := x\<rparr>) = same_configurable E pb pb'"
  by (simp add: same_configurable_def)

text \<open>Free keys come back: decoded, stored, and printed again.\<close>

lemma entries_back:
  assumes "jeq (JObj a) (JObj b)" and "marshal_sorts E" and "json_entries E kvs"
    and "\<And>k. k \<notin> A \<Longrightarrow> map_of a k = Option.bind (map_of kvs k) (go_json E)" and "fst ` set kvs \<inter> A = {}"
  shows "map_of (obj_entries (\<lambda>v. Some (go_marshal E v)) (filter (\<lambda>kv. fst kv \<notin> A) b)) = map_of kvs"
proof
  fix k
  have "map_option (go_marshal E) (map_of a k) = map_of kvs k" if "k \<notin> A"
    using assms(4)[OF that] json_entry[OF assms(3), of k] by (cases "map_of kvs k") auto
  with jeq_marshal[OF assms(1,2), of k] not_key[OF assms(5), of k]
  show "map_of (obj_entries (\<lambda>v. Some (go_marshal E v)) (filter (\<lambda>kv. fst kv \<notin> A) b)) k = map_of kvs k"
    by (auto simp: map_of_obj_entries fst_filter_notin(1) bind_eq_Some_conv split: bind_splits)
qed

lemma meta_lookup:
  assumes "config_ok E pb"
  shows "map_of (config_meta E pb) ''run_id'' = map_option JStr (rc_ServerRunId pb)"
    "map_of (config_meta E pb) ''run_attempt'' = map_option (\<lambda>n. JNum (of_int n)) (rc_RunAttempt pb)"
    "k \<notin> {''run_attempt'', ''run_id''} \<Longrightarrow> map_of (config_meta E pb) k = Option.bind (map_of (rc_MetadataJson pb) k) (go_json E)"
proof -
  have je: "json_entries E (rc_MetadataJson pb)" and free: "fst ` set (rc_MetadataJson pb) \<inter> {''run_attempt'', ''run_id''} = {}"
    using assms by (simp_all add: config_ok_def)
  note look = config_meta_def map_of_put_json[OF je] map_of_put_opt not_key[OF free]
  show "map_of (config_meta E pb) ''run_id'' = map_option JStr (rc_ServerRunId pb)"
    "map_of (config_meta E pb) ''run_attempt'' = map_option (\<lambda>n. JNum (of_int n)) (rc_RunAttempt pb)"
    by (simp_all add: look)
  show "k \<notin> {''run_attempt'', ''run_id''} \<Longrightarrow> map_of (config_meta E pb) k = Option.bind (map_of (rc_MetadataJson pb) k) (go_json E)"
    by (auto simp: look split: option.splits)
qed

lemma run_id_back:
  assumes ok: "config_ok E pb" and eq: "jeq (JObj (ConfigProtoToDict E (Some pb))) (JObj d)"
    and c: "jeq (JObj (configurableFromProto E pb)) (JObj c)" "j_obj (map_of d ''configurable'') = (if configurableFromProto E pb = [] then None else Some c)"
  shows "(if config_run_id sp d \<noteq> [] then Some (config_run_id sp d) else None) = rc_RunId pb"
proof -
  have pok: "configurable_ok E pb" using ok by (simp add: config_ok_def)
  have top: "nn d ''run_id'' = None" using config_lookup(7)[OF ok] jeq_same(1)[OF eq] by (simp add: nn_def)
  have sub: "map_option (sprint sp) (nn c ''run_id'') = rc_RunId pb" by (rule jeq_opt_str[OF c(1) configurable_lookup(11)[OF pok]])
  have ne: "rc_RunId pb \<noteq> Some []" using pok by (simp add: configurable_ok_def)
  show ?thesis
  proof (cases "configurableFromProto E pb = []")
    case True
    with configurable_lookup(11)[OF pok] have "rc_RunId pb = None" by simp
    with True c(2) top show ?thesis by (simp add: config_run_id_def)
  next
    case False
    with c(2) top sub ne show ?thesis by (cases "nn c ''run_id''") (auto simp: config_run_id_def Let_def)
  qed
qed

lemma config_back:
  assumes ok: "config_ok E pb" and eq: "jeq (JObj (ConfigProtoToDict E (Some pb))) (JObj d)" and ms: "marshal_sorts E" and "d \<noteq> []"
  shows "\<exists>pb'. ConfigDictToProto E G sp d = Some pb' \<and> same_config E pb pb'"
proof -
  obtain c where c: "jeq (JObj (configurableFromProto E pb)) (JObj c)" "j_obj (map_of d ''configurable'') = (if configurableFromProto E pb = [] then None else Some c)"
    "configurableFromProto E pb = [] \<longrightarrow> c = []" by (rule jeq_section[OF eq config_lookup(1)[OF ok]])
  obtain m where m: "jeq (JObj (config_meta E pb)) (JObj m)" "j_obj (map_of d ''metadata'') = (if config_meta E pb = [] then None else Some m)"
    "config_meta E pb = [] \<longrightarrow> m = []" by (rule jeq_section[OF eq config_lookup(2)[OF ok]])
  let ?b = "config_base E G sp d m" and ?x = "obj_entries (\<lambda>v. Some (go_marshal E v)) (filter (\<lambda>kv. fst kv \<notin> set knownConfigTopLevelKeys) d)"
  let ?pb = "(injectConfigurableIntoProto E sp c ?b)\<lparr>rc_ExtraJson := ?x\<rparr>"
  have okc: "configurable_ok E pb" "int32_ok (rc_MaxConcurrency pb)" "int32_ok (rc_RecursionLimit pb)" "int32_ok (rc_RunAttempt pb)"
    "rc_RunName pb \<noteq> Some []" "rc_MaxConcurrency pb \<noteq> Some 0" "rc_RecursionLimit pb \<noteq> Some 0" using ok by (simp_all add: config_ok_def)
  have je: "json_entries E (rc_MetadataJson pb)" "fst ` set (rc_MetadataJson pb) \<inter> {''run_attempt'', ''run_id''} = {}"
    "json_entries E (rc_ExtraJson pb)" "fst ` set (rc_ExtraJson pb) \<inter> set knownConfigTopLevelKeys = {}" using ok by (simp_all add: config_ok_def)
  note look = config_lookup[OF ok] and base = config_base_def empty_config_def Let_def
  have "rc_RunAttempt ?b = rc_RunAttempt pb" using toInt32_back[OF m(1) meta_lookup(2)[OF ok] okc(4)] by (simp add: base)
  moreover have "rc_ServerRunId ?b = rc_ServerRunId pb"
    using meta_lookup(1)[OF ok] jeq_same(1,2)[OF m(1)] by (cases "rc_ServerRunId pb") (simp_all add: base sprint_def)
  moreover have "map_of (rc_MetadataJson ?b) = map_of (rc_MetadataJson pb)"
    using entries_back[OF m(1) ms je(1) meta_lookup(3)[OF ok] je(2)] by (simp add: base)
  moreover have "rc_RunName ?b = rc_RunName pb"
    using look(4) jeq_same(1,2)[OF eq, of "''run_name''"] okc(5) by (cases "rc_RunName pb") (simp_all add: base)
  moreover have "rc_RunId ?b = rc_RunId pb" using run_id_back[OF ok eq c(1,2), of sp] by (simp add: base)
  moreover have "rc_MaxConcurrency ?b = rc_MaxConcurrency pb" "rc_RecursionLimit ?b = rc_RecursionLimit pb"
    using toInt32_back[OF eq look(5) okc(2)] toInt32_back[OF eq look(6) okc(3)] okc(6,7) by (auto simp: base split: option.splits)
  moreover have "rc_Tags ?b = rc_Tags pb"
    using look(3) jeq_same(1,5)[OF eq, of "''tags''"] by (cases "rc_Tags pb = []") (auto simp: base sprint_def comp_def)
  moreover have "map_of ?x = map_of (rc_ExtraJson pb)"
    by (rule entries_back[OF eq ms je(3) look(8) je(4)])
  moreover have "rc_GraphId ?b = None" by (simp add: base)
  ultimately have "same_config E pb ?pb"
    using inject_back[OF okc(1) c(1) ms] by (simp add: same_config_def same_configurable_extra inject_keeps)
  with ConfigDictToProto_parts[OF assms(4) m(2,3) c(2,3)] show ?thesis by blast
qed

section \<open>Through the column\<close>

lemma map_of_none_nil: "map_of xs = Map.empty \<Longrightarrow> xs = []"
  by (cases xs) (auto simp: fun_eq_iff split: if_splits)

lemma configurable_nothing:
  assumes "same_configurable E pb empty_config" and "configurable_ok E pb"
  shows "configurableFromProto E pb = []"
proof -
  have x: "map_of (rc_ExtraConfigurableJson pb) k = None" for k
  proof (cases "k = ''run_id'' \<or> k = ''graph_id''")
    case True
    with extra_free(1)[OF assms(2), of k] show ?thesis by (cases "map_of (rc_ExtraConfigurableJson pb) k") auto
  next
    case False
    with assms(1)[unfolded same_configurable_def, THEN conjunct2, THEN conjunct2, THEN conjunct2, THEN conjunct2, THEN conjunct2,
        THEN conjunct2, THEN conjunct2, THEN conjunct2, THEN conjunct2, THEN conjunct2, THEN spec, of k]
    show ?thesis by (simp add: empty_config_def)
  qed
  have ids: "rc_RunId pb = None" "rc_GraphId pb = None"
    using assms(1) unfolding same_configurable_def by (auto simp: empty_config_def dest: spec[of _ "''run_id''"] spec[of _ "''graph_id''"])
  have "rc_ExtraConfigurableJson pb = []" by (rule map_of_none_nil) (rule ext, rule x)
  moreover have "rc_CheckpointMap pb = []"
    using assms(1) by (intro map_of_none_nil) (simp add: same_configurable_def empty_config_def)
  ultimately show ?thesis
    using assms(1) ids by (simp add: same_configurable_def empty_config_def configurableFromProto_def put_opt_def put_json_def nonempty_str_def)
qed

lemma config_nothing:
  assumes "same_config E pb empty_config" and "config_ok E pb"
  shows "ConfigProtoToDict E (Some pb) = []"
proof -
  have "rc_MetadataJson pb = []" "rc_ExtraJson pb = []"
    using assms(1) by (auto simp: same_config_def empty_config_def intro!: map_of_none_nil)
  moreover have "configurableFromProto E pb = []"
    using assms by (intro configurable_nothing) (simp_all add: same_config_def config_ok_def)
  ultimately show ?thesis
    using assms(1) by (simp add: same_config_def empty_config_def ConfigProtoToDict_def put_opt_def put_json_def)
qed

text \<open>What \<^verbatim>\<open>json.Unmarshal\<close> makes of nothing and of the empty object.\<close>

definition plain_json :: "env \<Rightarrow> bool" where
  "plain_json E \<longleftrightarrow> go_json E [] = None \<and> go_json E ''{}'' = Some (JObj [])"

lemma not_legacy:
  assumes "config_ok E pb" and "fst ` set (rc_ExtraJson pb) \<inter> set legacyOnlyConfigKeys = {}"
    and "jeq (JObj (ConfigProtoToDict E (Some pb))) (JObj d)"
  shows "\<not> isLegacyConfigShape d"
proof
  assume "isLegacyConfigShape d"
  then obtain k where k: "k \<in> set legacyOnlyConfigKeys" "map_of d k \<noteq> None"
    by (auto simp: isLegacyConfigShape_def list_ex_iff map_of_eq_None_iff)
  have D: "map_of (ConfigProtoToDict E (Some pb)) k \<noteq> None"
  proof
    assume "map_of (ConfigProtoToDict E (Some pb)) k = None"
    from jeq_absent[OF assms(3) this] k(2) show False by simp
  qed
  have "k \<notin> set knownConfigTopLevelKeys" using k(1) by (auto simp: legacyOnlyConfigKeys_def knownConfigTopLevelKeys_def)
  from config_lookup(8)[OF assms(1) this] not_key[OF assms(2) k(1)] D show False by simp
qed

lemma decode_back:
  assumes ok: "config_ok E pb" and free: "fst ` set (rc_ExtraJson pb) \<inter> set legacyOnlyConfigKeys = {}"
    and "marshal_sorts E" "plain_json E" and car: "carried E (JObj (ConfigProtoToDict E (Some pb)))" and ne: "ConfigProtoToDict E (Some pb) \<noteq> []"
    and j: "pg_jsonb E (go_marshal E (JObj (ConfigProtoToDict E (Some pb)))) = Some j"
  shows "\<exists>pb'. decodeConfig E G sp cj (pg_text E j) = Some pb' \<and> same_config E pb pb'"
proof -
  from car j obtain j2 where j2: "go_json E (pg_text E j) = Some j2" "jeq (JObj (ConfigProtoToDict E (Some pb))) j2"
    by (auto simp: carried_def)
  then obtain d where d: "j2 = JObj d" "jeq (JObj (ConfigProtoToDict E (Some pb))) (JObj d)" by (auto simp: jeq_simps)
  obtain k v rest where "ConfigProtoToDict E (Some pb) = (k, v) # rest" using ne by (metis list.exhaust surj_pair)
  then have "map_of (ConfigProtoToDict E (Some pb)) k = Some v" by simp
  then have dne: "d \<noteq> []" by (auto elim: jeq_lookup[OF d(2)])
  obtain pb' where pb': "ConfigDictToProto E G sp d = Some pb'" "same_config E pb pb'"
    using config_back[OF ok d(2) assms(3) dne] by blast
  have "pb' \<noteq> empty_config" using config_nothing[OF _ ok] pb'(2) ne by blast
  moreover have "pg_text E j \<noteq> [] \<and> pg_text E j \<noteq> ''{}''" using j2(1) d(1) dne assms(4) by (auto simp: plain_json_def)
  ultimately show ?thesis
    using j2(1) d(1) dne pb' not_legacy[OF ok free d(2)] by (simp add: decodeConfig_def)
qed

section \<open>Create, then Get\<close>

lemma asst_Get_run:
  assumes "faults w = []" and "pg_uuid E s = Some i" and "filter (\<lambda>a. a_assistant_id a = i) (assistants (db w)) = [row]"
  shows "asst_Get E s [] w = (Inr (assistantCols E row), w)"
  using assms by (simp add: asst_Get_def ApplyToQuery_def bnd_def lift_def query_run asst_where_def cast_uuid_def of_opt_def auth_where_def first_row_def ret_def)

lemma asst_svc_Create_Inr:
  assumes "asst_svc_Create E G sp cj gen rq w = (Inr a, w')"
  obtains x where "asst_Create E gen (asst_create_in E rq) w = (Inr x, w')" and "a = asst_toPB E G sp cj x"
  using assms by (auto simp: asst_svc_Create_def call_def answer_def refuse_def split: prod.splits sum.splits)


definition sample_cfg :: RunnableConfig where
  "sample_cfg = empty_config\<lparr>rc_RunName := Some ''n'', rc_ThreadId := Some ''t'', rc_GraphId := Some ''g'', rc_Tags := [''x'']\<rparr>"

definition sample_cfg_env :: env where
  "sample_cfg_env = sample_env\<lparr>
     pg_jsonb := (\<lambda>s. if s = ''{}'' then Some empty_obj else if s = ''c'' then Some (JObj (ConfigProtoToDict sample_env (Some sample_cfg))) else None),
     pg_text := (\<lambda>j. if j = empty_obj then ''{}'' else ''c''), go_marshal := (\<lambda>j. if j = empty_obj then ''{}'' else ''c''),
     go_json := (\<lambda>s. if s = ''{}'' then Some empty_obj else if s = ''c'' then Some (JObj (ConfigProtoToDict sample_env (Some sample_cfg))) else None)\<rparr>"

definition sample_asst_request :: CreateAssistantRequest where
  "sample_asst_request = \<lparr>nq_AssistantId = ''a2'', nq_GraphId = ''g'', nq_Name = ''n'', nq_Description = None, nq_Config = Some sample_cfg,
     nq_ContextJson = None, nq_MetadataJson = None, nq_IfExists = 0, nq_Filters = []\<rparr>"

definition sample_pbenv :: pbenv where
  "sample_pbenv = \<lparr>pb_marshal = (\<lambda>_. None), pb_unmarshal = (\<lambda>_. None), f2u64 = (\<lambda>_. 0), f2i32 = (\<lambda>_. 0)\<rparr>"

lemma sample_dict: "ConfigProtoToDict E (Some sample_cfg) =
   [(''run_name'', JStr ''n''), (''tags'', JArr [JStr ''x'']),
    (''configurable'', JObj [(''graph_id'', JStr ''g''), (''thread_id'', JStr ''t'')])]"
  by (simp add: ConfigProtoToDict_def sample_cfg_def empty_config_def configurableFromProto_def put_opt_def put_json_def nonempty_str_def mput_def Let_def)

lemma sample_sorts: "marshal_sorts sample_cfg_env"
proof -
  have "(x = empty_obj) = (y = empty_obj)" if "jeq x y" for x y
    using that
  proof cases
    case (jeq_obj a b)
    then have "(a = []) = (b = [])" using map_of_none_nil[of a] map_of_none_nil[of b] by (metis map_of.simps(1) option.distinct(1) ext)
    with jeq_obj show ?thesis by (simp add: empty_obj_def)
  qed (simp_all add: empty_obj_def)
  then show ?thesis by (simp add: marshal_sorts_def sample_cfg_env_def)
qed

lemma sample_carried: "carried sample_cfg_env (JObj (ConfigProtoToDict sample_cfg_env (Some sample_cfg)))"
  by (simp add: carried_def sample_cfg_env_def sample_dict empty_obj_def jeq_refl)


end
