(* ===== verification/Startup.thy ===== *)
theory Startup
  imports Admin Runs_Signals Threads_Store Config_Env "HOL-Library.Word"
begin

text \<open>
  Starting the server: \<^verbatim>\<open>main\<close> (\<^verbatim>\<open>cmd/lsd/main.go\<close>) with the constructors it calls (\<^verbatim>\<open>internal/db\<close>, \<^verbatim>\<open>internal/redis\<close>, \<^verbatim>\<open>internal/tracing\<close>,
  \<^verbatim>\<open>internal/server\<close>), the three loops it leaves running in the background, and the connection statistics of the run service. What the driver,
  the Redis client, the migration tool, the exporter and the network answer is the record \<open>host\<close>, an argument; a panic is a value of its own.
\<close>

section \<open>The database pool and the migrations\<close>

datatype up_result = UpDone | NoChange | UpErr string

record host =
  h_exporter :: "string \<Rightarrow> bool \<Rightarrow> string option"
  h_resource :: "string \<Rightarrow> string \<Rightarrow> string option"
  h_pg_parse :: "string \<Rightarrow> string + int"
  h_pg_connect :: "string \<Rightarrow> int \<Rightarrow> string option"
  h_pg_ping :: "string option"
  h_redis_parse :: "string \<Rightarrow> string + int"
  h_redis_ping :: "string option"
  h_iofs :: "string option"
  h_migrate_init :: "string \<Rightarrow> string option"
  h_migrate_up :: "up_result"
  h_listen :: "string \<Rightarrow> string option"

text \<open>The conversion \<^verbatim>\<open>int32(n)\<close> keeps the low 32 bits.\<close>

definition int32 :: "int \<Rightarrow> int" where
  "int32 i = sint (word_of_int i :: 32 word)"

text \<open>\<^verbatim>\<open>db.New\<close>: the size of the pool, or the error. \<open>h_pg_parse\<close> gives the size the driver takes from the URL or by default.\<close>

definition db_New :: "host \<Rightarrow> string \<Rightarrow> int \<Rightarrow> string + int" where
  "db_New H dsn maxConns =
     (case h_pg_parse H dsn of
        Inl e \<Rightarrow> Inl (''parse dsn: '' @ e)
      | Inr d \<Rightarrow>
          (let MaxConns = (if maxConns > 0 then maxConns else d)
           in case h_pg_connect H dsn MaxConns of
                Some e \<Rightarrow> Inl (''connect: '' @ e)
              | None \<Rightarrow> (case h_pg_ping H of Some e \<Rightarrow> Inl (''ping: '' @ e) | None \<Rightarrow> Inr MaxConns)))"

definition TrimPrefix :: "string \<Rightarrow> string \<Rightarrow> string" where
  "TrimPrefix s p = (if take (length p) s = p then drop (length p) s else s)"

definition HasPrefix :: "string \<Rightarrow> string \<Rightarrow> bool" where
  "HasPrefix s p = (take (length p) s = p)"

definition migrateDSN :: "string \<Rightarrow> string" where
  "migrateDSN dsn =
     (if HasPrefix dsn ''postgres://'' then ''pgx5://'' @ TrimPrefix dsn ''postgres://''
      else if HasPrefix dsn ''postgresql://'' then ''pgx5://'' @ TrimPrefix dsn ''postgresql://''
      else dsn)"

definition Migrate :: "host \<Rightarrow> string \<Rightarrow> string option" where
  "Migrate H dsn =
     (case h_iofs H of
        Some e \<Rightarrow> Some (''iofs: '' @ e)
      | None \<Rightarrow> (case h_migrate_init H (migrateDSN dsn) of
          Some e \<Rightarrow> Some (''migrate init: '' @ e)
        | None \<Rightarrow> (case h_migrate_up H of UpErr e \<Rightarrow> Some (''migrate up: '' @ e) | _ \<Rightarrow> None)))"

section \<open>Redis and tracing\<close>

definition redis_New :: "host \<Rightarrow> string \<Rightarrow> int \<Rightarrow> string + int" where
  "redis_New H url PoolSize =
     (case h_redis_parse H url of
        Inl e \<Rightarrow> Inl (''parse redis url: '' @ e)
      | Inr d \<Rightarrow> (case h_redis_ping H of
          Some e \<Rightarrow> Inl (''redis ping: '' @ e)
        | None \<Rightarrow> Inr (if PoolSize > 0 then PoolSize else d)))"

text \<open>\<^verbatim>\<open>tracing.Init\<close>: \<open>Inr False\<close> is the no-op, \<open>Inr True\<close> a provider that exports spans.\<close>

definition tracing_Init :: "host \<Rightarrow> environ \<Rightarrow> string \<Rightarrow> string \<Rightarrow> string + bool" where
  "tracing_Init H env serviceName version =
     (let endpoint = env ''OTEL_EXPORTER_OTLP_ENDPOINT''
      in if endpoint = [] then Inr False
         else case h_exporter H endpoint (env ''OTEL_EXPORTER_OTLP_INSECURE'' = ''true'') of
           Some e \<Rightarrow> Inl e
         | None \<Rightarrow> (case h_resource H serviceName version of Some e \<Rightarrow> Inl e | None \<Rightarrow> Inr True))"

section \<open>The log level\<close>

datatype Level = LevelDebug | LevelInfo | LevelWarn | LevelError

definition logger_level :: "string \<Rightarrow> Level" where
  "logger_level level =
     (let l = map lower level
      in if l = ''debug'' then LevelDebug else if l = ''warn'' then LevelWarn else if l = ''error'' then LevelError else LevelInfo)"

section \<open>The server\<close>

datatype grpc_service = LsdAdmin | CoreAdmin | Assistants | Threads | Runs | Crons | Checkpointer | Cache | Health | Reflection

record Deps =
  dep_Admin :: bool
  dep_Assistants :: bool
  dep_Threads :: bool
  dep_Runs :: bool
  dep_Crons :: bool
  dep_Checkpointer :: bool
  dep_Cache :: bool

text \<open>\<^verbatim>\<open>server.New\<close>: what is registered, in this order; a nil dependency is left out.\<close>

definition server_New :: "Deps \<Rightarrow> grpc_service list" where
  "server_New d =
     (if dep_Admin d then [LsdAdmin, CoreAdmin] else []) @ (if dep_Assistants d then [Assistants] else []) @
     (if dep_Threads d then [Threads] else []) @ (if dep_Runs d then [Runs] else []) @ (if dep_Crons d then [Crons] else []) @
     (if dep_Checkpointer d then [Checkpointer] else []) @ (if dep_Cache d then [Cache] else []) @ [Health, Reflection]"

section \<open>The background loops\<close>

text \<open>
  What a loop sees, in order: other parts of the installation change the world, the ticker fires (with the advisory locks that are free at that
  moment), the context is cancelled. A \<^verbatim>\<open>time.Ticker\<close> of a duration that is not positive panics, and a panic of a goroutine ends the process:
  the value \<open>None\<close>.
\<close>

datatype loop_ev = Others "world \<Rightarrow> world" | Ticker "int \<Rightarrow> bool" | CtxCancelled

fun background :: "((int \<Rightarrow> bool) \<Rightarrow> world \<Rightarrow> world) \<Rightarrow> loop_ev list \<Rightarrow> world \<Rightarrow> world" where
  "background beat [] w = w"
| "background beat (Others f # evs) w = background beat evs (f w)"
| "background beat (Ticker free # evs) w = background beat evs (beat free w)"
| "background beat (CtxCancelled # evs) w = w"

definition reaper_interval :: "int \<Rightarrow> int" where
  "reaper_interval Interval = (if Interval = 0 then 30 * Second else Interval)"

definition RunReaper :: "svc \<Rightarrow> int \<Rightarrow> loop_ev list \<Rightarrow> world \<Rightarrow> world option" where
  "RunReaper S Interval evs w =
     (if reaper_interval Interval \<le> 0 then None else Some (background (\<lambda>_. reaper_tick S) evs w))"

record LoopConfig =
  lc_Interval :: int
  lc_AdvisoryKey :: int

definition scheduler_defaults :: "LoopConfig \<Rightarrow> LoopConfig" where
  "scheduler_defaults cfg = \<lparr>lc_Interval = (if lc_Interval cfg = 0 then 60 * Second else lc_Interval cfg),
     lc_AdvisoryKey = (if lc_AdvisoryKey cfg = 0 then 8472637261 else lc_AdvisoryKey cfg)\<rparr>"

text \<open>The scheduler ticks once before it waits for its ticker; \<open>free\<close> are the locks free at that moment.\<close>

definition CronScheduler :: "cronenv \<Rightarrow> env \<Rightarrow> 'r runs_creator \<Rightarrow> LoopConfig \<Rightarrow> (int \<Rightarrow> bool) \<Rightarrow> loop_ev list \<Rightarrow> world \<Rightarrow> world option" where
  "CronScheduler C E rc cfg0 free evs w =
     (let cfg = scheduler_defaults cfg0; beat = (\<lambda>fr v. snd (schedulerTick C E rc (fr (lc_AdvisoryKey cfg)) v))
      in if lc_Interval cfg \<le> 0 then None else Some (background beat evs (beat free w)))"

definition sweeper_defaults :: "LoopConfig \<Rightarrow> LoopConfig" where
  "sweeper_defaults cfg = \<lparr>lc_Interval = (if lc_Interval cfg = 0 then 60 * Second else lc_Interval cfg),
     lc_AdvisoryKey = (if lc_AdvisoryKey cfg = 0 then 8472637262 else lc_AdvisoryKey cfg)\<rparr>"

definition TTLSweeper :: "LoopConfig \<Rightarrow> loop_ev list \<Rightarrow> world \<Rightarrow> world option" where
  "TTLSweeper cfg0 evs w =
     (let cfg = sweeper_defaults cfg0
      in if lc_Interval cfg \<le> 0 then None
         else Some (background (\<lambda>fr v. snd (ttlSweepTick (fr (lc_AdvisoryKey cfg)) v)) evs w))"

section \<open>main\<close>

record running =
  ru_level :: Level
  ru_pool :: int
  ru_redis_pool :: int
  ru_tracing :: bool
  ru_services :: "grpc_service list"
  ru_admin :: AdminService
  ru_svc :: "(redis_cmd \<Rightarrow> string option) \<Rightarrow> svc"
  ru_reaper :: int
  ru_scheduler :: LoopConfig
  ru_sweeper :: LoopConfig

datatype boot = Fatal string | Panicked | Serving running

definition lsd_version :: string where
  "lsd_version = ''0.1.0''"

definition all_deps :: Deps where
  "all_deps = \<lparr>dep_Admin = True, dep_Assistants = True, dep_Threads = True, dep_Runs = True, dep_Crons = True,
     dep_Checkpointer = True, dep_Cache = True\<rparr>"

text \<open>The end of \<^verbatim>\<open>main\<close>: the services are built and the loops started; the first ticker of a bad interval ends the process.\<close>

definition start_loops :: "Config \<Rightarrow> int \<Rightarrow> int \<Rightarrow> bool \<Rightarrow> boot" where
  "start_loops cfg pool rpool trace =
     (let sched = \<lparr>lc_Interval = CronInterval cfg, lc_AdvisoryKey = 0\<rparr>; sweep = \<lparr>lc_Interval = ThreadTTLSweepInterval cfg, lc_AdvisoryKey = 0\<rparr>
      in if reaper_interval (ReaperInterval cfg) \<le> 0 \<or> lc_Interval (scheduler_defaults sched) \<le> 0 \<or> lc_Interval (sweeper_defaults sweep) \<le> 0
         then Panicked
         else Serving \<lparr>ru_level = logger_level (LogLevel cfg), ru_pool = pool, ru_redis_pool = rpool, ru_tracing = trace, ru_services = server_New all_deps,
           ru_admin = admin_New lsd_version ''1'',
           ru_svc = (\<lambda>err. \<lparr>sv_rdb = True, sv_streamer = True, sv_cfg = Some cfg, sv_redis_err = err\<rparr>),
           ru_reaper = ReaperInterval cfg, ru_scheduler = sched, ru_sweeper = sweep\<rparr>)"

definition main :: "host \<Rightarrow> environ \<Rightarrow> boot" where
  "main H env =
     (case Load env of Inl e \<Rightarrow> Fatal (''config: '' @ e) | Inr cfg \<Rightarrow>
      case tracing_Init H env ''lsd'' lsd_version of Inl e \<Rightarrow> Fatal (''tracing: '' @ e) | Inr trace \<Rightarrow>
      case db_New H (DatabaseURL cfg) (int32 (DBPoolMaxConns cfg)) of Inl e \<Rightarrow> Fatal (''db: '' @ e) | Inr pool \<Rightarrow>
      case redis_New H (RedisURL cfg) (RedisPoolSize cfg) of Inl e \<Rightarrow> Fatal (''redis: '' @ e) | Inr rpool \<Rightarrow>
      case Migrate H (DatabaseURL cfg) of Some e \<Rightarrow> Fatal (''migrate: '' @ e) | None \<Rightarrow>
      case h_listen H (GRPCAddr cfg) of Some e \<Rightarrow> Fatal (''listen '' @ GRPCAddr cfg @ '': '' @ e) | None \<Rightarrow>
      start_loops cfg pool rpool trace)"

section \<open>Connection statistics\<close>

record PgStat =
  pg_MaxConns :: int
  pg_TotalConns :: int
  pg_IdleConns :: int
  pg_EmptyAcquireCount :: int

record RdStat =
  rd_TotalConns :: "32 word"
  rd_IdleConns :: "32 word"

record PostgresPoolStats =
  pp_PoolMax :: int
  pp_PoolSize :: int
  pp_PoolAvailable :: int
  pp_RequestsQueued :: int
  pp_RequestsErrors :: int

record RedisPoolStats =
  rp_IdleConnections :: int
  rp_InUseConnections :: int
  rp_MaxConnections :: int

text \<open>\<^verbatim>\<open>PoolStats\<close>: the counters of go-redis are \<^verbatim>\<open>uint32\<close>, the answer is \<^verbatim>\<open>int32\<close>; the subtraction wraps.\<close>

definition runs_svc_PoolStats :: "svc \<Rightarrow> PgStat \<Rightarrow> RdStat \<Rightarrow> (PostgresPoolStats \<times> RedisPoolStats) rpc" where
  "runs_svc_PoolStats S pgStat rdStat =
     (if \<not> sv_rdb S then refuse Unavailable
      else let diff = sint (rd_TotalConns rdStat - rd_IdleConns rdStat); inUse = (if diff < 0 then 0 else diff)
      in answer (\<lparr>pp_PoolMax = pg_MaxConns pgStat, pp_PoolSize = pg_TotalConns pgStat, pp_PoolAvailable = pg_IdleConns pgStat,
                   pp_RequestsQueued = pg_EmptyAcquireCount pgStat, pp_RequestsErrors = 0\<rparr>,
                 \<lparr>rp_IdleConnections = sint (rd_IdleConns rdStat), rp_InUseConnections = inUse,
                   rp_MaxConnections = sint (rd_TotalConns rdStat)\<rparr>))"

section \<open>Lemmas on the parts\<close>

lemma background_append: "CtxCancelled \<notin> set pre \<Longrightarrow> background f (pre @ post) w = background f post (background f pre w)"
  by (induction f pre w rule: background.induct) auto

text \<open>Nothing happens after the context is cancelled.\<close>

lemma background_stops: "background f (pre @ CtxCancelled # post) w = background f (pre @ [CtxCancelled]) w"
  by (induction f pre w rule: background.induct) auto

text \<open>A replica that never gets the lock leaves the tables to the replica that has it.\<close>

lemma background_invariant:
  assumes "I w" and "\<And>g v. g \<in> G \<Longrightarrow> I v \<Longrightarrow> I (f g v)" and "\<And>g v. Others g \<in> set evs \<Longrightarrow> I v \<Longrightarrow> I (g v)"
    and "\<And>g. Ticker g \<in> set evs \<Longrightarrow> g \<in> G"
  shows "I (background f evs w)"
  using assms by (induction f evs w rule: background.induct) auto

lemma tick_without_lock: "db (snd (ttlSweepTick False w)) = db w" "db (snd (schedulerTick C E rc False w)) = db w"
  by (simp_all add: ttlSweepTick_def schedulerTick_def bnd_def query_alt ret_def split: option.splits)

text \<open>The scheme is replaced, the rest of the URL stays; a URL with another scheme, the result itself for one, is left alone.\<close>

lemma migrateDSN_scheme:
  "migrateDSN (''postgres://'' @ r) = ''pgx5://'' @ r" "migrateDSN (''postgresql://'' @ r) = ''pgx5://'' @ r"
  "migrateDSN (migrateDSN dsn) = migrateDSN dsn"
  by (simp_all add: migrateDSN_def HasPrefix_def TrimPrefix_def)

lemma int32_id: "- (2 ^ 31) \<le> n \<Longrightarrow> n < 2 ^ 31 \<Longrightarrow> int32 n = n"
  by (simp add: int32_def signed_of_int signed_take_bit_int_eq_self_iff)

text \<open>
  The statistics of the Redis pool: what is in use is never negative, and with fewer than 2^31 connections, the idle ones among them, the
  numbers add up.
\<close>

lemma pool_stats_bounds:
  assumes "runs_svc_PoolStats S p r w = (Inr (pp, rp), w')"
  shows "0 \<le> rp_InUseConnections rp \<and> w' = w \<and>
    (rd_IdleConns r \<le> rd_TotalConns r \<and> uint (rd_TotalConns r) < 2 ^ 31 \<longrightarrow>
       rp_IdleConnections rp + rp_InUseConnections rp = rp_MaxConnections rp \<and> rp_MaxConnections rp = uint (rd_TotalConns r))"
proof -
  have small: "sint x = uint x" if "uint x < 2 ^ 31" for x :: "32 word"
    using that by (simp add: sint_uint signed_take_bit_int_eq_self_iff order.trans[OF _ uint_ge_0])
  have "rp_IdleConnections rp + rp_InUseConnections rp = rp_MaxConnections rp \<and> rp_MaxConnections rp = uint (rd_TotalConns r)"
    if le: "rd_IdleConns r \<le> rd_TotalConns r" and t: "uint (rd_TotalConns r) < 2 ^ 31"
  proof -
    have d: "uint (rd_TotalConns r - rd_IdleConns r) = uint (rd_TotalConns r) - uint (rd_IdleConns r)"
      using le by (simp add: uint_sub_if' word_le_def)
    have "uint (rd_IdleConns r) \<le> uint (rd_TotalConns r)" using le by (simp add: word_le_def)
    moreover from this have "uint (rd_IdleConns r) < 2 ^ 31" "uint (rd_TotalConns r - rd_IdleConns r) < 2 ^ 31"
      using t uint_ge_0[of "rd_IdleConns r"] unfolding d by linarith+
    ultimately have "sint (rd_TotalConns r) = uint (rd_TotalConns r)" "sint (rd_IdleConns r) = uint (rd_IdleConns r)"
        "sint (rd_TotalConns r - rd_IdleConns r) = uint (rd_TotalConns r) - uint (rd_IdleConns r)"
        "uint (rd_IdleConns r) \<le> uint (rd_TotalConns r)"
      using small t d by auto
    with assms
    show ?thesis by (auto simp: runs_svc_PoolStats_def refuse_def answer_def Let_def split: if_splits)
  qed
  with assms show ?thesis by (auto simp: runs_svc_PoolStats_def refuse_def answer_def Let_def split: if_splits)
qed

section \<open>Starting up\<close>

definition loop_vars :: "string list" where
  "loop_vars = [''LSD_REAPER_INTERVAL_SECONDS'', ''LSD_CRON_INTERVAL_SECONDS'', ''LSD_THREAD_TTL_SWEEP_INTERVAL_SECONDS'']"

text \<open>Every service the process depends on answers.\<close>

definition host_ok :: "host \<Rightarrow> environ \<Rightarrow> bool" where
  "host_ok H env \<longleftrightarrow> env ''LSD_DATABASE_URL'' \<noteq> [] \<and> env ''LSD_REDIS_URL'' \<noteq> [] \<and> h_exporter H = (\<lambda>_ _. None) \<and>
     h_resource H = (\<lambda>_ _. None) \<and> \<not> isl (h_pg_parse H (env ''LSD_DATABASE_URL'')) \<and> h_pg_connect H = (\<lambda>_ _. None) \<and>
     h_pg_ping H = None \<and> \<not> isl (h_redis_parse H (env ''LSD_REDIS_URL'')) \<and> h_redis_ping H = None \<and> h_iofs H = None \<and>
     h_migrate_init H = (\<lambda>_. None) \<and> h_migrate_up H \<in> {UpDone, NoChange} \<and> h_listen H = (\<lambda>_. None)"

text \<open>A setting that the multiplication turns into a negative duration.\<close>

definition wraps :: "environ \<Rightarrow> string \<Rightarrow> bool" where
  "wraps env k \<longleftrightarrow> (case ParseInt (env k) of None \<Rightarrow> False | Some n \<Rightarrow> 0 < n \<and> int64_wrap (n * Second) < 0)"

lemma ParseInt_Nil [simp]: "ParseInt [] = None"
  by (simp add: ParseInt_def)

lemma getEnvSeconds_neg: "0 < d \<Longrightarrow> getEnvSeconds env k d < 0 \<longleftrightarrow> wraps env k"
  by (auto simp: getEnvSeconds_def wraps_def split: option.splits)

lemma wraps_large: "wraps env k \<Longrightarrow> \<exists>n. ParseInt (env k) = Some n \<and> 9223372036 < n"
proof -
  assume "wraps env k"
  then obtain n where n: "ParseInt (env k) = Some n" "0 < n" "int64_wrap (n * Second) < 0"
    by (auto simp: wraps_def split: option.splits)
  have "int64_wrap (n * Second) = n * Second" if "n \<le> 9223372036"
    using n(2) that by (simp add: int64_wrap_def Second_def)
  with n show ?thesis by (force simp: Second_def not_less[symmetric])
qed

lemma interval_pos: "(if i = 0 then d else i) \<le> 0 \<longleftrightarrow> i < 0" if "0 < d" for i d :: int
  using that by auto

lemma start_loops_panic:
  "start_loops cfg pool rpool trace = Panicked \<longleftrightarrow> ReaperInterval cfg < 0 \<or> CronInterval cfg < 0 \<or> ThreadTTLSweepInterval cfg < 0"
  by (simp add: start_loops_def reaper_interval_def scheduler_defaults_def sweeper_defaults_def interval_pos Second_def Let_def)

lemma main_reaches_loops:
  assumes "host_ok H env"
  obtains cfg rpool trace where "Load env = Inr cfg"
    and "main H env = start_loops cfg (projr (db_New H (DatabaseURL cfg) (int32 (DBPoolMaxConns cfg)))) rpool trace"
    and "\<not> isl (db_New H (DatabaseURL cfg) (int32 (DBPoolMaxConns cfg)))"
proof -
  obtain cfg where l: "Load env = Inr cfg" and u: "DatabaseURL cfg = env ''LSD_DATABASE_URL''" "RedisURL cfg = env ''LSD_REDIS_URL''"
    using assms by (auto simp: host_ok_def Load_def Let_def)
  have "\<not> isl (tracing_Init H env ''lsd'' lsd_version)"
    using assms by (simp add: host_ok_def tracing_Init_def Let_def)
  moreover have "\<not> isl (db_New H (DatabaseURL cfg) (int32 (DBPoolMaxConns cfg)))"
    using assms u by (cases "h_pg_parse H (env ''LSD_DATABASE_URL'')") (auto simp: host_ok_def db_New_def Let_def)
  moreover have "\<not> isl (redis_New H (RedisURL cfg) (RedisPoolSize cfg))"
    using assms u by (cases "h_redis_parse H (env ''LSD_REDIS_URL'')") (auto simp: host_ok_def redis_New_def)
  ultimately obtain trace pool rpool where "tracing_Init H env ''lsd'' lsd_version = Inr trace"
      "db_New H (DatabaseURL cfg) (int32 (DBPoolMaxConns cfg)) = Inr pool" "redis_New H (RedisURL cfg) (RedisPoolSize cfg) = Inr rpool"
    by (metis sum.collapse(2))
  moreover have "Migrate H (DatabaseURL cfg) = None" "h_listen H (GRPCAddr cfg) = None"
    using assms by (auto simp: host_ok_def Migrate_def split: up_result.splits)
  ultimately show thesis using that[OF l, of rpool trace] l by (simp add: main_def)
qed

lemma pool_size_taken:
  assumes "Load env = Inr cfg" and "env ''LSD_DB_POOL_MAX_CONNS'' = int_str n" and "0 < n" and "n < 2 ^ 31"
    and "db_New H dsn (int32 (DBPoolMaxConns cfg)) = Inr p"
  shows "p = n"
proof -
  have "ParseInt (int_str n) = Some n" using ParseInt_int_str[of n] assms(3,4) by simp
  moreover from this have "int_str n \<noteq> []" by auto
  ultimately have "DBPoolMaxConns cfg = n"
    using assms(1-3) by (auto simp: Load_def getEnvInt_def Let_def split: if_splits)
  then show ?thesis
    using assms(3-5) int32_id[of n] by (auto simp: db_New_def Let_def split: sum.splits option.splits)
qed

lemma loops_run:
  assumes "start_loops cfg pool rpool trace = Serving ru"
  shows "\<exists>w'. RunReaper (ru_svc ru err) (ru_reaper ru) evs w = Some w'"
    and "\<exists>w'. CronScheduler C E rc (ru_scheduler ru) free evs w = Some w'"
    and "\<exists>w'. TTLSweeper (ru_sweeper ru) evs w = Some w'"
    and "lc_AdvisoryKey (scheduler_defaults (ru_scheduler ru)) \<noteq> lc_AdvisoryKey (sweeper_defaults (ru_sweeper ru))"
    and "ru_pool ru = pool" and "ru_services ru = server_New all_deps" and "ru_admin ru = admin_New lsd_version ''1''"
  using assms
  by (auto simp: start_loops_def RunReaper_def CronScheduler_def TTLSweeper_def Let_def scheduler_defaults_def sweeper_defaults_def
      split: if_splits)

text \<open>The names \<^verbatim>\<open>Capabilities\<close> announces, and the services they stand for.\<close>

definition announced :: "(string \<times> grpc_service) list" where
  "announced = [(''threads'', Threads), (''runs'', Runs), (''assistants'', Assistants), (''crons'', Crons),
     (''checkpointer'', Checkpointer), (''cache'', Cache), (''admin'', LsdAdmin)]"

lemma Load_intervals:
  assumes "Load env = Inr cfg"
  shows "ReaperInterval cfg < 0 \<or> CronInterval cfg < 0 \<or> ThreadTTLSweepInterval cfg < 0 \<longleftrightarrow> list_ex (wraps env) loop_vars"
  using assms by (auto simp: Load_def loop_vars_def getEnvSeconds_neg Second_def Let_def split: if_splits)

lemma served_loops:
  assumes "b = start_loops cfg pool rpool trace" and "b = Serving ru"
  shows "(\<forall>err evs w. \<exists>w'. RunReaper (ru_svc ru err) (ru_reaper ru) evs w = Some w') \<and>
    (\<forall>C E (rc :: 'r runs_creator) free evs w. \<exists>w'. CronScheduler C E rc (ru_scheduler ru) free evs w = Some w') \<and>
    (\<forall>evs w. \<exists>w'. TTLSweeper (ru_sweeper ru) evs w = Some w') \<and>
    lc_AdvisoryKey (scheduler_defaults (ru_scheduler ru)) \<noteq> lc_AdvisoryKey (sweeper_defaults (ru_sweeper ru)) \<and>
    (\<exists>resp. \<forall>w. admin_Capabilities (ru_admin ru) w = (Inr resp, w) \<and> map fst announced = cr_Services resp \<and>
       snd ` set announced \<subseteq> set (ru_services ru))"
  using loops_run[OF trans[OF assms(1)[symmetric] assms(2)]]
  by (auto simp: admin_Capabilities_def answer_def announced_def server_New_def all_deps_def)


definition sample_host :: host where
  "sample_host = \<lparr>h_exporter = (\<lambda>_ _. None), h_resource = (\<lambda>_ _. None), h_pg_parse = (\<lambda>_. Inr 4), h_pg_connect = (\<lambda>_ _. None),
     h_pg_ping = None, h_redis_parse = (\<lambda>_. Inr 10), h_redis_ping = None, h_iofs = None, h_migrate_init = (\<lambda>_. None),
     h_migrate_up = NoChange, h_listen = (\<lambda>_. None)\<rparr>"

definition sample_environ :: "string \<Rightarrow> environ" where
  "sample_environ reaper k = (if k = ''LSD_REAPER_INTERVAL_SECONDS'' then reaper
     else if k \<in> {''LSD_DATABASE_URL'', ''LSD_REDIS_URL''} then ''x'' else [])"

lemma sample_host_ok: "host_ok sample_host (sample_environ v)"
  by (simp add: host_ok_def sample_host_def sample_environ_def)


end
