(* ===== verification/Spec2Isabelle.thy ===== *)
theory Spec2Isabelle
  imports System_Integrity Recovery Config_Roundtrip Startup
begin

text \<open>
  \<^bold>\<open>Verification of the LangSmith deployment server\<close> (Go, \<^verbatim>\<open>src/internal\<close> and \<^verbatim>\<open>src/cmd/lsd\<close>).

  The program is a gRPC server that keeps assistants, threads, runs, crons and checkpoints in PostgreSQL, signals workers and clients through
  Redis, and runs three background loops: a reaper that requeues runs whose lease has run out, a scheduler that turns due crons into
  runs, and a sweeper that deletes expired threads. Each service has two layers, modelled in this order: a store (SQL statements in
  transactions) and a gRPC service on top of it (guards, translation of messages, Redis commands). Services meet in the database and in
  a few direct calls: the thread service calls the checkpointer (\<^verbatim>\<open>CheckpointerCopier\<close>), the scheduler calls the run service
  (\<^verbatim>\<open>RunsCreator\<close>), the run service displaces runs through its own store.

  \<^bold>\<open>How code becomes definitions.\<close> The state (\<open>world\<close>, theory \<open>Db\<close>) has one list of records per table, the clock of the
  database, the log of Redis commands and a schedule of faults. A store method is an \<open>op\<close>, a function on the world that returns a value or an
  error: \<open>stmt\<close> and \<open>query\<close> are one SQL statement, written as a function on the tables, \<open>in_tx\<close> is
  \<^verbatim>\<open>Begin ... Commit\<close> with the deferred rollback. Every statement and commit takes one entry of \<open>faults\<close>, so a theorem about all
  worlds covers a failure at every point. Statements assembled at run time keep their numbered placeholders and argument lists. A handler is an
  \<open>rpc\<close>: it answers with a gRPC status or a value. Loops that may run forever (\<^verbatim>\<open>Enter\<close>, \<^verbatim>\<open>Stream\<close>, the background loops) are functions on the list of
  events they receive; every other loop is total, the sweeper's by a measure, so no fuel is needed. What is not part of the repository is an argument:
  the casts of PostgreSQL, \<^verbatim>\<open>uuid.Parse\<close>, \<^verbatim>\<open>encoding/json\<close> (\<open>env\<close>), protobuf codecs and conversions Go leaves to the machine
  (\<open>pbenv\<close>), \<^verbatim>\<open>fmt.Sprint\<close> of composite values, the parser of cron schedules and time zones (\<open>cronenv\<close>), the replies of Redis, the
  outcome of each external step of the start-up (\<open>host\<close>).

  \<^bold>\<open>Theories.\<close>

  \<^item> \<open>Prelude\<close>, \<open>Jsonb\<close>: errors, results, enums; JSON and the \<^verbatim>\<open>jsonb\<close> operators.
  \<^item> \<open>Auth_Filter\<close> (\<^verbatim>\<open>auth/filter.go\<close>): compiling filters to SQL. The fragment selects what the filters mean, and user text never
    reaches the SQL text.
  \<^item> \<open>Db\<close>: tables, statements, transactions, schema keys, and the calculus \<open>keeps\<close> (invariants of operations) and \<open>calm\<close>.
  \<^item> \<open>Runs_Store\<close> (\<^verbatim>\<open>runs/store.go\<close>); \<open>Runs_Integrity\<close>: the contract \<open>run_ops\<close> of an invariant on its statements;
    \<open>Runs_Lease\<close>: claiming, sweeping, fencing; \<open>Runs_Read\<close>, \<open>Runs_Write\<close>: queries, create, cancel, delete;
    \<open>Runs_Machine\<close>: the store as a step relation, with invariants of all reachable states.
  \<^item> \<open>Config_Env\<close> (\<^verbatim>\<open>config/config.go\<close>), \<open>Streams\<close> (\<^verbatim>\<open>stream\<close>, \<^verbatim>\<open>cache\<close>, \<^verbatim>\<open>auth/userid.go\<close>).
  \<^item> \<open>Runs_Service\<close> (\<^verbatim>\<open>runs/service.go\<close>, \<^verbatim>\<open>reaper.go\<close>); \<open>Runs_Signals\<close>: what cancellation and creation signal, when the control stream
    of a worker ends, what a client of an output stream sees.
  \<^item> \<open>Threads_Store\<close> (\<^verbatim>\<open>threads/store.go\<close>, \<^verbatim>\<open>ttl.go\<close>); \<open>Threads_Correct\<close>, \<open>Threads_Write\<close>: its operations;
    \<open>Threads_Service\<close> (\<^verbatim>\<open>threads/service.go\<close>); \<open>Threads_Copy\<close>: the contract of the copier, copies across both components, event streams.
  \<^item> \<open>Checkpoint_Store\<close>, \<open>Checkpoint_Service\<close> (\<^verbatim>\<open>checkpointer\<close>); \<open>Checkpoint_Integrity\<close>: keys and immutable blobs;
    \<open>Checkpoint_Correct\<close>: writes, pruning, copying; \<open>Checkpoint_Roundtrip\<close>: what is put is what is read.
  \<^item> \<open>Crons_Payload\<close> (\<^verbatim>\<open>crons/payload.go\<close>): the codec of payloads and configs.
  \<^item> \<open>Crons_Store\<close> (\<^verbatim>\<open>crons/store.go\<close>), \<open>Crons_Service\<close> (\<^verbatim>\<open>crons/service.go\<close>, \<^verbatim>\<open>scheduler.go\<close>); \<open>Crons_Correct\<close>: which crons a claim advances and
    that a tick of the scheduler fires each of them once, or not at all; \<open>Crons_Write\<close>: create and patch.
  \<^item> \<open>Assistants_Store\<close>, \<open>Assistants_Service\<close> (\<^verbatim>\<open>assistants\<close>); \<open>Assistants_Correct\<close>: the version history; \<open>Assistants_Write\<close>: create,
    patch, delete and the choice of the latest version.
  \<^item> \<open>Config_Roundtrip\<close>: a configuration across the assistant service, the codec of \<open>Crons_Payload\<close> and the database, and back.
  \<^item> \<open>Admin\<close> (\<^verbatim>\<open>admin\<close>): capabilities and truncation.
  \<^item> \<open>System_Integrity\<close>: every operation that writes as one step relation, with the keys of all tables, the version history and the
    checkpoints as an invariant of all reachable states.
  \<^item> \<open>Recovery\<close>: the reaper, the queue and the claim in a row, after a worker has died, and what a worker that is still alive can do.
  \<^item> \<open>Startup\<close> (\<^verbatim>\<open>cmd/lsd/main.go\<close>, \<^verbatim>\<open>server\<close>, \<^verbatim>\<open>db\<close>, \<^verbatim>\<open>redis\<close>, \<^verbatim>\<open>tracing\<close>, \<^verbatim>\<open>logger\<close>): the steps of \<^verbatim>\<open>main\<close>, the background loops, the
    statistics of the pools.
  \<^item> \<open>Sample\<close>: a small installation on which witnesses evaluate the theorems.

  \<^bold>\<open>Assumptions worth knowing.\<close> Statements of one transaction are not interleaved with those of another: row locks, \<^verbatim>\<open>SKIP LOCKED\<close> and
  advisory locks are what the code relies on for that, and whether a lock was obtained is an argument. Where \<^verbatim>\<open>ORDER BY\<close> leaves ties, or
  \<^verbatim>\<open>LIMIT\<close> has no order, the model keeps the order of the table. Floating-point numbers are rationals.

  \<^bold>\<open>Not modelled.\<close> What drivers, the network and the migration tool do is the record \<open>host\<close>, an argument of \<^verbatim>\<open>main\<close>; stopping gracefully is left to the
  gRPC library. What is logged, traced or counted is output that nothing reads back, and \<^verbatim>\<open>main\<close> does not use \<^verbatim>\<open>metrics\<close>. \<^verbatim>\<open>jsonbutil\<close> is two
  calls of the protobuf library, whose decoders are arguments where they are used. \<^verbatim>\<open>gen/\<close> is generated, \<^verbatim>\<open>testdb\<close> is test support. What
  else the Go files hold is imports, comments, field lists of constructors and the reading of rows into structs.
\<close>

end
